(* ===== verification/Prelude.thy ===== *)
theory Prelude
  imports Main "HOL-Library.Word" "HOL-Library.Sublist" "HOL-Library.List_Lexorder"
    "HOL-Library.Char_ord" "HOL-Library.Multiset"
begin

text \<open>
  Shared vocabulary of the development: the integer and time types of the Go program, big-endian
  byte packing (package encoding/binary), the maps Go iterates in an unspecified order, and the
  generic lemmas the component theories use.  Nothing here is specific to one component.
\<close>

unbundle bit_operations_syntax

named_theorems wire \<comment> \<open>layout of datagrams: packing, unpacking, lengths\<close>
named_theorems strs \<comment> \<open>the Go string routines\<close>

type_synonym byte = "8 word"
type_synonym u16 = "16 word"
type_synonym u32 = "32 word"
type_synonym u64 = "64 word"

text \<open>
  A Go \<open>time.Time\<close> is an integer number of nanoseconds since Go's zero time, which is therefore 0
  (\<open>IsZero\<close> is equality with 0); a \<open>time.Duration\<close> is an integer number of nanoseconds.
\<close>

type_synonym time = int
type_synonym duration = int

abbreviation is_zero :: "time \<Rightarrow> bool" where
  "is_zero t \<equiv> t = 0"

definition second :: duration where
  "second = 1000000000"

definition millisecond :: duration where
  "millisecond = 1000000"

text \<open>Go's integer division truncates towards zero.\<close>

definition go_div :: "int \<Rightarrow> int \<Rightarrow> int" where
  "go_div a b = sgn a * sgn b * (\<bar>a\<bar> div \<bar>b\<bar>)"

lemma go_div_pos [simp]: "0 \<le> a \<Longrightarrow> 0 < b \<Longrightarrow> go_div a b = a div b"
  by (cases "a = 0") (simp_all add: go_div_def)

text \<open>The wrap-around of a Go \<open>int64\<close> (the type \<open>int\<close> and \<open>time.Duration\<close> of a 64-bit build).\<close>

definition int64 :: "int \<Rightarrow> int" where
  "int64 x = signed_take_bit 63 x"

definition in_int64 :: "int \<Rightarrow> bool" where
  "in_int64 x \<longleftrightarrow> - (2 ^ 63) \<le> x \<and> x < 2 ^ 63"

lemma int64_id [simp]: "in_int64 x \<Longrightarrow> int64 x = x"
  by (simp add: int64_def in_int64_def signed_take_bit_int_eq_self_iff)

lemma int64_in_int64 [simp]: "in_int64 (int64 x)"
proof -
  have "- (2 ^ 63) \<le> signed_take_bit 63 x" "signed_take_bit 63 x < 2 ^ 63"
    by (rule signed_take_bit_int_greater_eq_minus_exp signed_take_bit_int_less_exp)+
  then show ?thesis
    by (simp add: int64_def in_int64_def)
qed

subsection \<open>Big-endian packing\<close>

definition put_be16 :: "u16 \<Rightarrow> byte list" where
  "put_be16 w = [ucast (drop_bit 8 w), ucast w]"

definition put_be32 :: "u32 \<Rightarrow> byte list" where
  "put_be32 w = [ucast (drop_bit 24 w), ucast (drop_bit 16 w), ucast (drop_bit 8 w), ucast w]"

text \<open>
  \<open>binary.BigEndian.Uint16(b[i:i+2])\<close> and \<open>Uint32(b[i:i+4])\<close>; the callers check the length first.
\<close>

definition get_be16 :: "byte list \<Rightarrow> nat \<Rightarrow> u16" where
  "get_be16 b i = push_bit 8 (ucast (b ! i)) OR ucast (b ! (i + 1))"

definition get_be32 :: "byte list \<Rightarrow> nat \<Rightarrow> u32" where
  "get_be32 b i =
     push_bit 24 (ucast (b ! i)) OR push_bit 16 (ucast (b ! (i + 1)))
     OR push_bit 8 (ucast (b ! (i + 2))) OR ucast (b ! (i + 3))"

lemma length_put_be16 [wire, simp]: "length (put_be16 w) = 2"
  by (simp add: put_be16_def)

lemma length_put_be32 [wire, simp]: "length (put_be32 w) = 4"
  by (simp add: put_be32_def)

lemma be16_join: "push_bit 8 (ucast (ucast (drop_bit 8 w) :: byte)) OR ucast (ucast w :: byte) = (w :: u16)"
  by (rule bit_word_eqI) (auto simp: bit_simps)

lemma be32_join:
  "push_bit 24 (ucast (ucast (drop_bit 24 w) :: byte)) OR push_bit 16 (ucast (ucast (drop_bit 16 w) :: byte))
   OR push_bit 8 (ucast (ucast (drop_bit 8 w) :: byte)) OR ucast (ucast w :: byte) = (w :: u32)"
proof (rule bit_word_eqI)
  fix n :: nat
  consider "n < 8" | "8 \<le> n" "n < 16" | "16 \<le> n" "n < 24" | "24 \<le> n"
    by linarith
  then show "bit (push_bit 24 (ucast (ucast (drop_bit 24 w) :: byte))
      OR push_bit 16 (ucast (ucast (drop_bit 16 w) :: byte))
      OR push_bit 8 (ucast (ucast (drop_bit 8 w) :: byte)) OR ucast (ucast w :: byte) :: u32) n
    \<longleftrightarrow> bit w n" if "n < LENGTH(32)"
    by cases (use that in \<open>auto simp: bit_simps\<close>)
qed

lemma get_put_be16 [wire]:
  "length pre = i \<Longrightarrow> get_be16 (pre @ put_be16 w @ post) i = w"
  by (auto simp: get_be16_def put_be16_def nth_append be16_join)

lemma get_put_be32 [wire]:
  "length pre = i \<Longrightarrow> get_be32 (pre @ put_be32 w @ post) i = w"
  by (auto simp: get_be32_def put_be32_def nth_append be32_join)


subsection \<open>Maps ranged over in an unspecified order\<close>

text \<open>
  Go ranges over a map in an order chosen at run time.  A definition that depends on it takes the
  order as an argument \<open>ord\<close>, a list of the keys; theorems hold for every such list.
\<close>

definition enumerates :: "'k list \<Rightarrow> ('k \<rightharpoonup> 'v) \<Rightarrow> bool" where
  "enumerates ord m \<longleftrightarrow> distinct ord \<and> set ord = dom m"

text \<open>The first key of the order whose value satisfies \<open>p\<close>.\<close>

definition find_key :: "('k \<Rightarrow> 'v \<Rightarrow> bool) \<Rightarrow> 'k list \<Rightarrow> ('k \<rightharpoonup> 'v) \<Rightarrow> 'k option" where
  "find_key p ord m = find (\<lambda>k. case m k of None \<Rightarrow> False | Some v \<Rightarrow> p k v) ord"

lemma find_key_Some: "find_key p ord m = Some k \<Longrightarrow> k \<in> set ord \<and> (\<exists>v. m k = Some v \<and> p k v)"
  by (auto simp: find_key_def find_Some_iff split: option.splits)

lemma find_key_None:
  assumes "enumerates ord m"
  shows "find_key p ord m = None \<longleftrightarrow> (\<forall>k v. m k = Some v \<longrightarrow> \<not> p k v)"
proof
  assume "find_key p ord m = None"
  then have no: "\<not> (\<exists>k. k \<in> set ord \<and> (case m k of None \<Rightarrow> False | Some v \<Rightarrow> p k v))"
    by (simp add: find_key_def find_None_iff)
  show "\<forall>k v. m k = Some v \<longrightarrow> \<not> p k v"
  proof (intro allI impI notI)
    fix k v assume "m k = Some v" "p k v"
    moreover from this have "k \<in> set ord"
      using assms by (auto simp: enumerates_def)
    ultimately show False
      using no by auto
  qed
next
  assume "\<forall>k v. m k = Some v \<longrightarrow> \<not> p k v"
  then have "\<not> (\<exists>k. k \<in> set ord \<and> (case m k of None \<Rightarrow> False | Some v \<Rightarrow> p k v))"
    by (simp split: option.splits)
  then show "find_key p ord m = None"
    by (simp add: find_key_def find_None_iff)
qed

lemma find_key_unique:
  assumes "enumerates ord m" "m k = Some v" "p k v" "\<And>k' v'. m k' = Some v' \<Longrightarrow> p k' v' \<Longrightarrow> k' = k"
  shows "find_key p ord m = Some k"
proof (cases "find_key p ord m")
  case None
  with assms(1-3) show ?thesis
    by (simp add: find_key_None [OF assms(1)])
next
  case (Some k')
  with assms(4) find_key_Some [OF Some] show ?thesis
    by blast
qed

text \<open>The values of a map, collected along an order of its keys.\<close>

lemma in_map_filter: "v \<in> set (List.map_filter m ord) \<longleftrightarrow> (\<exists>k \<in> set ord. m k = Some v)"
proof (induction ord)
  case (Cons a ord)
  then show ?case
    by (cases "m a") (auto simp: List.map_filter_simps)
qed (simp add: List.map_filter_simps)

lemma enumerates_ex: "enumerates ord m \<Longrightarrow> (\<exists>k \<in> set ord. m k = Some v) \<longleftrightarrow> (\<exists>k. m k = Some v)"
  unfolding enumerates_def by (metis domI)

lemma set_map_filter_ord: "enumerates ord m \<Longrightarrow> set (List.map_filter m ord) = ran m"
  unfolding ran_def using in_map_filter [of _ m ord] enumerates_ex [of ord m] by blast

subsection \<open>State machines\<close>

text \<open>
  Operations on a state and an invariant that each of them keeps: every sequence of operations
  keeps it.  The components interpret this locale with their own operations.
\<close>

locale machine =
  fixes step :: "'op \<Rightarrow> 's \<Rightarrow> 's" and inv :: "'s \<Rightarrow> bool"
  assumes step_inv: "inv s \<Longrightarrow> inv (step a s)"
begin

lemma run_inv: "inv s \<Longrightarrow> inv (fold step ops s)"
  by (induction ops arbitrary: s) (simp_all add: step_inv)

end

end
