(* ===== verification/Go_Strings.thy ===== *)
theory Go_Strings
  imports Prelude
begin

text \<open>
  The routines of Go's packages strings and strconv that the bridge uses.  A Go string is a
  sequence of bytes, here a \<open>char list\<close> (an Isabelle \<open>char\<close> is one byte).

  \<open>TrimSpace\<close> is exact: the white space of package unicode is listed with its UTF-8 encodings.
  \<open>ToLower\<close>, \<open>ToUpper\<close> and \<open>EqualFold\<close> map the ASCII letters and keep every byte from 128 on, which
  is what Go does on ASCII text and on scripts without case; the Unicode case tables are not
  modelled.  \<open>Atoi\<close> is exact for a 64-bit \<open>int\<close>.
\<close>

subsection \<open>Case\<close>

definition is_upper :: "char \<Rightarrow> bool" where
  "is_upper c \<longleftrightarrow> CHR ''A'' \<le> c \<and> c \<le> CHR ''Z''"

definition is_lower :: "char \<Rightarrow> bool" where
  "is_lower c \<longleftrightarrow> CHR ''a'' \<le> c \<and> c \<le> CHR ''z''"

fun set_case_bit :: "bool \<Rightarrow> char \<Rightarrow> char" where
  "set_case_bit b (Char b0 b1 b2 b3 b4 b5 b6 b7) = Char b0 b1 b2 b3 b4 b b6 b7"

definition lower_char :: "char \<Rightarrow> char" where
  "lower_char c = (if is_upper c then set_case_bit True c else c)"

definition upper_char :: "char \<Rightarrow> char" where
  "upper_char c = (if is_lower c then set_case_bit False c else c)"

definition to_lower :: "string \<Rightarrow> string" where
  "to_lower s = map lower_char s"

definition to_upper :: "string \<Rightarrow> string" where
  "to_upper s = map upper_char s"

definition equal_fold :: "string \<Rightarrow> string \<Rightarrow> bool" where
  "equal_fold a b \<longleftrightarrow> to_lower a = to_lower b"

lemma equal_fold_refl [simp]: "equal_fold a a"
  by (simp add: equal_fold_def)

lemma equal_fold_empty [simp]: "equal_fold [] b \<longleftrightarrow> b = []" "equal_fold b [] \<longleftrightarrow> b = []"
  by (auto simp: equal_fold_def to_lower_def)

lemma length_to_lower [simp]: "length (to_lower s) = length s"
  by (simp add: to_lower_def)

lemma length_to_upper [simp]: "length (to_upper s) = length s"
  by (simp add: to_upper_def)

lemma is_upper_simps [simp]:
  "is_upper (set_case_bit True c) \<longleftrightarrow> False"
  "is_lower (set_case_bit False c) \<longleftrightarrow> False"
  by (cases c; auto simp: is_upper_def is_lower_def less_eq_char_simp)+

lemma lower_char_idem [simp]: "lower_char (lower_char c) = lower_char c"
  by (simp add: lower_char_def)

lemma upper_char_idem [simp]: "upper_char (upper_char c) = upper_char c"
  by (simp add: upper_char_def)

lemma to_lower_idem [simp]: "to_lower (to_lower s) = to_lower s"
  by (simp add: to_lower_def)

lemma to_upper_idem [simp]: "to_upper (to_upper s) = to_upper s"
  by (simp add: to_upper_def)

subsection \<open>White space\<close>

text \<open>The UTF-8 encodings of the runes for which \<open>unicode.IsSpace\<close> holds.\<close>

definition space_runes :: "string list" where
  "space_runes =
     [ [CHR 0x20], [CHR 0x09], [CHR 0x0A], [CHR 0x0B], [CHR 0x0C], [CHR 0x0D],
       [CHR 0xC2, CHR 0x85], [CHR 0xC2, CHR 0xA0], [CHR 0xE1, CHR 0x9A, CHR 0x80],
       [CHR 0xE2, CHR 0x80, CHR 0x80], [CHR 0xE2, CHR 0x80, CHR 0x81], [CHR 0xE2, CHR 0x80, CHR 0x82],
       [CHR 0xE2, CHR 0x80, CHR 0x83], [CHR 0xE2, CHR 0x80, CHR 0x84], [CHR 0xE2, CHR 0x80, CHR 0x85],
       [CHR 0xE2, CHR 0x80, CHR 0x86], [CHR 0xE2, CHR 0x80, CHR 0x87], [CHR 0xE2, CHR 0x80, CHR 0x88],
       [CHR 0xE2, CHR 0x80, CHR 0x89], [CHR 0xE2, CHR 0x80, CHR 0x8A], [CHR 0xE2, CHR 0x80, CHR 0xA8],
       [CHR 0xE2, CHR 0x80, CHR 0xA9], [CHR 0xE2, CHR 0x80, CHR 0xAF], [CHR 0xE2, CHR 0x81, CHR 0x9F],
       [CHR 0xE3, CHR 0x80, CHR 0x80] ]"

text \<open>Strip from the front of \<open>s\<close> as long as one of the sequences \<open>ws\<close> starts it.\<close>

function strip_front :: "string list \<Rightarrow> string \<Rightarrow> string" where
  "strip_front ws s =
     (case find (\<lambda>w. w \<noteq> [] \<and> prefix w s) ws of
        None \<Rightarrow> s
      | Some w \<Rightarrow> strip_front ws (drop (length w) s))"
  by pat_completeness auto
termination
  by (relation "measure (\<lambda>(ws, s). length s)")
     (auto simp: find_Some_iff prefix_def)

declare strip_front.simps [simp del]

definition trim_left_space :: "string \<Rightarrow> string" where
  "trim_left_space s = strip_front space_runes s"

definition trim_right_space :: "string \<Rightarrow> string" where
  "trim_right_space s = rev (strip_front (map rev space_runes) (rev s))"

definition trim_space :: "string \<Rightarrow> string" where
  "trim_space s = trim_right_space (trim_left_space s)"

lemma strip_front_Nil [simp]: "strip_front ws [] = []"
  by (subst strip_front.simps) (auto simp: find_None_iff split: option.split dest!: find_Some_iff [THEN iffD1])

lemma length_strip_front: "length (strip_front ws s) \<le> length s"
proof (induction ws s rule: strip_front.induct)
  case (1 ws s)
  then show ?case
    by (subst strip_front.simps) (fastforce split: option.split)
qed

lemma trim_space_Nil [simp]: "trim_space [] = []"
  by (simp add: trim_space_def trim_left_space_def trim_right_space_def)

lemma length_trim_space: "length (trim_space s) \<le> length s"
proof -
  have "length (trim_space s) \<le> length (trim_left_space s)"
    using length_strip_front [of "map rev space_runes" "rev (trim_left_space s)"]
    by (simp add: trim_space_def trim_right_space_def)
  also have "\<dots> \<le> length s"
    by (simp add: trim_left_space_def length_strip_front)
  finally show ?thesis .
qed

text \<open>A string that neither starts nor ends with one of these bytes is left alone.\<close>

definition edge_byte :: "char \<Rightarrow> bool" where
  "edge_byte c \<longleftrightarrow> c \<in> hd ` set space_runes \<or> c \<in> last ` set space_runes"

lemma strip_front_id:
  assumes "\<And>w. w \<in> set ws \<Longrightarrow> w \<noteq> [] \<Longrightarrow> hd w \<noteq> hd s"
  shows "strip_front ws s = s"
proof -
  have "find (\<lambda>w. w \<noteq> [] \<and> prefix w s) ws = None"
    using assms by (force simp: find_None_iff prefix_def neq_Nil_conv)
  then show ?thesis
    by (subst strip_front.simps) simp
qed

lemma trim_space_id [strs]:
  assumes "s \<noteq> []" "\<not> edge_byte (hd s)" "\<not> edge_byte (last s)"
  shows "trim_space s = s"
proof -
  have "trim_left_space s = s"
    unfolding trim_left_space_def
    by (rule strip_front_id) (metis assms(2) edge_byte_def image_eqI)
  moreover have "strip_front (map rev space_runes) (rev s) = rev s"
  proof (rule strip_front_id)
    fix w assume "w \<in> set (map rev space_runes)" "w \<noteq> []"
    then obtain v where "v \<in> set space_runes" "w = rev v" "v \<noteq> []"
      by auto
    then show "hd w \<noteq> hd (rev s)"
      using assms(1,3) by (metis edge_byte_def hd_rev image_eqI last_rev rev_is_Nil_conv)
  qed
  ultimately show ?thesis
    by (simp add: trim_space_def trim_right_space_def)
qed

subsection \<open>Trimming, splitting, cutting\<close>

text \<open>\<open>strings.TrimRight(s, cutset)\<close> for an ASCII cutset.\<close>

definition trim_right :: "string \<Rightarrow> string \<Rightarrow> string" where
  "trim_right s cutset = rev (dropWhile (\<lambda>c. c \<in> set cutset) (rev s))"

text \<open>\<open>strings.TrimSuffix\<close> and \<open>strings.TrimPrefix\<close>.\<close>

definition trim_suffix :: "string \<Rightarrow> string \<Rightarrow> string" where
  "trim_suffix s suf = (if suffix suf s then take (length s - length suf) s else s)"

definition trim_prefix :: "string \<Rightarrow> string \<Rightarrow> string" where
  "trim_prefix s pre = (if prefix pre s then drop (length pre) s else s)"

text \<open>\<open>strings.Split\<close> with a one-byte separator: always at least one part.\<close>

fun split_on :: "char \<Rightarrow> string \<Rightarrow> string list" where
  "split_on sep [] = [[]]"
| "split_on sep (c # cs) =
     (if c = sep then [] # split_on sep cs
      else (case split_on sep cs of
              [] \<Rightarrow> [[c]]
            | p # ps \<Rightarrow> (c # p) # ps))"

text \<open>\<open>strings.Cut\<close> with a one-byte separator: before, after, found.\<close>

fun cut :: "char \<Rightarrow> string \<Rightarrow> string \<times> string \<times> bool" where
  "cut sep [] = ([], [], False)"
| "cut sep (c # cs) =
     (if c = sep then ([], cs, True)
      else (case cut sep cs of (b, a, f) \<Rightarrow> (c # b, a, f)))"

text \<open>\<open>strings.SplitN\<close> with a one-byte separator and at most \<open>n\<close> parts, for \<open>n \<ge> 1\<close>.\<close>

fun split_n :: "char \<Rightarrow> nat \<Rightarrow> string \<Rightarrow> string list" where
  "split_n sep 0 s = []"
| "split_n sep (Suc 0) s = [s]"
| "split_n sep (Suc (Suc n)) s =
     (case cut sep s of (b, a, f) \<Rightarrow> if f then b # split_n sep (Suc n) a else [s])"

text \<open>\<open>strings.Join\<close>.\<close>

fun join :: "string \<Rightarrow> string list \<Rightarrow> string" where
  "join sep [] = []"
| "join sep [x] = x"
| "join sep (x # y # xs) = x @ sep @ join sep (y # xs)"

lemma split_on_nonempty [simp]: "split_on sep s \<noteq> []"
  by (cases s) (auto split: list.split)

lemma split_on_notin: "sep \<notin> set s \<Longrightarrow> split_on sep s = [s]"
  by (induction s) auto

lemma split_on_append [strs]:
  "sep \<notin> set a \<Longrightarrow> split_on sep (a @ sep # s) = a # split_on sep s"
  by (induction a) auto

lemma split_on_join [strs]:
  assumes "\<forall>p \<in> set ps. sep \<notin> set p" "ps \<noteq> []"
  shows "split_on sep (join [sep] ps) = ps"
  using assms
  by (induction "[sep]" ps rule: join.induct) (auto simp: split_on_append split_on_notin)

lemma split_on_parts: "p \<in> set (split_on sep s) \<Longrightarrow> sep \<notin> set p"
  by (induction s arbitrary: p) (auto split: if_splits list.splits)

lemma cut_append [strs]: "sep \<notin> set a \<Longrightarrow> cut sep (a @ sep # s) = (a, s, True)"
  by (induction a) auto

lemma cut_notin [strs]: "sep \<notin> set s \<Longrightarrow> cut sep s = (s, [], False)"
  by (induction s) auto

lemma cut_found: "cut sep s = (b, a, True) \<Longrightarrow> s = b @ sep # a \<and> sep \<notin> set b"
  by (induction s arbitrary: b) (auto split: if_splits prod.splits)

lemma split_n3 [strs]:
  assumes "sep \<notin> set a" "sep \<notin> set b"
  shows "split_n sep 3 (a @ sep # b @ sep # c) = [a, b, c]"
  using assms by (simp add: numeral_3_eq_3 cut_append)

lemma trim_right_append [strs]:
  "set post \<subseteq> set cutset \<Longrightarrow> trim_right (s @ post) cutset = trim_right s cutset"
  by (simp add: trim_right_def subset_iff) (subst dropWhile_append2, auto)

lemma trim_right_id [strs]: "s = [] \<or> last s \<notin> set cutset \<Longrightarrow> trim_right s cutset = s"
  by (cases s rule: rev_cases) (auto simp: trim_right_def)

subsection \<open>Decimal numbers\<close>

definition is_digit :: "char \<Rightarrow> bool" where
  "is_digit c \<longleftrightarrow> CHR ''0'' \<le> c \<and> c \<le> CHR ''9''"

definition digit_val :: "char \<Rightarrow> nat" where
  "digit_val c = of_char c - 48"

definition digit_char :: "nat \<Rightarrow> char" where
  "digit_char n = ''0123456789'' ! n"

fun nat_str :: "nat \<Rightarrow> string" where
  "nat_str n = (if n < 10 then [digit_char n] else nat_str (n div 10) @ [digit_char (n mod 10)])"

declare nat_str.simps [simp del]

text \<open>\<open>strconv.Itoa\<close>, \<open>strconv.FormatInt(i, 10)\<close> and the verb \<open>%d\<close>.\<close>

definition itoa :: "int \<Rightarrow> string" where
  "itoa i = (if i < 0 then CHR ''-'' # nat_str (nat (- i)) else nat_str (nat i))"

definition digits_val :: "string \<Rightarrow> nat" where
  "digits_val ds = foldl (\<lambda>v c. v * 10 + digit_val c) 0 ds"

text \<open>\<open>strconv.Atoi\<close> and \<open>strconv.ParseInt(s, 10, 64)\<close>: an optional sign, digits, the int64 range.\<close>

fun split_sign :: "string \<Rightarrow> bool \<times> string" where
  "split_sign [] = (False, [])"
| "split_sign (c # cs) =
     (if c = CHR ''-'' then (True, cs) else if c = CHR ''+'' then (False, cs) else (False, c # cs))"

definition atoi :: "string \<Rightarrow> int option" where
  "atoi s =
     (let (neg, ds) = split_sign s;
          v = (if neg then - int (digits_val ds) else int (digits_val ds))
      in if ds = [] \<or> \<not> list_all is_digit ds then None
         else if in_int64 v then Some v else None)"

lemma less_10_cases:
  "(n::nat) < 10 \<Longrightarrow> n = 0 \<or> n = 1 \<or> n = 2 \<or> n = 3 \<or> n = 4 \<or> n = 5 \<or> n = 6 \<or> n = 7 \<or> n = 8 \<or> n = 9"
  by arith

lemma digit_char [simp]:
  assumes "n < 10"
  shows "is_digit (digit_char n)" "digit_val (digit_char n) = n"
  using less_10_cases [OF assms]
  by (elim disjE; simp add: digit_char_def is_digit_def digit_val_def)+

lemma digits_val_snoc [simp]: "digits_val (ds @ [c]) = digits_val ds * 10 + digit_val c"
  by (simp add: digits_val_def)

lemma nat_str_digits: "list_all is_digit (nat_str n) \<and> digits_val (nat_str n) = n \<and> nat_str n \<noteq> []"
proof (induction n rule: nat_str.induct)
  case (1 n)
  show ?case
  proof (cases "n < 10")
    case True
    then show ?thesis
      by (subst (1 2 3) nat_str.simps) (simp add: digits_val_def)
  next
    case False
    with 1 show ?thesis
      by (subst (1 2 3) nat_str.simps) simp
  qed
qed

lemma nat_str_nonempty [simp]: "nat_str n \<noteq> []"
  using nat_str_digits by blast

lemma is_digit_not_sign: "is_digit c \<Longrightarrow> c \<noteq> CHR ''-'' \<and> c \<noteq> CHR ''+''"
  by (auto simp: is_digit_def)

lemma split_sign_digits: "list_all is_digit ds \<Longrightarrow> split_sign ds = (False, ds)"
  by (cases ds) (auto dest: is_digit_not_sign)

lemma atoi_itoa [strs]: "in_int64 i \<Longrightarrow> atoi (itoa i) = Some i"
proof (cases "i < 0")
  case True
  assume "in_int64 i"
  with True nat_str_digits [of "nat (- i)"] show ?thesis
    by (auto simp: atoi_def itoa_def)
next
  case False
  assume "in_int64 i"
  with False nat_str_digits [of "nat i"] show ?thesis
    by (auto simp: atoi_def itoa_def split_sign_digits)
qed

lemma set_itoa: "c \<in> set (itoa i) \<Longrightarrow> is_digit c \<or> c = CHR ''-''"
  using nat_str_digits [of "nat i"] nat_str_digits [of "nat (- i)"]
  by (auto simp: itoa_def list_all_iff split: if_splits)

lemma itoa_nonempty [simp]: "itoa i \<noteq> []"
  by (simp add: itoa_def)

lemma not_in_itoa [strs]: "\<not> is_digit c \<Longrightarrow> c \<noteq> CHR ''-'' \<Longrightarrow> c \<notin> set (itoa i)"
  using set_itoa by blast

lemma digit_not_edge: "is_digit c \<or> c = CHR ''-'' \<Longrightarrow> \<not> edge_byte c"
  by (auto simp: edge_byte_def space_runes_def is_digit_def less_eq_char_simp)

lemma trim_space_itoa [strs, simp]: "trim_space (itoa i) = itoa i"
  by (intro trim_space_id digit_not_edge) (simp_all add: set_itoa [of _ i])

lemma atoi_Some_int64: "atoi s = Some v \<Longrightarrow> in_int64 v"
  by (auto simp: atoi_def Let_def split: prod.splits if_splits)

subsection \<open>Fields\<close>

text \<open>\<open>strings.Fields\<close>: the maximal runs without white space.\<close>

definition starts_space :: "string \<Rightarrow> bool" where
  "starts_space s \<longleftrightarrow> list_ex (\<lambda>w. prefix w s) space_runes"

fun span_word :: "string \<Rightarrow> string \<times> string" where
  "span_word [] = ([], [])"
| "span_word (c # s) =
     (if starts_space (c # s) then ([], c # s)
      else (case span_word s of (w, rest) \<Rightarrow> (c # w, rest)))"

lemma span_word_append: "span_word s = (w, rest) \<Longrightarrow> s = w @ rest"
  by (induction s arbitrary: w) (auto split: if_splits prod.splits)

lemma starts_space_strip: "t \<noteq> [] \<Longrightarrow> t = strip_front space_runes s \<Longrightarrow> \<not> starts_space t"
proof (induction space_runes s rule: strip_front.induct)
  case (1 s)
  show ?case
  proof (cases "find (\<lambda>w. w \<noteq> [] \<and> prefix w s) space_runes")
    case None
    then have "t = s"
      using 1(3) by (simp add: strip_front.simps [of _ s])
    moreover have "\<forall>w \<in> set space_runes. w \<noteq> []"
      by (simp add: space_runes_def)
    ultimately show ?thesis
      using None by (auto simp: starts_space_def list_ex_iff find_None_iff)
  next
    case (Some w)
    then have "strip_front space_runes s = strip_front space_runes (drop (length w) s)"
      by (simp add: strip_front.simps [of _ s])
    then show ?thesis
      using 1(1) [OF Some 1(2)] 1(3) by simp
  qed
qed

function go_fields :: "string \<Rightarrow> string list" where
  "go_fields s =
     (let t = trim_left_space s
      in if t = [] then []
         else (case span_word t of (w, rest) \<Rightarrow> w # go_fields rest))"
  by pat_completeness auto
termination
proof (relation "measure length", simp, clarsimp)
  fix s w rest
  assume t: "trim_left_space s \<noteq> []" and w: "(w, rest) = span_word (trim_left_space s)"
  obtain c u where cu: "trim_left_space s = c # u"
    using t by (cases "trim_left_space s") auto
  have "\<not> starts_space (trim_left_space s)"
    using starts_space_strip t by (simp add: trim_left_space_def)
  then have "w \<noteq> []"
    using w by (auto simp: cu split: prod.splits)
  moreover have "trim_left_space s = w @ rest"
    by (rule span_word_append) (simp add: w)
  moreover have "length (trim_left_space s) \<le> length s"
    by (simp add: trim_left_space_def length_strip_front)
  ultimately show "length rest < length s"
    by (cases w) auto
qed

declare go_fields.simps [simp del]

end
