(* ===== verification/Raop_Protocol.thy ===== *)
theory Raop_Protocol
  imports Go_Strings
begin

text \<open>
  The wire format of the RAOP sender, internal/raop/protocol.go: the PCM format and its
  validation, the SDP body of ANNOUNCE, the conversion between NTP and RTP time stamps, and the
  audio, sync and timing datagrams.
\<close>

subsection \<open>Constants\<close>

definition frames_per_packet :: int where "frames_per_packet = 352"
definition payload_type :: int where "payload_type = 96"
definition default_port :: int where "default_port = 7000"
definition user_agent :: string where "user_agent = ''AirPlay/550.10''"
definition rtp_time_scale :: int where "rtp_time_scale = 44100"
definition ntp_epoch_offset :: int where "ntp_epoch_offset = 0x83AA7E80"
definition latency_frames :: int where "latency_frames = 22050 + rtp_time_scale"
definition sync_interval :: int where "sync_interval = 1"

definition rtp_type_audio :: byte where "rtp_type_audio = 0x60"
definition rtp_type_sync :: byte where "rtp_type_sync = 0xD4"
definition rtp_type_timing :: byte where "rtp_type_timing = 0x53"
definition rtp_marker_bit :: byte where "rtp_marker_bit = 0x80"
definition rtp_proto_version :: byte where "rtp_proto_version = 0x80"
definition rtp_proto_extended :: byte where "rtp_proto_extended = 0x90"
definition sync_seq_no :: u16 where "sync_seq_no = 7"
definition timing_seq_no :: u16 where "timing_seq_no = 7"

lemmas protocol_consts =
  frames_per_packet_def payload_type_def default_port_def user_agent_def rtp_time_scale_def
  ntp_epoch_offset_def latency_frames_def sync_interval_def rtp_type_audio_def rtp_type_sync_def
  rtp_type_timing_def rtp_marker_bit_def rtp_proto_version_def rtp_proto_extended_def
  sync_seq_no_def timing_seq_no_def

subsection \<open>The PCM format\<close>

record audio_format =
  sample_rate :: int
  channels :: int
  bit_depth :: int

datatype format_error =
    Invalid_Sample_Rate int
  | Unsupported_Channels int
  | Unsupported_Bit_Depth int

definition validate :: "audio_format \<Rightarrow> format_error option" where
  "validate f =
     (if sample_rate f \<le> 0 then Some (Invalid_Sample_Rate (sample_rate f))
      else if channels f \<noteq> 1 \<and> channels f \<noteq> 2 then Some (Unsupported_Channels (channels f))
      else if bit_depth f \<noteq> 16 then Some (Unsupported_Bit_Depth (bit_depth f))
      else None)"

definition frame_size :: "audio_format \<Rightarrow> int" where
  "frame_size f = channels f * go_div (bit_depth f) 8"

definition packet_size :: "audio_format \<Rightarrow> int" where
  "packet_size f = frames_per_packet * frame_size f"

definition rtpmap :: "audio_format \<Rightarrow> string" where
  "rtpmap f = ''L16/'' @ itoa (sample_rate f) @ ''/'' @ itoa (channels f)"

definition fmtp :: "audio_format \<Rightarrow> string" where
  "fmtp f =
     itoa frames_per_packet @ '' 0 '' @ itoa (bit_depth f) @ '' 40 10 14 '' @ itoa (channels f)
     @ '' 255 0 0 '' @ itoa (sample_rate f)"

definition crlf :: string where
  "crlf = [CHR 0x0D, CHR 0x0A]"

definition build_sdp :: "u32 \<Rightarrow> string \<Rightarrow> string \<Rightarrow> audio_format \<Rightarrow> string" where
  "build_sdp session_id local_ip remote_ip f =
     ''v=0'' @ crlf
     @ ''o=iTunes '' @ itoa (uint session_id) @ '' 0 IN IP4 '' @ local_ip @ crlf
     @ ''s=iTunes'' @ crlf
     @ ''c=IN IP4 '' @ remote_ip @ crlf
     @ ''t=0 0'' @ crlf
     @ ''m=audio 0 RTP/AVP '' @ itoa payload_type @ crlf
     @ ''a=rtpmap:'' @ itoa payload_type @ '' '' @ rtpmap f @ crlf
     @ ''a=fmtp:'' @ itoa payload_type @ '' '' @ fmtp f @ crlf"

lemma validate_None:
  "validate f = None \<longleftrightarrow> 0 < sample_rate f \<and> channels f \<in> {1, 2} \<and> bit_depth f = 16"
  by (auto simp: validate_def)

lemma packet_size_valid:
  "validate f = None \<Longrightarrow> packet_size f = 704 * channels f \<and> 0 < packet_size f"
  by (auto simp: validate_None packet_size_def frame_size_def protocol_consts)

subsection \<open>NTP and RTP time stamps\<close>

text \<open>
  \<open>NTPNow\<close> on a wall clock of \<open>s\<close> seconds and \<open>ns\<close> nanoseconds.  Both sums and the shift are
  \<open>int64\<close> operations and wrap; the conversion to \<open>uint64\<close> keeps the bits.
\<close>

definition ntp_now :: "int \<Rightarrow> int \<Rightarrow> u64" where
  "ntp_now s ns =
     (let seconds = word_of_int (s + ntp_epoch_offset);
          frac = word_of_int (go_div (int64 (push_bit 32 ns)) 1000000000)
      in push_bit 32 seconds OR frac)"

definition ntp_parts :: "u64 \<Rightarrow> u32 \<times> u32" where
  "ntp_parts ntp = (ucast (drop_bit 32 ntp), ucast (ntp AND 0xFFFFFFFF))"

definition ntp_to_rtp :: "u64 \<Rightarrow> int \<Rightarrow> u32" where
  "ntp_to_rtp ntp rate = ucast (drop_bit 16 (drop_bit 16 ntp * word_of_int rate))"

text \<open>The division panics when \<open>uint64(rate)\<close> is zero: \<open>None\<close>.\<close>

definition rtp_to_ntp :: "u32 \<Rightarrow> int \<Rightarrow> u64 option" where
  "rtp_to_ntp ts rate =
     (let r = word_of_int rate :: u64
      in if r = 0 then None else Some (push_bit 16 (push_bit 16 (ucast ts) div r)))"

lemma uint_ntp_to_rtp:
  assumes "0 \<le> rate" "rate < 2 ^ 64"
  shows "uint (ntp_to_rtp ntp rate) = (uint ntp div 2 ^ 16 * rate) div 2 ^ 16 mod 2 ^ 32"
proof -
  have r: "uint (word_of_int rate :: u64) = rate"
    using assms by (simp add: uint_word_of_int)
  have "uint (ntp_to_rtp ntp rate)
      = take_bit 32 (drop_bit 16 (take_bit 64 (drop_bit 16 (uint ntp) * rate)))"
    by (simp add: ntp_to_rtp_def unsigned_ucast_eq unsigned_drop_bit_eq uint_word_arith_bintrs
        bintr_uint r)
  also have "\<dots> = take_bit 32 (drop_bit 16 (drop_bit 16 (uint ntp) * rate))"
    by (simp add: drop_bit_take_bit take_bit_take_bit)
  finally show ?thesis
    by (simp add: drop_bit_eq_div take_bit_eq_mod)
qed

lemma rtp_to_ntp_Some:
  assumes "0 < rate" "rate < 2 ^ 64"
  shows "\<exists>n. rtp_to_ntp ts rate = Some n \<and> uint n = (uint ts * 2 ^ 16 div rate) * 2 ^ 16"
proof -
  have r: "uint (word_of_int rate :: u64) = rate"
    using assms by (simp add: uint_word_of_int)
  have ts: "0 \<le> uint ts" "uint ts < 2 ^ 32"
    using uint_bounded [of ts] by simp_all
  have "word_of_int rate \<noteq> (0 :: u64)"
    using r assms by (metis less_irrefl uint_0_eq)
  moreover have "uint (push_bit 16 (ucast ts) :: u64) = take_bit 64 (push_bit 16 (take_bit 64 (uint ts)))"
    by (simp add: unsigned_push_bit_eq unsigned_ucast_eq)
  then have "uint (push_bit 16 (ucast ts) :: u64) = uint ts * 2 ^ 16"
    using ts by (simp add: take_bit_eq_mod push_bit_eq_mult)
  then have "uint (push_bit 16 (push_bit 16 (ucast ts) div word_of_int rate :: u64))
      = take_bit 64 (uint ts * 2 ^ 16 div rate * 2 ^ 16)"
    by (simp add: unsigned_push_bit_eq uint_div r) (simp add: push_bit_eq_mult)
  moreover have "uint ts * 2 ^ 16 div rate * 2 ^ 16 < 2 ^ 64"
  proof -
    have "uint ts * 2 ^ 16 div rate \<le> uint ts * 2 ^ 16"
      using zdiv_mono2 [of "uint ts * 2 ^ 16" 1 rate] ts assms by simp
    then show ?thesis
      using ts by simp
  qed
  moreover have "0 \<le> uint ts * 2 ^ 16 div rate * 2 ^ 16"
    using ts assms by (simp add: pos_imp_zdiv_nonneg_iff)
  ultimately show ?thesis
    by (auto simp: rtp_to_ntp_def Let_def take_bit_eq_mod)
qed


lemma word_of_int_ucast:
  "0 \<le> x \<Longrightarrow> x < 2 ^ 32 \<Longrightarrow> word_of_int x = (ucast (word_of_int x :: u32) :: u64)"
  by (simp add: word_uint_eq_iff unsigned_ucast_eq uint_word_of_int take_bit_eq_mod)

lemma int_div_bounds:
  fixes y r :: int
  assumes "0 < r"
  shows "y div r * r \<le> y" "y < y div r * r + r"
  using assms div_mult_mod_eq [of y r] pos_mod_bound [of r y] pos_mod_sign [of r y] by linarith+

lemma ntp_parts_join: "ntp_parts (push_bit 32 (ucast a) OR ucast b) = (a, b)"
proof -
  have "ucast (drop_bit 32 (push_bit 32 (ucast a) OR ucast b :: u64)) = a"
    by (rule bit_word_eqI) (auto simp: bit_simps dest: bit_imp_le_length)
  moreover have "ucast ((push_bit 32 (ucast a) OR ucast b :: u64) AND mask 32) = b"
    by (rule bit_word_eqI) (auto simp: bit_simps dest: bit_imp_le_length)
  then have "ucast ((push_bit 32 (ucast a) OR ucast b :: u64) AND 0xFFFFFFFF) = b"
    by (simp add: mask_eq_exp_minus_1)
  ultimately show ?thesis
    by (simp add: ntp_parts_def)
qed

text \<open>
  The two halves of \<open>NTPNow\<close> are the Unix seconds moved to the NTP epoch (modulo the 32 bits
  of an NTP era) and the nanoseconds as a 32-bit binary fraction, for every wall-clock reading.
\<close>

lemma ntp_now_parts:
  assumes "0 \<le> ns" "ns < 1000000000"
  shows "ntp_parts (ntp_now s ns)
       = (word_of_int (s + ntp_epoch_offset), word_of_int (ns * 2 ^ 32 div 1000000000))"
proof -
  let ?sec = "word_of_int (s + ntp_epoch_offset) :: u32"
  let ?f = "ns * 2 ^ 32 div 1000000000"
  have "in_int64 (push_bit 32 ns)"
    using assms by (simp add: in_int64_def push_bit_eq_mult)
  then have f: "go_div (int64 (push_bit 32 ns)) 1000000000 = ?f"
    using assms by (simp add: push_bit_eq_mult)
  have "0 \<le> ?f" "?f < 2 ^ 32"
    using assms by simp_all
  then have frac: "word_of_int ?f = (ucast (word_of_int ?f :: u32) :: u64)"
    by (rule word_of_int_ucast)
  have "push_bit 32 (word_of_int x) = push_bit 32 (ucast (word_of_int x :: u32) :: u64)" for x
    by (rule bit_word_eqI) (auto simp: bit_simps)
  then have "ntp_now s ns = push_bit 32 (ucast ?sec) OR ucast (word_of_int ?f :: u32)"
    by (simp only: ntp_now_def Let_def f frac)
  then show ?thesis
    by (simp add: ntp_parts_join)
qed

lemma ntp_now_parts_witness:
  "ntp_parts (ntp_now 1700000000 500000000) = (word_of_int 3908988800, word_of_int 0x80000000)"
  using ntp_now_parts [of 500000000 1700000000] by (simp add: ntp_epoch_offset_def)

text \<open>
  One NTP second (2^32 units) advances the RTP clock by exactly the sample rate, whatever the
  NTP reading: the wrap-around of the 64-bit product and of the NTP era never shows in the 32 bits
  of the RTP time stamp.
\<close>

lemma ntp_second_advances_rtp:
  assumes "0 \<le> rate" "rate < 2 ^ 64"
  shows "ntp_to_rtp (ntp + 2 ^ 32) rate = ntp_to_rtp ntp rate + word_of_int rate"
proof -
  define a where "a = uint ntp"
  define k where "k = (a + 2 ^ 32) div 2 ^ 64"
  have a: "0 \<le> a" "a < 2 ^ 64"
    using uint_bounded [of ntp] by (simp_all add: a_def)
  have "uint (ntp + 2 ^ 32) = (a + 2 ^ 32) mod 2 ^ 64"
    by (simp add: a_def uint_word_ariths)
  also have "\<dots> = a + 2 ^ 32 - k * 2 ^ 64"
    by (simp add: k_def minus_div_mult_eq_mod [symmetric])
  finally have u: "uint (ntp + 2 ^ 32) div 2 ^ 16 = a div 2 ^ 16 + 2 ^ 16 - k * 2 ^ 48"
    by simp
  have "(uint (ntp + 2 ^ 32) div 2 ^ 16 * rate) div 2 ^ 16
      = ((a div 2 ^ 16 * rate) + (rate - k * rate * 2 ^ 32) * 2 ^ 16) div 2 ^ 16"
    unfolding u by (simp add: algebra_simps)
  also have "\<dots> = (a div 2 ^ 16 * rate) div 2 ^ 16 + (rate - k * rate * 2 ^ 32)"
    by simp
  finally have eq: "(uint (ntp + 2 ^ 32) div 2 ^ 16 * rate) div 2 ^ 16
      = (a div 2 ^ 16 * rate) div 2 ^ 16 + rate - k * rate * 2 ^ 32"
    by simp
  have "uint (ntp_to_rtp (ntp + 2 ^ 32) rate)
      = ((a div 2 ^ 16 * rate) div 2 ^ 16 + rate - k * rate * 2 ^ 32) mod 2 ^ 32"
    using uint_ntp_to_rtp [OF assms, of "ntp + 2 ^ 32"] by (simp only: eq)
  also have "\<dots> = ((a div 2 ^ 16 * rate) div 2 ^ 16 + rate) mod 2 ^ 32"
    using mod_mult_self1 [of "(a div 2 ^ 16 * rate) div 2 ^ 16 + rate" "- (k * rate)" "2 ^ 32"]
    by (simp add: algebra_simps)
  also have "\<dots> = uint (ntp_to_rtp ntp rate + word_of_int rate)"
    using uint_ntp_to_rtp [OF assms, of ntp]
    by (simp add: uint_word_ariths uint_word_of_int a_def mod_simps)
  finally show ?thesis
    by (simp add: word_uint_eq_iff)
qed

lemma ntp_second_advances_rtp_witness:
  "ntp_to_rtp (0xFFFFFFFF00000000 + 2 ^ 32) 44100 = ntp_to_rtp 0xFFFFFFFF00000000 44100 + word_of_int 44100"
  by (rule ntp_second_advances_rtp) simp_all

lemma rtp_ntp_close:
  assumes "0 < rate" "rate \<le> 65536" "rtp_to_ntp ts rate = Some n"
  shows "ntp_to_rtp n rate = ts \<or> ts \<noteq> 0 \<and> ntp_to_rtp n rate = ts - 1"
proof -
  have u: "uint n = (uint ts * 2 ^ 16 div rate) * 2 ^ 16"
    using rtp_to_ntp_Some [of rate ts] assms by auto
  define x where "x = uint ts * 2 ^ 16 div rate"
  define q where "q = x * rate div 2 ^ 16"
  have ts: "0 \<le> uint ts" "uint ts < 2 ^ 32"
    using uint_bounded [of ts] by simp_all
  have x: "x * rate \<le> uint ts * 2 ^ 16" "uint ts * 2 ^ 16 < x * rate + rate" "0 \<le> x"
    using assms ts int_div_bounds [of rate "uint ts * 2 ^ 16"]
    by (simp_all only: x_def pos_imp_zdiv_nonneg_iff) simp
  have q: "0 \<le> q" "q \<le> uint ts" "uint ts - 1 \<le> q"
    using x assms by (simp_all add: q_def pos_imp_zdiv_nonneg_iff zero_le_mult_iff)
  have "uint (ntp_to_rtp n rate) = q mod 2 ^ 32"
    using uint_ntp_to_rtp [of rate n] assms u by (simp add: q_def x_def)
  then have res: "uint (ntp_to_rtp n rate) = q"
    using q ts by simp
  consider "q = uint ts" | "q = uint ts - 1" "uint ts \<noteq> 0"
    using q by force
  then show ?thesis
  proof cases
    case 1
    then show ?thesis
      using res by (auto simp: word_uint_eq_iff)
  next
    case 2
    then have "ts \<noteq> 0"
      by auto
    moreover have "uint (ts - 1) = uint ts - 1"
    proof -
      have "1 \<le> uint ts"
        using 2 ts by linarith
      then show ?thesis
        using ts by (simp add: uint_word_ariths)
    qed
    ultimately show ?thesis
      using res 2 by (auto simp: word_uint_eq_iff)
  qed
qed

text \<open>
  An RTP time stamp survives the trip through the NTP domain and back to within one tick, at
  every sample rate up to 65536 Hz; the result never runs ahead.
\<close>

lemma rtp_ntp_roundtrip:
  assumes "0 < rate" "rate \<le> 65536"
  shows "\<exists>n. rtp_to_ntp ts rate = Some n
           \<and> (ntp_to_rtp n rate = ts \<or> ts \<noteq> 0 \<and> ntp_to_rtp n rate = ts - 1)"
proof -
  obtain n where "rtp_to_ntp ts rate = Some n"
    using rtp_to_ntp_Some [of rate ts] assms by auto
  with rtp_ntp_close [OF assms this] show ?thesis
    by blast
qed

lemma rtp_ntp_roundtrip_witness:
  "\<exists>n. rtp_to_ntp 0x12345678 44100 = Some n
     \<and> (ntp_to_rtp n 44100 = 0x12345678
        \<or> (0x12345678 :: u32) \<noteq> 0 \<and> ntp_to_rtp n 44100 = 0x12345678 - 1)"
  by (rule rtp_ntp_roundtrip) simp_all


text \<open>
  A time stamp that went through the 32-bit RTP clock no longer holds the wall clock.  Whatever
  the RTP time stamp and the rate (at least 2 Hz), the seconds \<open>RTPToNTP\<close> recovers lie before those
  \<open>NTPNow\<close> gives for any instant from 1970 until the end of the NTP era in 2036; at 44.1 kHz they
  never exceed 97391.
\<close>

lemma rtp_to_ntp_not_wall_clock:
  assumes "2 \<le> rate" "rate < 2 ^ 64" "rtp_to_ntp ts rate = Some n"
    and "0 \<le> s" "s + ntp_epoch_offset < 2 ^ 32" "0 \<le> ns" "ns < 1000000000"
  shows "fst (ntp_parts n) < fst (ntp_parts (ntp_now s ns))
       \<and> (rate = 44100 \<longrightarrow> uint (fst (ntp_parts n)) \<le> 97391)"
proof -
  define x where "x = uint ts * 2 ^ 16 div rate"
  have ts: "0 \<le> uint ts" "uint ts < 2 ^ 32"
    using uint_bounded [of ts] by simp_all
  have n: "uint n = x * 2 ^ 16"
    using rtp_to_ntp_Some [of rate ts] assms(1-3) by (auto simp: x_def)
  have xr: "x * rate \<le> uint ts * 2 ^ 16" and x0: "0 \<le> x"
    using int_div_bounds [of rate "uint ts * 2 ^ 16"] assms(1) ts
    by (simp_all add: x_def pos_imp_zdiv_nonneg_iff)
  have "x * 2 \<le> x * rate"
    using assms(1) x0 by (intro mult_left_mono) simp_all
  with xr have x: "x * 2 \<le> uint ts * 2 ^ 16"
    by simp
  have "uint (fst (ntp_parts n)) = uint n div 2 ^ 32 mod 2 ^ 32"
    by (simp add: ntp_parts_def unsigned_ucast_eq unsigned_drop_bit_eq bintr_uint)
      (simp add: drop_bit_eq_div take_bit_eq_mod)
  then have sec: "uint (fst (ntp_parts n)) = x div 2 ^ 16"
    using n x x0 ts by simp
  have "uint (fst (ntp_parts (ntp_now s ns))) = s + ntp_epoch_offset"
    by (simp only: ntp_now_parts [OF assms(6,7)] fst_conv uint_word_of_int)
      (use assms(4,5) in \<open>simp add: ntp_epoch_offset_def\<close>)
  then have "fst (ntp_parts n) < fst (ntp_parts (ntp_now s ns))"
    using sec x ts assms(4) by (simp add: word_less_def ntp_epoch_offset_def)
  moreover have "rate = 44100 \<longrightarrow> uint (fst (ntp_parts n)) \<le> 97391"
    using sec ts xr int_div_bounds(1) [of "2 ^ 16" x] by auto
  ultimately show ?thesis
    by blast
qed

lemma rtp_to_ntp_not_wall_clock_witness:
  "fst (ntp_parts 0x17C6F8C730000) < fst (ntp_parts (ntp_now 1700000000 0))"
proof -
  have "rtp_to_ntp 0xFFFFFFFF 44100 = Some 0x17C6F8C730000"
    by (simp add: rtp_to_ntp_def)
  then show ?thesis
    using rtp_to_ntp_not_wall_clock
      [where rate = 44100 and ts = "0xFFFFFFFF" and n = "0x17C6F8C730000" and s = 1700000000 and ns = 0]
    by (simp add: ntp_epoch_offset_def)
qed

subsection \<open>Datagrams\<close>

definition audio_packet :: "u16 \<Rightarrow> u32 \<Rightarrow> u32 \<Rightarrow> bool \<Rightarrow> byte list \<Rightarrow> byte list" where
  "audio_packet seqno timestamp ssrc first payload =
     [rtp_proto_version, if first then rtp_type_audio OR rtp_marker_bit else rtp_type_audio]
     @ put_be16 seqno @ put_be32 timestamp @ put_be32 ssrc @ payload"

definition sync_packet :: "bool \<Rightarrow> u32 \<Rightarrow> u32 \<Rightarrow> u32 \<Rightarrow> u32 \<Rightarrow> byte list" where
  "sync_packet first now_without_latency last_sync_sec last_sync_frac now =
     [if first then rtp_proto_extended else rtp_proto_version, rtp_type_sync]
     @ put_be16 sync_seq_no @ put_be32 now_without_latency @ put_be32 last_sync_sec
     @ put_be32 last_sync_frac @ put_be32 now"

definition timing_reply :: "byte \<Rightarrow> u32 \<Rightarrow> u32 \<Rightarrow> u32 \<Rightarrow> u32 \<Rightarrow> byte list" where
  "timing_reply proto reftime_sec reftime_frac now_sec now_frac =
     [proto, rtp_type_timing OR rtp_marker_bit]
     @ put_be16 timing_seq_no @ put_be32 0 @ put_be32 reftime_sec @ put_be32 reftime_frac
     @ put_be32 now_sec @ put_be32 now_frac @ put_be32 now_sec @ put_be32 now_frac"

record timing_request =
  tr_proto :: byte
  tr_send_sec :: u32
  tr_send_frac :: u32

definition parse_timing_request :: "byte list \<Rightarrow> timing_request option" where
  "parse_timing_request data =
     (if length data < 32 then None
      else Some \<lparr>tr_proto = data ! 0, tr_send_sec = get_be32 data 24, tr_send_frac = get_be32 data 28\<rparr>)"

lemma length_audio_packet [wire, simp]: "length (audio_packet q t s f p) = 12 + length p"
  by (simp add: audio_packet_def)

lemma length_sync_packet [wire, simp]: "length (sync_packet f a b c d) = 20"
  by (simp add: sync_packet_def)

lemma length_timing_reply [wire, simp]: "length (timing_reply p a b c d) = 32"
  by (simp add: timing_reply_def)

lemma drop_audio_packet [wire, simp]: "drop 12 (audio_packet q t s f p) = p"
  by (simp add: audio_packet_def put_be16_def put_be32_def)

lemma audio_packet_seq [wire, simp]: "get_be16 (audio_packet q t s f p) 2 = q"
  unfolding audio_packet_def by (subst get_put_be16) simp_all

lemma audio_packet_timestamp [wire, simp]: "get_be32 (audio_packet q t s f p) 4 = t"
  using get_put_be32 [of "[rtp_proto_version, if f then rtp_type_audio OR rtp_marker_bit else rtp_type_audio]
      @ put_be16 q" 4 t "put_be32 s @ p"]
  by (simp add: audio_packet_def)

lemma audio_packet_ssrc [wire, simp]: "get_be32 (audio_packet q t s f p) 8 = s"
  using get_put_be32 [of "[rtp_proto_version, if f then rtp_type_audio OR rtp_marker_bit else rtp_type_audio]
      @ put_be16 q @ put_be32 t" 8 s p]
  by (simp add: audio_packet_def)

lemma audio_packet_type [wire, simp]:
  "audio_packet q t s f p ! 0 = rtp_proto_version"
  "audio_packet q t s f p ! 1 = (if f then 0xE0 else 0x60)"
  by (simp_all add: audio_packet_def rtp_type_audio_def rtp_marker_bit_def)

lemma sync_packet_fields [wire]:
  "get_be32 (sync_packet f a b c d) 4 = a" "get_be32 (sync_packet f a b c d) 8 = b"
  "get_be32 (sync_packet f a b c d) 12 = c" "get_be32 (sync_packet f a b c d) 16 = d"
  by (simp_all add: sync_packet_def get_be32_def put_be32_def put_be16_def be32_join)

lemma timing_reply_fields [wire]:
  "get_be32 (timing_reply p a b c d) 8 = a" "get_be32 (timing_reply p a b c d) 12 = b"
  "get_be32 (timing_reply p a b c d) 16 = c" "get_be32 (timing_reply p a b c d) 20 = d"
  "get_be32 (timing_reply p a b c d) 24 = c" "get_be32 (timing_reply p a b c d) 28 = d"
  by (simp_all add: timing_reply_def get_be32_def put_be32_def put_be16_def be32_join)

end
