(* ===== verification/Volume.thy ===== *)
theory Volume
  imports Go_Strings Complex_Main
begin

text \<open>
  The volume mapping of internal/raop/protocol.go (\<open>PercentToDBFS\<close>, \<open>DBFSToPercent\<close>) and the
  rendering of a volume in a SET_PARAMETER body.  A \<open>float64\<close> is the rational number it stands for;
  every arithmetic operation is followed by \<open>fl\<close>, the rounding of IEEE 754 binary64 to nearest,
  ties to even, for numbers in its normal range.  A compiler that fuses the multiplication and the
  subtraction of \<open>PercentToDBFS\<close> (as Go may on arm64) skips one rounding: that variant is
  \<open>percent_to_dbfs_fma\<close>.
\<close>

subsection \<open>Rounding to 53 bits\<close>

function nbits :: "int \<Rightarrow> int" where
  "nbits n = (if n \<le> 0 then 0 else 1 + nbits (n div 2))"
  by pat_completeness auto
termination
  by (relation "measure nat") auto

declare nbits.simps [simp del]

definition pow2 :: "int \<Rightarrow> rat" where
  "pow2 e = (if 0 \<le> e then 2 ^ nat e else 1 / 2 ^ nat (- e))"

text \<open>The exponent of the unit in the last place of a non-zero number.\<close>

definition ulp_exp :: "rat \<Rightarrow> int" where
  "ulp_exp x =
     (let (n, d) = quotient_of \<bar>x\<bar>;
          e = nbits n - nbits d - 53
      in if \<bar>x\<bar> / pow2 e < 2 ^ 53 then e else e + 1)"

definition round_even :: "rat \<Rightarrow> int" where
  "round_even x =
     (let m = \<lfloor>x\<rfloor>; r = x - of_int m
      in if r < 1 / 2 then m else if r > 1 / 2 then m + 1 else if even m then m else m + 1)"

definition fl :: "rat \<Rightarrow> rat" where
  "fl x = (if x = 0 then 0 else of_int (round_even (x / pow2 (ulp_exp x))) * pow2 (ulp_exp x))"

subsection \<open>The mapping\<close>

definition percent_to_dbfs :: "int \<Rightarrow> rat" where
  "percent_to_dbfs percent =
     (if percent \<le> 0 then - 144
      else if percent \<ge> 100 then 0
      else fl (- 30 + fl (fl (of_int percent / 100) * 30)))"

definition percent_to_dbfs_fma :: "int \<Rightarrow> rat" where
  "percent_to_dbfs_fma percent =
     (if percent \<le> 0 then - 144
      else if percent \<ge> 100 then 0
      else fl (- 30 + fl (of_int percent / 100) * 30))"

text \<open>The conversion \<open>int(f)\<close> of Go truncates towards zero.\<close>

definition trunc :: "rat \<Rightarrow> int" where
  "trunc x = (if 0 \<le> x then \<lfloor>x\<rfloor> else - \<lfloor>- x\<rfloor>)"

definition dbfs_to_percent :: "rat \<Rightarrow> int" where
  "dbfs_to_percent dbfs =
     (if dbfs \<le> - 30 then 0
      else if dbfs \<ge> 0 then 100
      else trunc (fl (fl (fl (dbfs + 30) / 30) * 100)))"

text \<open>
  \<open>strconv.FormatFloat(f, 'f', 6, 64)\<close>: the exact value rounded to six decimals, ties to even.  (A
  negative value that rounds to zero prints with its sign; no volume does.)
\<close>

definition pad6 :: "string \<Rightarrow> string" where
  "pad6 s = replicate (6 - length s) (CHR ''0'') @ s"

definition format_float6 :: "rat \<Rightarrow> string" where
  "format_float6 x =
     (let u = nat \<bar>round_even (x * 1000000)\<bar>
      in (if x < 0 then ''-'' else []) @ nat_str (u div 1000000) @ ''.'' @ pad6 (nat_str (u mod 1000000)))"

subsection \<open>The rounding error\<close>

lemma pow2_powi: "pow2 e = 2 powi e"
  by (auto simp: pow2_def power_int_def inverse_eq_divide power_one_over)

lemma pow2_pos [simp]: "0 < pow2 e"
  by (simp add: pow2_def)

lemma pow2_add: "pow2 (a + b) = pow2 a * pow2 b"
  by (simp add: pow2_powi power_int_add)

lemma pow2_one [simp]: "pow2 1 = 2"
  by (simp add: pow2_def)

lemma nbits_bounds:
  "0 < n \<Longrightarrow> 0 \<le> nbits n \<and> pow2 (nbits n - 1) \<le> of_int n \<and> of_int n < pow2 (nbits n)"
proof (induction n rule: nbits.induct)
  case (1 n)
  show ?case
  proof (cases "n = 1")
    case True
    have "nbits 1 = 1"
      by (simp add: nbits.simps)
    with True show ?thesis
      by (simp add: pow2_def)
  next
    case False
    with 1 have IH: "0 \<le> nbits (n div 2)" "pow2 (nbits (n div 2) - 1) \<le> of_int (n div 2)"
      "of_int (n div 2) < pow2 (nbits (n div 2))"
      by auto
    have n: "nbits n = 1 + nbits (n div 2)"
      using 1(2) by (subst nbits.simps) simp
    have "pow2 (nbits n - 1) = pow2 (nbits (n div 2) - 1) * 2"
      using pow2_add [of "nbits (n div 2) - 1" 1] by (simp add: n)
    moreover have "pow2 (nbits n) = pow2 (nbits (n div 2)) * 2"
      using pow2_add [of "nbits (n div 2)" 1] by (simp add: n add.commute)
    moreover have "(of_int n :: rat) \<ge> of_int (n div 2) * 2"
      using of_int_le_iff [of "n div 2 * 2" n, where 'a = rat] by simp
    moreover have "(of_int n :: rat) < pow2 (nbits (n div 2)) * 2"
    proof -
      have "pow2 (nbits (n div 2)) = of_int (2 ^ nat (nbits (n div 2)))"
        using IH(1) by (simp add: pow2_def)
      then have "n div 2 < 2 ^ nat (nbits (n div 2))"
        using IH(3) by (metis of_int_less_iff)
      then have "n < 2 ^ nat (nbits (n div 2)) * 2"
        by linarith
      then have "(of_int n :: rat) < of_int (2 ^ nat (nbits (n div 2)) * 2)"
        by (simp only: of_int_less_iff)
      then show ?thesis
        using IH(1) by (simp add: pow2_def)
    qed
    ultimately show ?thesis
      using IH(1,2) n by simp
  qed
qed

lemma ulp_exp_lower:
  assumes "x \<noteq> 0"
  shows "pow2 (ulp_exp x) * 2 ^ 52 \<le> \<bar>x\<bar>"
proof -
  obtain n d where q: "quotient_of \<bar>x\<bar> = (n, d)"
    by fastforce
  have d: "0 < d" and x: "\<bar>x\<bar> = of_int n / of_int d"
    using quotient_of_denom_pos [OF q] quotient_of_div [OF q] by auto
  have n: "0 < n"
    using x assms d by (metis of_int_0_less_iff zero_less_abs_iff zero_less_divide_iff not_less_iff_gr_or_eq)
  define e where "e = nbits n - nbits d - 53"
  have nd: "pow2 (nbits n - 1) \<le> of_int n" "of_int d < pow2 (nbits d)"
    using nbits_bounds n d by auto
  have "pow2 (nbits n - 1) = pow2 (e + 52) * pow2 (nbits d)"
    by (simp add: pow2_add [symmetric] e_def)
  also have "pow2 (e + 52) = pow2 e * 2 ^ 52"
    by (simp add: pow2_add) (simp add: pow2_def)
  finally have "pow2 e * 2 ^ 52 * pow2 (nbits d) \<le> of_int n"
    using nd(1) by simp
  moreover have "pow2 e * 2 ^ 52 * of_int d \<le> pow2 e * 2 ^ 52 * pow2 (nbits d)"
    using nd(2) by (intro mult_left_mono) (auto simp: less_imp_le)
  ultimately have "pow2 e * 2 ^ 52 * of_int d \<le> of_int n"
    by (rule order_trans [rotated])
  then have lower: "pow2 e * 2 ^ 52 \<le> \<bar>x\<bar>"
    using d by (simp add: x pos_le_divide_eq)
  show ?thesis
  proof (cases "\<bar>x\<bar> / pow2 e < 2 ^ 53")
    case True
    then show ?thesis
      using lower by (simp add: ulp_exp_def q e_def [symmetric] Let_def)
  next
    case False
    then have "2 ^ 53 * pow2 e \<le> \<bar>x\<bar>"
      by (simp add: pos_divide_less_eq not_less)
    with False show ?thesis
      by (simp add: ulp_exp_def q e_def [symmetric] Let_def pow2_add)
  qed
qed

lemma round_even_error: "\<bar>of_int (round_even x) - x\<bar> \<le> 1 / 2"
proof -
  have "0 \<le> x - of_int \<lfloor>x\<rfloor>" "x - of_int \<lfloor>x\<rfloor> < 1"
    by (simp_all, linarith)
  then show ?thesis
    by (auto simp: round_even_def Let_def abs_le_iff not_less)
qed

text \<open>Half a unit in the last place: the relative error of an operation is at most 2^-53.\<close>

lemma fl_error: "\<bar>fl x - x\<bar> \<le> \<bar>x\<bar> / 2 ^ 53"
proof (cases "x = 0")
  case True
  then show ?thesis
    by (simp add: fl_def)
next
  case False
  define u where "u = pow2 (ulp_exp x)"
  have u: "0 < u" "u * 2 ^ 52 \<le> \<bar>x\<bar>"
    using ulp_exp_lower [OF False] by (simp_all add: u_def)
  have "fl x - x = (of_int (round_even (x / u)) - x / u) * u"
    using False u(1) by (simp add: fl_def u_def [symmetric] left_diff_distrib)
  then have "\<bar>fl x - x\<bar> = \<bar>of_int (round_even (x / u)) - x / u\<bar> * u"
    using u by (simp add: abs_mult)
  also have "\<dots> \<le> 1 / 2 * u"
    using round_even_error u by (intro mult_right_mono) auto
  finally show ?thesis
    using u by simp
qed

lemma round_even_near:
  assumes "\<bar>x - of_int k\<bar> < 1 / 2"
  shows "round_even x = k"
proof -
  have "\<lfloor>x\<rfloor> = k \<or> \<lfloor>x\<rfloor> = k - 1"
    using assms by linarith
  then show ?thesis
    using assms by (auto simp: round_even_def Let_def abs_less_iff)
qed


lemma fl_bounds:
  assumes "\<bar>x - y\<bar> \<le> d" "\<bar>y\<bar> \<le> m" "d \<le> 1"
  shows "\<bar>fl x - y\<bar> \<le> d + (m + 1) / 2 ^ 53"
proof -
  have "\<bar>x\<bar> \<le> m + 1"
    using assms by linarith
  then have "\<bar>x\<bar> / 2 ^ 53 \<le> (m + 1) / 2 ^ 53"
    by (rule divide_right_mono) simp
  then show ?thesis
    using fl_error [of x] assms(1) by linarith
qed

lemma abs_scale:
  fixes x y d k :: rat
  assumes "\<bar>x - y\<bar> \<le> d" "0 \<le> k"
  shows "\<bar>x * k - y * k\<bar> \<le> d * k"
proof -
  have "\<bar>x * k - y * k\<bar> = \<bar>x - y\<bar> * k"
    using assms(2) by (simp add: left_diff_distrib [symmetric] abs_mult)
  then show ?thesis
    using assms by (simp add: mult_right_mono)
qed

text \<open>Both ways of computing the mapping stay within 2^-43 of the exact \<open>-30 + 0.3 p\<close>.\<close>

lemma percent_to_dbfs_near:
  assumes "0 < p" "p < 100"
  shows "\<bar>percent_to_dbfs p - (- 30 + of_int p * 3 / 10)\<bar> \<le> 1 / 2 ^ 43"
    and "\<bar>percent_to_dbfs_fma p - (- 30 + of_int p * 3 / 10)\<bar> \<le> 1 / 2 ^ 43"
proof -
  define q where "q = (of_int p / 100 :: rat)"
  have p: "(1 :: rat) \<le> of_int p" "(of_int p :: rat) \<le> 99"
    using of_int_le_iff [of 1 p, where 'a = rat] of_int_le_iff [of p 99, where 'a = rat] assms
    by simp_all
  then have q: "0 \<le> q" "q \<le> 1"
    by (simp_all add: q_def)
  have a: "\<bar>fl q - q\<bar> \<le> 0 + (1 + 1) / 2 ^ 53"
    by (rule fl_bounds) (use q(1,2) in auto)
  from abs_scale [OF a, of 30] have a30: "\<bar>fl q * 30 - q * 30\<bar> \<le> 60 / 2 ^ 53"
    by simp
  then have b: "\<bar>fl (fl q * 30) - q * 30\<bar> \<le> 60 / 2 ^ 53 + (30 + 1) / 2 ^ 53"
    by (rule fl_bounds) (use q(1,2) in auto)
  have c: "\<bar>fl (- 30 + fl (fl q * 30)) - (- 30 + q * 30)\<bar> \<le> 91 / 2 ^ 53 + (30 + 1) / 2 ^ 53"
    by (rule fl_bounds) (use b q(1,2) in \<open>auto simp: abs_le_iff\<close>)
  have d: "\<bar>fl (- 30 + fl q * 30) - (- 30 + q * 30)\<bar> \<le> 60 / 2 ^ 53 + (30 + 1) / 2 ^ 53"
    by (rule fl_bounds) (use a30 q(1,2) in \<open>auto simp: abs_le_iff\<close>)
  have eq: "q * 30 = of_int p * 3 / 10"
    by (simp add: q_def)
  from c have c': "\<bar>fl (- 30 + fl (fl q * 30)) - (- 30 + q * 30)\<bar> \<le> 1 / 2 ^ 43"
    by (rule order_trans) simp
  from d have d': "\<bar>fl (- 30 + fl q * 30) - (- 30 + q * 30)\<bar> \<le> 1 / 2 ^ 43"
    by (rule order_trans) simp
  show "\<bar>percent_to_dbfs p - (- 30 + of_int p * 3 / 10)\<bar> \<le> 1 / 2 ^ 43"
    and "\<bar>percent_to_dbfs_fma p - (- 30 + of_int p * 3 / 10)\<bar> \<le> 1 / 2 ^ 43"
    using c' [unfolded eq] d' [unfolded eq] assms
    by (simp_all add: percent_to_dbfs_def percent_to_dbfs_fma_def q_def)
qed

lemma v_range:
  fixes v :: rat
  assumes "0 < p" "p < 100" "\<bar>v - (- 30 + of_int p * 3 / 10)\<bar> \<le> 1 / 2 ^ 43"
  shows "- 30 < v \<and> v < 0"
proof -
  have "(1 :: rat) \<le> of_int p" "(of_int p :: rat) \<le> 99"
    using of_int_le_iff [of 1 p, where 'a = rat] of_int_le_iff [of p 99, where 'a = rat] assms
    by simp_all
  moreover have "(1 :: rat) / 2 ^ 43 \<le> 1 / 1000"
    by simp
  ultimately show ?thesis
    using abs_le_D1 [OF assms(3)] abs_le_D2 [OF assms(3)] by linarith
qed

lemma dbfs_to_percent_near:
  assumes "0 < p" "p < 100" "\<bar>v - (- 30 + of_int p * 3 / 10)\<bar> \<le> 1 / 2 ^ 43"
  shows "dbfs_to_percent v \<in> {p - 1, p}"
proof -
  define q where "q = (of_int p / 100 :: rat)"
  have p: "(1 :: rat) \<le> of_int p" "(of_int p :: rat) \<le> 99"
    using of_int_le_iff [of 1 p, where 'a = rat] of_int_le_iff [of p 99, where 'a = rat] assms
    by simp_all
  then have q: "0 \<le> q" "q \<le> 1" "q * 30 = of_int p * 3 / 10" "q * 100 = of_int p"
    by (simp_all add: q_def)
  have v: "\<bar>v + 30 - q * 30\<bar> \<le> 1 / 2 ^ 43"
    using assms(3) q(3) by linarith
  have a: "\<bar>fl (v + 30) - q * 30\<bar> \<le> 1 / 2 ^ 43 + (30 + 1) / 2 ^ 53"
    by (rule fl_bounds) (use v q(1,2) in \<open>auto simp: abs_le_iff\<close>)
  have "\<bar>fl (v + 30) / 30 - q\<bar> = \<bar>fl (v + 30) - q * 30\<bar> / 30"
    by (simp add: diff_divide_distrib [symmetric] field_simps)
  with a have "\<bar>fl (v + 30) / 30 - q\<bar> \<le> 1 / 2 ^ 43"
    by simp
  then have b: "\<bar>fl (fl (v + 30) / 30) - q\<bar> \<le> 1 / 2 ^ 43 + (1 + 1) / 2 ^ 53"
    by (rule fl_bounds) (use q(1,2) in auto)
  from abs_scale [OF b, of 100]
  have "\<bar>fl (fl (v + 30) / 30) * 100 - q * 100\<bar> \<le> 200 / 2 ^ 43"
    by simp
  then have "\<bar>fl (fl (fl (v + 30) / 30) * 100) - q * 100\<bar> \<le> 200 / 2 ^ 43 + (100 + 1) / 2 ^ 53"
    by (rule fl_bounds) (use q(1,2) in auto)
  then have c: "\<bar>fl (fl (fl (v + 30) / 30) * 100) - of_int p\<bar> \<le> 1 / 2"
    using q(4) by simp
  have "- 30 < v" "v < 0"
    using v_range [OF assms] by simp_all
  moreover have "0 \<le> fl (fl (fl (v + 30) / 30) * 100)"
    using c p by linarith
  moreover have "\<lfloor>fl (fl (fl (v + 30) / 30) * 100)\<rfloor> \<in> {p - 1, p}"
    using c by (auto, linarith)
  ultimately show ?thesis
    by (auto simp: dbfs_to_percent_def trunc_def)
qed

text \<open>
  For every volume strictly between 0 and 100 the text sent in SET_PARAMETER is the exact
  decimal value \<open>-30 + 0.3 p\<close> dB: the rounding of the double arithmetic, fused or not, never reaches
  the six printed decimals.
\<close>

lemma volume_text_exact:
  assumes "0 < p" "p < 100"
  shows "format_float6 (percent_to_dbfs p)
       = ''-'' @ nat_str (nat (30000000 - 300000 * p) div 1000000) @ ''.''
         @ pad6 (nat_str (nat (30000000 - 300000 * p) mod 1000000))
       \<and> format_float6 (percent_to_dbfs_fma p) = format_float6 (percent_to_dbfs p)"
proof -
  have p: "(1 :: rat) \<le> of_int p" "(of_int p :: rat) \<le> 99"
    using of_int_le_iff [of 1 p, where 'a = rat] of_int_le_iff [of p 99, where 'a = rat] assms
    by simp_all
  have dec: "format_float6 v = ''-'' @ nat_str (nat (30000000 - 300000 * p) div 1000000) @ ''.''
      @ pad6 (nat_str (nat (30000000 - 300000 * p) mod 1000000))"
    if v: "\<bar>v - (- 30 + of_int p * 3 / 10)\<bar> \<le> 1 / 2 ^ 43" for v
  proof -
    have "\<bar>v * 1000000 - of_int (300000 * p - 30000000)\<bar> < 1 / 2"
      using abs_scale [OF v, of 1000000] by (simp add: algebra_simps)
    then have "round_even (v * 1000000) = 300000 * p - 30000000"
      by (rule round_even_near)
    moreover have "v < 0"
      using v_range [OF assms v] by simp
    ultimately show ?thesis
      using assms by (simp add: format_float6_def Let_def)
  qed
  show ?thesis
    using dec [OF percent_to_dbfs_near(1) [OF assms]] dec [OF percent_to_dbfs_near(2) [OF assms]]
    by simp
qed

lemma volume_text_exact_witness:
  "format_float6 (percent_to_dbfs 75) = ''-7.500000''
   \<and> format_float6 (percent_to_dbfs_fma 75) = ''-7.500000''"
  using volume_text_exact [of 75]
  by (simp add: nat_str.simps [of "_ :: nat"] pad6_def digit_char_def)

text \<open>
  Converting a volume to decibels and back loses at most one percent, and nothing at the ends of
  the scale, whether or not the compiler fuses the multiplication; the two functions are not exact
  inverses, since 3 comes back as 2.
\<close>

lemma volume_roundtrip:
  assumes "0 \<le> p" "p \<le> 100"
  shows "dbfs_to_percent (percent_to_dbfs p) \<in> {p - 1, p}
       \<and> dbfs_to_percent (percent_to_dbfs_fma p) \<in> {p - 1, p}
       \<and> (p = 0 \<or> p = 100 \<longrightarrow> dbfs_to_percent (percent_to_dbfs p) = p)"
proof -
  consider "p = 0" | "p = 100" | "0 < p" "p < 100"
    using assms by linarith
  then show ?thesis
  proof cases
    case 3
    then show ?thesis
      using dbfs_to_percent_near [OF 3] percent_to_dbfs_near [OF 3] by auto
  qed (simp_all add: percent_to_dbfs_def percent_to_dbfs_fma_def dbfs_to_percent_def)
qed

lemma volume_roundtrip_witness: "dbfs_to_percent (percent_to_dbfs 3) \<in> {3 - 1, 3}"
  using volume_roundtrip [of 3] by simp

lemma volume_roundtrip_inexact: "dbfs_to_percent (percent_to_dbfs 3) = 2"
  by code_simp

end
