(* ===== verification/Rtsp.thy ===== *)
theory Rtsp
  imports Raop_Protocol
begin

text \<open>
  The RTSP client connection of internal/raop/rtsp.go: identifiers, the text of a request, and the
  reader of replies with its header loop, its body and its search for the matching CSeq.

  The network is an input: the bytes the peer sends before the connection ends or times out are one
  string, and a read past its end is the read error of the source.  \<open>SetReadDeadline\<close> fails only on a
  closed connection, where the read fails too, so it has no branch of its own.  A Go map that is
  printed by ranging over it is the list of its pairs in the order the run-time picks.
\<close>

type_synonym headers = "string \<rightharpoonup> string"

record response =
  rs_proto :: string
  rs_code :: int
  rs_message :: string
  rs_headers :: headers
  rs_body :: string

definition get_or_empty :: "headers \<Rightarrow> string \<Rightarrow> string" where
  "get_or_empty m k = (case m k of None \<Rightarrow> [] | Some v \<Rightarrow> v)"

text \<open>\<open>Response.Header\<close>; a nil receiver is \<open>None\<close>.\<close>

definition header :: "response option \<Rightarrow> string \<Rightarrow> string" where
  "header r name = (case r of None \<Rightarrow> [] | Some r \<Rightarrow> get_or_empty (rs_headers r) (to_lower name))"

record rtsp_conn =
  cseq :: int
  session_id :: u32
  dacp_id :: string
  active_remote :: u32
  local_ip :: string
  remote_ip :: string
  pending_request :: string
  unread :: string

datatype rtsp_error =
    Rtsp_Rand
  | Rtsp_Write string
  | Rtsp_Read_Status
  | Rtsp_Malformed_Status string
  | Rtsp_Malformed_Code string
  | Rtsp_Read_Header
  | Rtsp_Read_Body
  | Rtsp_Panic_Makeslice

subsection \<open>Identifiers\<close>

text \<open>\<open>rand.Read\<close> is an input: \<open>None\<close> when it fails, else the bytes it filled in.\<close>

definition random_uint32 :: "byte list option \<Rightarrow> rtsp_error + u32" where
  "random_uint32 rnd = (case rnd of None \<Rightarrow> Inl Rtsp_Rand | Some buf \<Rightarrow> Inr (get_be32 buf 0))"

definition hex_digit :: "byte \<Rightarrow> char" where
  "hex_digit b = ''0123456789abcdef'' ! unat b"

definition random_hex :: "byte list option \<Rightarrow> rtsp_error + string" where
  "random_hex rnd =
     (case rnd of
        None \<Rightarrow> Inl Rtsp_Rand
      | Some buf \<Rightarrow> Inr (concat (map (\<lambda>b. [hex_digit (drop_bit 4 b), hex_digit (b AND 0x0F)]) buf)))"

definition new_rtsp_conn ::
  "byte list option \<Rightarrow> byte list option \<Rightarrow> byte list option \<Rightarrow> string \<Rightarrow> string \<Rightarrow> rtsp_error + rtsp_conn" where
  "new_rtsp_conn rnd_session rnd_active rnd_dacp local remote =
     (case random_uint32 rnd_session of
        Inl e \<Rightarrow> Inl e
      | Inr sid \<Rightarrow>
          (case random_uint32 rnd_active of
             Inl e \<Rightarrow> Inl e
           | Inr act \<Rightarrow>
               (case random_hex rnd_dacp of
                  Inl e \<Rightarrow> Inl e
                | Inr dacp \<Rightarrow>
                    Inr \<lparr>cseq = 0, session_id = sid, dacp_id = to_upper dacp, active_remote = act,
                         local_ip = local, remote_ip = remote, pending_request = [], unread = []\<rparr>)))"

definition conn_uri :: "rtsp_conn \<Rightarrow> string" where
  "conn_uri c = ''rtsp://'' @ local_ip c @ ''/'' @ itoa (uint (session_id c))"

subsection \<open>The request text\<close>

definition header_line :: "string \<Rightarrow> string \<Rightarrow> string" where
  "header_line k v = k @ '': '' @ v @ crlf"

definition request_text ::
  "rtsp_conn \<Rightarrow> int \<Rightarrow> string \<Rightarrow> string \<Rightarrow> string \<Rightarrow> (string \<times> string) list \<Rightarrow> string option \<Rightarrow> string" where
  "request_text c cs method uri content_type hs body =
     method @ '' '' @ (if uri = [] then conn_uri c else uri) @ '' RTSP/1.0'' @ crlf
     @ header_line ''CSeq'' (itoa cs)
     @ header_line ''DACP-ID'' (dacp_id c)
     @ header_line ''Active-Remote'' (itoa (uint (active_remote c)))
     @ header_line ''Client-Instance'' (dacp_id c)
     @ header_line ''User-Agent'' user_agent
     @ (if content_type \<noteq> [] then header_line ''Content-Type'' content_type else [])
     @ concat (map (\<lambda>(k, v). header_line k v) hs)
     @ (case body of None \<Rightarrow> [] | Some b \<Rightarrow> header_line ''Content-Length'' (itoa (int (length b))))
     @ crlf
     @ (case body of None \<Rightarrow> [] | Some b \<Rightarrow> b)"

subsection \<open>Reading a reply\<close>

text \<open>\<open>ReadString('\\n')\<close> followed by \<open>TrimRight(line, "\\r\\n")\<close>.\<close>

definition lf :: char where
  "lf = CHR 0x0A"

definition read_line :: "string \<Rightarrow> (string \<times> string) option" where
  "read_line s =
     (case cut lf s of (l, rest, f) \<Rightarrow> if f then Some (trim_right (l @ [lf]) crlf, rest) else None)"

lemma read_line_length: "read_line s = Some (l, rest) \<Longrightarrow> length rest < length s"
  by (auto simp: read_line_def split: prod.splits if_splits dest!: cut_found)

text \<open>The header loop: up to the empty line; a line without a colon is skipped.\<close>

function read_headers :: "string \<Rightarrow> headers \<Rightarrow> (headers \<times> string) option" where
  "read_headers s m =
     (case read_line s of
        None \<Rightarrow> None
      | Some (line, rest) \<Rightarrow>
          if line = [] then Some (m, rest)
          else (case cut (CHR '':'') line of (key, val, found) \<Rightarrow>
                  if \<not> found then read_headers rest m
                  else read_headers rest (m(to_lower (trim_space key) \<mapsto> trim_space val))))"
  by pat_completeness auto
termination
  by (relation "measure (\<lambda>(s, m). length s)") (auto dest: read_line_length)

declare read_headers.simps [simp del]

lemma read_headers_length: "read_headers s m = Some (m', rest) \<Longrightarrow> length rest < length s"
proof (induction s m rule: read_headers.induct)
  case (1 s m)
  from "1.prems" obtain line rest' where l: "read_line s = Some (line, rest')"
    by (subst (asm) read_headers.simps) (auto split: option.splits)
  note len = read_line_length [OF l]
  show ?case
  proof (cases "line = []")
    case True
    with "1.prems" l len show ?thesis
      by (subst (asm) read_headers.simps) auto
  next
    case False
    obtain k v f where c: "cut (CHR '':'') line = (k, v, f)"
      by (metis prod_cases3)
    have "length rest < length rest'"
    proof (cases f)
      case True
      with "1.prems" l False c show ?thesis
        by (subst (asm) read_headers.simps) (auto intro: "1.IH"(2) [OF l refl False])
    next
      case f: False
      with "1.prems" l False c show ?thesis
        by (subst (asm) read_headers.simps) (auto intro: "1.IH"(1) [OF l refl False])
    qed
    with len show ?thesis
      by simp
  qed
qed

text \<open>
  \<open>make([]byte, n)\<close> panics above the address space of a 64-bit build; \<open>io.ReadFull\<close> fails when fewer
  than \<open>n\<close> bytes are left.
\<close>

definition max_alloc :: int where
  "max_alloc = 2 ^ 48"

definition read_body :: "headers \<Rightarrow> string \<Rightarrow> (rtsp_error + string \<times> string)" where
  "read_body m s =
     (case m ''content-length'' of
        None \<Rightarrow> Inr ([], s)
      | Some raw \<Rightarrow>
          (case atoi raw of
             None \<Rightarrow> Inr ([], s)
           | Some n \<Rightarrow>
               if n > 0 then
                 (if n > max_alloc then Inl Rtsp_Panic_Makeslice
                  else if int (length s) < n then Inl Rtsp_Read_Body
                  else Inr (take (nat n) s, drop (nat n) s))
               else Inr ([], s)))"

lemma read_body_length: "read_body m s = Inr (b, rest) \<Longrightarrow> length rest \<le> length s"
  by (auto simp: read_body_def split: option.splits if_splits)

definition status_line :: "string \<Rightarrow> rtsp_error + (string \<times> int \<times> string)" where
  "status_line line =
     (let parts = split_n (CHR '' '') 3 line
      in if length parts < 2 then Inl (Rtsp_Malformed_Status line)
         else (case atoi (parts ! 1) of
                 None \<Rightarrow> Inl (Rtsp_Malformed_Code line)
               | Some code \<Rightarrow> Inr (parts ! 0, code, if length parts = 3 then parts ! 2 else [])))"

text \<open>One reply with its header and body, starting after its status line.\<close>

definition read_rest ::
  "string \<times> int \<times> string \<Rightarrow> string \<Rightarrow> rtsp_error + response \<times> string" where
  "read_rest st s =
     (case read_headers s Map.empty of
        None \<Rightarrow> Inl Rtsp_Read_Header
      | Some (m, rest) \<Rightarrow>
          (case read_body m rest of
             Inl e \<Rightarrow> Inl e
           | Inr (b, rest') \<Rightarrow>
               Inr (\<lparr>rs_proto = fst st, rs_code = fst (snd st), rs_message = snd (snd st),
                     rs_headers = m, rs_body = b\<rparr>, rest')))"

lemma read_rest_length: "read_rest st s = Inr (r, rest) \<Longrightarrow> length rest < length s"
  by (auto simp: read_rest_def split: option.splits sum.splits prod.splits
      dest!: read_headers_length read_body_length)

text \<open>
  \<open>readResponse\<close>: blank lines before the status line are skipped; a reply whose CSeq is a number
  other than the expected one is dropped and the next one is read.  The second component is what is
  left in the connection's buffer: after a read error nothing, after a malformed status line the
  bytes behind it.
\<close>

function read_response :: "int \<Rightarrow> string \<Rightarrow> (rtsp_error + response) \<times> string" where
  "read_response expected s =
     (case read_line s of
        None \<Rightarrow> (Inl Rtsp_Read_Status, [])
      | Some (line, rest) \<Rightarrow>
          if line = [] then read_response expected rest
          else (case status_line line of
                  Inl e \<Rightarrow> (Inl e, rest)
                | Inr st \<Rightarrow>
                    (case read_rest st rest of
                       Inl e \<Rightarrow> (Inl e, [])
                     | Inr (r, rest') \<Rightarrow>
                         (case atoi (get_or_empty (rs_headers r) ''cseq'') of
                            None \<Rightarrow> (Inr r, rest')
                          | Some n \<Rightarrow>
                              if n \<noteq> expected then read_response expected rest'
                              else (Inr r, rest')))))"
  by pat_completeness auto
termination
  by (relation "measure (\<lambda>(n, s). length s)")
    (auto dest!: read_line_length read_rest_length)

declare read_response.simps [simp del]

text \<open>
  \<open>Do\<close>: the counter advances even when the request fails.  \<open>write_ok\<close> is the outcome of setting the
  deadline and writing; \<open>incoming\<close> is what the peer sends from then on.
\<close>

definition conn_do ::
  "rtsp_conn \<Rightarrow> string \<Rightarrow> string \<Rightarrow> string \<Rightarrow> (string \<times> string) list \<Rightarrow> string option \<Rightarrow> bool \<Rightarrow> string
   \<Rightarrow> (rtsp_error + response) \<times> rtsp_conn" where
  "conn_do c method uri content_type hs body write_ok incoming =
     (let cs = cseq c;
          payload = request_text c cs method uri content_type hs body;
          c' = c\<lparr>cseq := int64 (cs + 1), pending_request := payload\<rparr>
      in if \<not> write_ok then (Inl (Rtsp_Write method), c')
         else (case read_response cs (unread c @ incoming) of
                 (res, rest) \<Rightarrow> (res, c'\<lparr>unread := rest\<rparr>)))"

subsection \<open>Reading back what a peer printed\<close>

definition header_ok :: "string \<times> string \<Rightarrow> bool" where
  "header_ok h \<longleftrightarrow>
     (case h of (k, v) \<Rightarrow>
        CHR '':'' \<notin> set k \<and> lf \<notin> set k \<and> trim_space k = k
        \<and> lf \<notin> set v \<and> CHR 0x0D \<notin> set v \<and> trim_space v = v)"

definition store_header :: "string \<times> string \<Rightarrow> headers \<Rightarrow> headers" where
  "store_header h m = m(to_lower (fst h) \<mapsto> snd h)"

definition header_block :: "(string \<times> string) list \<Rightarrow> string" where
  "header_block hs = concat (map (\<lambda>(k, v). header_line k v) hs) @ crlf"

lemma crlf_set [simp]: "set crlf = {CHR 0x0D, lf}"
  by (auto simp: crlf_def lf_def)

lemma read_line_crlf: "lf \<notin> set l \<Longrightarrow> read_line (l @ crlf @ rest) = Some (trim_right l crlf, rest)"
proof -
  assume "lf \<notin> set l"
  then have "cut lf ((l @ [CHR 0x0D]) @ lf # rest) = (l @ [CHR 0x0D], rest, True)"
    by (intro cut_append) (simp add: lf_def)
  moreover have "trim_right (l @ [CHR 0x0D, lf]) crlf = trim_right l crlf"
    by (rule trim_right_append) simp
  ultimately show ?thesis
    by (simp add: read_line_def crlf_def lf_def)
qed

lemma read_line_empty: "read_line (crlf @ rest) = Some ([], rest)"
  using read_line_crlf [of "[]" rest] by (simp add: trim_right_def)

lemma trim_space_Cons_space [strs]: "trim_space (CHR '' '' # s) = trim_space s"
proof -
  have "find (\<lambda>w. w \<noteq> [] \<and> prefix w (CHR '' '' # s)) space_runes = Some [CHR '' '']"
    by (simp add: space_runes_def)
  then have "strip_front space_runes (CHR '' '' # s) = strip_front space_runes s"
    by (subst strip_front.simps) simp
  then show ?thesis
    by (simp add: trim_space_def trim_left_space_def)
qed

lemma read_headers_line:
  assumes "header_ok (k, v)"
  shows "read_headers (header_line k v @ s) m = read_headers s (store_header (k, v) m)"
proof -
  let ?l = "k @ CHR '':'' # CHR '' '' # v"
  have ok: "CHR '':'' \<notin> set k" "lf \<notin> set k" "trim_space k = k" "lf \<notin> set v" "CHR 0x0D \<notin> set v"
    "trim_space v = v"
    using assms by (auto simp: header_ok_def)
  have "last ?l \<notin> set crlf"
    using ok by (cases v rule: rev_cases) (auto simp: lf_def)
  then have "read_line (?l @ crlf @ s) = Some (?l, s)"
    using ok by (subst read_line_crlf) (auto simp: trim_right_id lf_def)
  moreover have "header_line k v @ s = ?l @ crlf @ s"
    by (simp add: header_line_def)
  moreover have "cut (CHR '':'') ?l = (k, CHR '' '' # v, True)"
    using ok by (simp add: cut_append)
  ultimately show ?thesis
    using ok by (subst read_headers.simps) (simp add: trim_space_Cons_space store_header_def)
qed

lemma read_headers_block:
  "list_all header_ok hs \<Longrightarrow> read_headers (header_block hs @ s) m = Some (fold store_header hs m, s)"
proof (induction hs arbitrary: m)
  case Nil
  show ?case
    by (subst read_headers.simps) (simp add: header_block_def read_line_empty)
next
  case (Cons h hs)
  obtain k v where h: "h = (k, v)"
    by fastforce
  have "header_block (h # hs) @ s = header_line k v @ header_block hs @ s"
    by (simp add: header_block_def h)
  with Cons h show ?case
    by (simp add: read_headers_line)
qed

text \<open>A reply as a peer prints it, and when its headers announce its body.\<close>

definition reply_text :: "int \<Rightarrow> string \<Rightarrow> (string \<times> string) list \<Rightarrow> string \<Rightarrow> string" where
  "reply_text code message hs body =
     ''RTSP/1.0 '' @ itoa code @ '' '' @ message @ crlf @ header_block hs @ body"

definition reply_ok :: "int \<Rightarrow> string \<Rightarrow> (string \<times> string) list \<Rightarrow> string \<Rightarrow> bool" where
  "reply_ok code message hs body \<longleftrightarrow>
     in_int64 code \<and> message \<noteq> [] \<and> lf \<notin> set message \<and> CHR 0x0D \<notin> set message \<and> list_all header_ok hs
     \<and> (case fold store_header hs Map.empty ''content-length'' of
          None \<Rightarrow> body = []
        | Some raw \<Rightarrow> raw = itoa (int (length body)) \<and> int (length body) \<le> max_alloc)"

lemma read_body_exact:
  assumes "case m ''content-length'' of
          None \<Rightarrow> body = []
        | Some raw \<Rightarrow> raw = itoa (int (length body)) \<and> int (length body) \<le> max_alloc"
  shows "read_body m (body @ s) = Inr (body, s)"
proof (cases "m ''content-length''")
  case None
  with assms show ?thesis
    by (simp add: read_body_def)
next
  case (Some raw)
  with assms have raw: "raw = itoa (int (length body))" "int (length body) \<le> max_alloc"
    by auto
  then have "atoi raw = Some (int (length body))"
    by (simp add: atoi_itoa in_int64_def max_alloc_def)
  with Some raw show ?thesis
    by (simp add: read_body_def)
qed

lemma read_response_reply:
  assumes "reply_ok code message hs body"
  defines "m \<equiv> fold store_header hs Map.empty"
  defines "r \<equiv> \<lparr>rs_proto = ''RTSP/1.0'', rs_code = code, rs_message = message, rs_headers = m, rs_body = body\<rparr>"
  shows "read_response n (reply_text code message hs body @ s) =
           (case atoi (get_or_empty m ''cseq'') of
              None \<Rightarrow> (Inr r, s)
            | Some k \<Rightarrow> if k \<noteq> n then read_response n s else (Inr r, s))"
proof -
  define l where "l = ''RTSP/1.0'' @ CHR '' '' # itoa code @ CHR '' '' # message"
  have ok: "in_int64 code" "message \<noteq> []" "lf \<notin> set message" "CHR 0x0D \<notin> set message" "list_all header_ok hs"
    using assms(1) by (simp_all add: reply_ok_def)
  have code: "lf \<notin> set (itoa code)" "CHR '' '' \<notin> set (itoa code)"
    by (rule not_in_itoa; simp add: lf_def is_digit_def)+
  have "last l = last message"
    using ok(2) by (simp add: l_def)
  then have "last l \<notin> set crlf"
    using last_in_set [OF ok(2)] ok(3,4) by (metis crlf_set insertE singletonD)
  then have line: "read_line (l @ crlf @ header_block hs @ body @ s) = Some (l, header_block hs @ body @ s)"
    using ok code by (subst read_line_crlf) (auto simp: trim_right_id lf_def l_def)
  have "split_n (CHR '' '') 3 l = [''RTSP/1.0'', itoa code, message]"
    unfolding l_def using code by (intro split_n3) simp_all
  then have status: "status_line l = Inr (''RTSP/1.0'', code, message)"
    using ok(1) by (simp add: status_line_def atoi_itoa)
  have "read_body m (body @ s) = Inr (body, s)"
    using assms(1) by (intro read_body_exact) (simp add: reply_ok_def m_def)
  then have rest: "read_rest (''RTSP/1.0'', code, message) (header_block hs @ body @ s) = Inr (r, s)"
    using ok(5) by (simp add: read_rest_def read_headers_block m_def [symmetric] r_def)
  have rendered: "reply_text code message hs body @ s = l @ crlf @ header_block hs @ body @ s"
    by (simp add: reply_text_def l_def)
  have "l \<noteq> []"
    by (simp add: l_def)
  have "m = rs_headers r"
    by (simp add: r_def)
  then show ?thesis
    unfolding rendered by (subst read_response.simps) (simp add: line status rest \<open>l \<noteq> []\<close>)
qed


type_synonym reply = "int \<times> string \<times> (string \<times> string) list \<times> string"

definition render_reply :: "reply \<Rightarrow> string" where
  "render_reply p = (case p of (code, message, hs, body) \<Rightarrow> reply_text code message hs body)"

definition reply_headers :: "reply \<Rightarrow> headers" where
  "reply_headers p = (case p of (code, message, hs, body) \<Rightarrow> fold store_header hs Map.empty)"

definition reply_wf :: "reply \<Rightarrow> bool" where
  "reply_wf p \<longleftrightarrow> (case p of (code, message, hs, body) \<Rightarrow> reply_ok code message hs body)"

definition reply_response :: "reply \<Rightarrow> response" where
  "reply_response p =
     (case p of (code, message, hs, body) \<Rightarrow>
        \<lparr>rs_proto = ''RTSP/1.0'', rs_code = code, rs_message = message, rs_headers = reply_headers p,
         rs_body = body\<rparr>)"

lemmas reply_defs = render_reply_def reply_headers_def reply_wf_def reply_response_def

lemma read_response_render:
  assumes "reply_wf p"
  shows "read_response n (render_reply p @ s) =
           (case atoi (get_or_empty (reply_headers p) ''cseq'') of
              None \<Rightarrow> (Inr (reply_response p), s)
            | Some k \<Rightarrow> if k \<noteq> n then read_response n s else (Inr (reply_response p), s))"
  using assms read_response_reply by (cases p) (simp add: reply_defs split: option.split)

text \<open>
  C16: \<open>Do\<close> answers with the reply to its own request.  Whatever well-formed replies the peer sends
  with another CSeq come first, with whatever bodies, they are consumed and dropped; the reply that
  carries the CSeq of the request is returned with its code, message, headers and body intact; the
  bytes behind it stay for the next request, and the counter moves on by one.
\<close>

lemma conn_do_answers_own_request:
  assumes stale: "\<forall>p \<in> set ps. reply_wf p
      \<and> (\<exists>k. atoi (get_or_empty (reply_headers p) ''cseq'') = Some k \<and> k \<noteq> cseq c)"
    and own: "reply_wf p" "get_or_empty (reply_headers p) ''cseq'' = itoa (cseq c)"
    and conn: "in_int64 (cseq c)" "unread c @ incoming = concat (map render_reply ps) @ render_reply p @ s"
  shows "conn_do c method uri ctype hs body True incoming =
           (Inr (reply_response p),
            c\<lparr>cseq := int64 (cseq c + 1),
              pending_request := request_text c (cseq c) method uri ctype hs body, unread := s\<rparr>)"
proof -
  have "read_response (cseq c) (concat (map render_reply ps) @ render_reply p @ s) = (Inr (reply_response p), s)"
    using stale
  proof (induction ps)
    case Nil
    show ?case
      using own conn(1) by (simp add: read_response_render atoi_itoa)
  next
    case (Cons q ps)
    then obtain k where "reply_wf q" "atoi (get_or_empty (reply_headers q) ''cseq'') = Some k" "k \<noteq> cseq c"
      by auto
    with Cons show ?case
      by (simp add: read_response_render)
  qed
  then show ?thesis
    by (simp add: conn_do_def Let_def conn(2))
qed

lemma header_ok_eval:
  assumes "k \<noteq> []" "\<not> edge_byte (hd k)" "\<not> edge_byte (last k)"
    and "v = [] \<or> \<not> edge_byte (hd v) \<and> \<not> edge_byte (last v)"
    and "CHR '':'' \<notin> set k" "lf \<notin> set k" "lf \<notin> set v" "CHR 0x0D \<notin> set v"
  shows "header_ok (k, v)"
  using assms by (cases "v = []") (auto simp: header_ok_def trim_space_id)

lemma conn_do_answers_own_request_witness:
  defines "c \<equiv> \<lparr>cseq = 4, session_id = 7, dacp_id = ''AB'', active_remote = 9, local_ip = ''10.0.0.2'',
                  remote_ip = ''10.0.0.9'', pending_request = [],
                  unread = render_reply (200, ''OK'', [(''CSeq'', ''3'')], [])\<rparr>"
  shows "fst (conn_do c ''RECORD'' [] [] [] None True (render_reply (454, ''Gone'', [(''CSeq'', ''4'')], [])))
       = Inr (reply_response (454, ''Gone'', [(''CSeq'', ''4'')], []))"
proof -
  have low: "to_lower ''CSeq'' = ''cseq''"
    by (simp add: to_lower_def lower_char_def is_upper_def)
  have hdr: "header_ok (''CSeq'', [d])" if "is_digit d" for d
    by (rule header_ok_eval)
      (use that digit_not_edge [of d] in \<open>auto simp: edge_byte_def space_runes_def lf_def is_digit_def\<close>)
  have wf: "reply_wf (code, m, [(''CSeq'', [d])], [])"
    if "is_digit d" "in_int64 code" "m \<in> {''OK'', ''Gone''}" for code m d
    using that hdr by (auto simp: reply_wf_def reply_ok_def store_header_def low lf_def)
  have cs: "get_or_empty (reply_headers (code, m, [(''CSeq'', v)], [])) ''cseq'' = v" for code m v
    by (simp add: reply_headers_def store_header_def low get_or_empty_def)
  have h1: "\<forall>p \<in> set [(200, ''OK'', [(''CSeq'', ''3'')], [])]. reply_wf p
      \<and> (\<exists>k. atoi (get_or_empty (reply_headers p) ''cseq'') = Some k \<and> k \<noteq> cseq c)"
    using wf [of "CHR ''3''" 200 "''OK''"]
    by (simp add: cs c_def) (simp add: atoi_def is_digit_def digits_val_def digit_val_def in_int64_def)
  have h2: "reply_wf (454, ''Gone'', [(''CSeq'', ''4'')], [])"
    using wf [of "CHR ''4''" 454 "''Gone''"] by (simp add: is_digit_def in_int64_def)
  have h3: "get_or_empty (reply_headers (454, ''Gone'', [(''CSeq'', ''4'')], [])) ''cseq'' = itoa (cseq c)"
    by (simp add: cs) (simp add: c_def itoa_def nat_str.simps digit_char_def)
  have h5: "unread c @ render_reply (454, ''Gone'', [(''CSeq'', ''4'')], [])
      = concat (map render_reply [(200, ''OK'', [(''CSeq'', ''3'')], [])])
        @ render_reply (454, ''Gone'', [(''CSeq'', ''4'')], []) @ []"
    by (simp add: c_def)
  have h4: "in_int64 (cseq c)"
    by (simp add: c_def in_int64_def)
  show ?thesis
    by (simp only: conn_do_answers_own_request [OF h1 h2 h3 h4 h5] fst_conv)
qed

end
