(* ===== verification/Registry.thy ===== *)
theory Registry
  imports Go_Strings
begin

text \<open>
  The device registry, internal/discovery/registry.go: the device record, the merge key, the merge
  of two observations of one speaker, expiry, and the look-ups.

  The registry is a map from merge keys to devices.  A nil TXT map and an empty one behave alike
  in every operation and are both the empty map.  \<open>now\<close> is the reading of the registry's clock, a
  non-zero time.  The resolver of the host (\<open>net.ParseIP\<close>, then \<open>net.LookupIP\<close>) is a parameter that
  gives the textual address of a host, or \<open>None\<close>.
\<close>

record device =
  dev_id :: string
  dev_name :: string
  dev_model :: string
  dev_address :: string
  dev_port :: int
  dev_features :: string
  dev_protocol :: string
  requires_password :: bool
  is_busy :: bool
  last_seen :: time
  dev_source :: string
  raop_port :: int
  airplay_port :: int
  dev_mac :: string
  dev_txt :: "string \<rightharpoonup> string"

definition empty_device :: device where
  "empty_device =
     \<lparr>dev_id = [], dev_name = [], dev_model = [], dev_address = [], dev_port = 0, dev_features = [],
      dev_protocol = [], requires_password = False, is_busy = False, last_seen = 0, dev_source = [],
      raop_port = 0, airplay_port = 0, dev_mac = [], dev_txt = Map.empty\<rparr>"

definition source_mdns :: string where "source_mdns = ''mdns''"
definition source_static :: string where "source_static = ''static''"

definition txt_get :: "(string \<rightharpoonup> string) \<Rightarrow> string \<Rightarrow> string" where
  "txt_get m k = (case m k of None \<Rightarrow> [] | Some v \<Rightarrow> v)"

definition supports_airplay2 :: "device \<Rightarrow> bool" where
  "supports_airplay2 d \<longleftrightarrow>
     (if trim_space (txt_get (dev_txt d) ''deviceid'') \<noteq> [] then True
      else trim_space (dev_features d) \<noteq> [])"

definition device_codecs :: "device \<Rightarrow> int list" where
  "device_codecs d =
     (let raw = trim_space (txt_get (dev_txt d) ''cn'')
      in if raw = [] then []
         else List.map_filter (\<lambda>part. atoi (trim_space part)) (split_on (CHR '','') raw))"

definition supports_pcm :: "device \<Rightarrow> bool" where
  "supports_pcm d \<longleftrightarrow> list_ex (\<lambda>codec. codec = 0) (device_codecs d)"

subsection \<open>Keys\<close>

definition is_hex_digit :: "char \<Rightarrow> bool" where
  "is_hex_digit c \<longleftrightarrow>
     CHR ''0'' \<le> c \<and> c \<le> CHR ''9'' \<or> CHR ''a'' \<le> c \<and> c \<le> CHR ''f'' \<or> CHR ''A'' \<le> c \<and> c \<le> CHR ''F''"

fun pairs :: "string \<Rightarrow> string list" where
  "pairs (a # b # s) = [a, b] # pairs s"
| "pairs s = []"

definition strip_separators :: "string \<Rightarrow> string" where
  "strip_separators s = filter (\<lambda>c. c \<noteq> CHR '':'' \<and> c \<noteq> CHR ''-'' \<and> c \<noteq> CHR ''.'') s"

definition normalize_mac :: "string \<Rightarrow> string" where
  "normalize_mac value =
     (let cleaned = strip_separators (trim_space value)
      in if length cleaned \<noteq> 12 then []
         else if \<not> list_all is_hex_digit cleaned then []
         else join '':'' (pairs (to_upper cleaned)))"

definition mac_from_instance_name :: "string \<Rightarrow> string" where
  "mac_from_instance_name instance_name =
     (case cut (CHR ''@'') instance_name of (head, _, found) \<Rightarrow>
        if \<not> found then [] else normalize_mac head)"

definition registry_key :: "device \<Rightarrow> string" where
  "registry_key obs =
     (if normalize_mac (dev_mac obs) \<noteq> [] then normalize_mac (dev_mac obs)
      else if dev_id obs \<noteq> [] then
        (if mac_from_instance_name (dev_id obs) \<noteq> [] then mac_from_instance_name (dev_id obs)
         else dev_id obs)
      else to_lower (dev_name obs))"

subsection \<open>Merging\<close>

definition merge_txt :: "(string \<rightharpoonup> string) \<Rightarrow> (string \<rightharpoonup> string) \<Rightarrow> (string \<rightharpoonup> string)" where
  "merge_txt old obs =
     (\<lambda>k. case obs k of
            None \<Rightarrow> old k
          | Some v \<Rightarrow> if trim_space v = [] then old k else Some v)"

definition merge_device :: "device \<Rightarrow> device \<Rightarrow> device" where
  "merge_device ex obs = ex
     \<lparr>dev_source :=
        (if dev_source obs = source_static \<and> dev_source ex \<noteq> source_static then source_static
         else if dev_source obs \<noteq> source_static then dev_source obs else dev_source ex),
      last_seen :=
        (if dev_source obs \<noteq> source_static \<and> \<not> is_zero (last_seen obs) then last_seen obs
         else last_seen ex),
      dev_name := (if dev_name obs \<noteq> [] then dev_name obs else dev_name ex),
      dev_model := (if dev_model obs \<noteq> [] then dev_model obs else dev_model ex),
      dev_address := (if dev_address obs \<noteq> [] then dev_address obs else dev_address ex),
      dev_mac := (if dev_mac obs \<noteq> [] then normalize_mac (dev_mac obs) else dev_mac ex),
      dev_features := (if dev_features obs \<noteq> [] then dev_features obs else dev_features ex),
      dev_protocol :=
        (if dev_protocol obs \<noteq> [] \<and> (dev_protocol ex \<noteq> ''airplay2'' \<or> dev_protocol obs = ''airplay2'')
         then dev_protocol obs else dev_protocol ex),
      requires_password := (if requires_password obs then True else requires_password ex),
      raop_port := (if raop_port obs \<noteq> 0 then raop_port obs else raop_port ex),
      airplay_port := (if airplay_port obs \<noteq> 0 then airplay_port obs else airplay_port ex),
      dev_port :=
        (if dev_port obs \<noteq> 0 \<and> (dev_port ex = 0 \<or> airplay_port obs \<noteq> 0) then dev_port obs
         else dev_port ex),
      dev_txt := merge_txt (dev_txt ex) (dev_txt obs),
      dev_id := (if dev_id ex = [] then registry_key obs else dev_id ex)\<rparr>"

subsection \<open>The registry\<close>

record registry =
  devices :: "string \<rightharpoonup> device"
  reg_ttl :: duration

definition new_registry :: "duration \<Rightarrow> registry" where
  "new_registry ttl = \<lparr>devices = Map.empty, reg_ttl = ttl\<rparr>"

definition stamp :: "time \<Rightarrow> device \<Rightarrow> device" where
  "stamp now obs =
     (let obs = (if is_zero (last_seen obs) then obs\<lparr>last_seen := now\<rparr> else obs)
      in if dev_source obs = [] then obs\<lparr>dev_source := source_mdns\<rparr> else obs)"

text \<open>\<open>Upsert\<close> returns the stored entry.\<close>

definition upsert :: "time \<Rightarrow> registry \<Rightarrow> device \<Rightarrow> registry \<times> device" where
  "upsert now r obs0 =
     (let obs = stamp now obs0; key = registry_key obs
      in case devices r key of
           None \<Rightarrow>
             (let stored = (if dev_id obs = [] then obs\<lparr>dev_id := key\<rparr> else obs)
              in (r\<lparr>devices := (devices r)(key \<mapsto> stored)\<rparr>, stored))
         | Some ex \<Rightarrow>
             (let merged = merge_device ex obs
              in (r\<lparr>devices := (devices r)(key \<mapsto> merged)\<rparr>, merged)))"

text \<open>\<open>net.SplitHostPort\<close>, by the positions of the last colon and of the brackets.\<close>

fun index_byte :: "char \<Rightarrow> string \<Rightarrow> nat option" where
  "index_byte c [] = None"
| "index_byte c (x # s) = (if x = c then Some 0 else map_option Suc (index_byte c s))"

definition last_index :: "char \<Rightarrow> string \<Rightarrow> nat option" where
  "last_index c s = map_option (\<lambda>i. length s - 1 - i) (index_byte c (rev s))"

definition net_split_host_port :: "string \<Rightarrow> (string \<times> string) option" where
  "net_split_host_port s =
     (case last_index (CHR '':'') s of
        None \<Rightarrow> None
      | Some i \<Rightarrow>
          (if hd s = CHR ''['' then
             (case index_byte (CHR '']'') s of
                None \<Rightarrow> None
              | Some end_pos \<Rightarrow>
                  if end_pos + 1 \<noteq> i then None
                  else if CHR ''['' \<in> set (drop 1 s) then None
                  else if CHR '']'' \<in> set (drop (end_pos + 1) s) then None
                  else Some (drop 1 (take end_pos s), drop (i + 1) s))
           else if CHR '':'' \<in> set (take i s) then None
           else if CHR ''['' \<in> set s then None
           else if CHR '']'' \<in> set s then None
           else Some (take i s, drop (i + 1) s)))"

datatype registry_error =
    Empty_Address
  | Invalid_Port string
  | Cannot_Resolve string

definition split_host_port :: "string \<Rightarrow> int \<Rightarrow> registry_error + (string \<times> int)" where
  "split_host_port address0 default_port =
     (let address = trim_space address0
      in if address = [] then Inl Empty_Address
         else (case net_split_host_port address of
                 Some (host, port_text) \<Rightarrow>
                   (case atoi port_text of
                      None \<Rightarrow> Inl (Invalid_Port address)
                    | Some port \<Rightarrow>
                        if port \<le> 0 \<or> port > 65535 then Inl (Invalid_Port address)
                        else Inr (host, port))
               | None \<Rightarrow> Inr (address, if default_port \<le> 0 then 7000 else default_port)))"

definition static_observation :: "string \<Rightarrow> string \<Rightarrow> int \<Rightarrow> device" where
  "static_observation host ip port =
     empty_device\<lparr>dev_id := ip @ ''@'' @ host, dev_name := host, dev_address := ip, dev_port := port,
       dev_protocol := ''airplay2'', dev_source := source_static, last_seen := 0,
       dev_txt := [''cn'' \<mapsto> ''0,1''], raop_port := port, airplay_port := port\<rparr>"

definition upsert_static ::
  "(string \<Rightarrow> string option) \<Rightarrow> time \<Rightarrow> registry \<Rightarrow> string \<Rightarrow> int \<Rightarrow> registry \<times> (registry_error + device)" where
  "upsert_static resolve now r address default_port =
     (case split_host_port address default_port of
        Inl e \<Rightarrow> (r, Inl e)
      | Inr (host, port) \<Rightarrow>
          (case resolve host of
             None \<Rightarrow> (r, Inl (Cannot_Resolve host))
           | Some ip \<Rightarrow>
               (case upsert now r (static_observation host ip port) of (r', d) \<Rightarrow> (r', Inr d))))"

text \<open>\<open>List\<close>: sorted by name, then by ID.\<close>

definition device_less :: "device \<Rightarrow> device \<Rightarrow> bool" where
  "device_less a b \<longleftrightarrow>
     (if dev_name a = dev_name b then dev_id a < dev_id b else dev_name a < dev_name b)"

fun insert_device :: "device \<Rightarrow> device list \<Rightarrow> device list" where
  "insert_device d [] = [d]"
| "insert_device d (e # es) = (if device_less e d then e # insert_device d es else d # e # es)"

definition registry_list :: "string list \<Rightarrow> registry \<Rightarrow> device list" where
  "registry_list ord r = foldr insert_device (List.map_filter (devices r) ord) []"

definition get_matches :: "string \<Rightarrow> string \<Rightarrow> device \<Rightarrow> bool" where
  "get_matches ident k d \<longleftrightarrow>
     to_lower (dev_id d) = to_lower (trim_space ident) \<or> equal_fold (dev_mac d) ident
     \<or> equal_fold (dev_name d) ident \<or> dev_address d = ident"

definition registry_get :: "string list \<Rightarrow> registry \<Rightarrow> string \<Rightarrow> device option" where
  "registry_get ord r ident =
     (if ident = [] then None
      else (case devices r ident of
              Some d \<Rightarrow> Some d
            | None \<Rightarrow> Option.bind (find_key (get_matches ident) ord (devices r)) (devices r)))"

definition registry_count :: "registry \<Rightarrow> nat" where
  "registry_count r = card (dom (devices r))"

definition busy_matches :: "string \<Rightarrow> string \<Rightarrow> device \<Rightarrow> bool" where
  "busy_matches ident k d \<longleftrightarrow>
     k = ident \<or> to_lower (dev_id d) = to_lower (trim_space ident) \<or> equal_fold (dev_mac d) ident"

definition set_busy :: "string list \<Rightarrow> registry \<Rightarrow> string \<Rightarrow> bool \<Rightarrow> registry" where
  "set_busy ord r ident busy =
     (case find_key (busy_matches ident) ord (devices r) of
        None \<Rightarrow> r
      | Some k \<Rightarrow> r\<lparr>devices := (devices r)(k := map_option (\<lambda>d. d\<lparr>is_busy := busy\<rparr>) (devices r k))\<rparr>)"

definition expired :: "time \<Rightarrow> duration \<Rightarrow> device \<Rightarrow> bool" where
  "expired now ttl d \<longleftrightarrow>
     \<not> (dev_source d = source_static \<or> is_zero (last_seen d)) \<and> last_seen d < now - ttl"

definition sweep :: "time \<Rightarrow> string list \<Rightarrow> registry \<Rightarrow> registry \<times> device list" where
  "sweep now ord r =
     (if reg_ttl r \<le> 0 then (r, [])
      else (r\<lparr>devices := (\<lambda>k. case devices r k of
                                None \<Rightarrow> None
                              | Some d \<Rightarrow> if expired now (reg_ttl r) d then None else Some d)\<rparr>,
            filter (expired now (reg_ttl r)) (List.map_filter (devices r) ord)))"


subsection \<open>Hardware addresses\<close>

lemma hex_char [simp]:
  assumes "is_hex_digit c"
  shows "is_hex_digit (upper_char c)" "\<not> edge_byte c" "c \<noteq> CHR '':''" "c \<noteq> CHR ''-''" "c \<noteq> CHR ''.''"
proof -
  show "is_hex_digit (upper_char c)"
    using assms
    by (cases c) (auto simp: is_hex_digit_def upper_char_def is_lower_def less_eq_char_simp)
qed (use assms in \<open>auto simp: is_hex_digit_def edge_byte_def space_runes_def less_eq_char_simp\<close>)

definition canonical_mac :: "string \<Rightarrow> bool" where
  "canonical_mac m \<longleftrightarrow>
     (\<exists>h. length h = 12 \<and> list_all is_hex_digit h \<and> to_upper h = h \<and> m = join '':'' (pairs h))"

lemma length_12:
  "length h = 12 \<Longrightarrow>
   \<exists>a b c d e f g i j k l m. h = [a, b, c, d, e, f, g, i, j, k, l, m]"
  by (auto simp: length_Suc_conv numeral_eq_Suc)

lemma normalize_mac_canonical: "normalize_mac v = [] \<or> canonical_mac (normalize_mac v)"
proof (cases "normalize_mac v = []")
  case False
  define h where "h = to_upper (strip_separators (trim_space v))"
  have "length h = 12" "list_all is_hex_digit h" "normalize_mac v = join '':'' (pairs h)"
    using False
    by (auto simp: normalize_mac_def h_def Let_def list_all_iff to_upper_def split: if_splits)
  moreover have "to_upper h = h"
    by (simp add: h_def)
  ultimately show ?thesis
    by (auto simp: canonical_mac_def)
qed simp

lemma canonical_mac_fixed:
  assumes "canonical_mac m"
  shows "normalize_mac m = m" and "length m = 17"
proof -
  obtain h where h: "length h = 12" "list_all is_hex_digit h" "to_upper h = h" "m = join '':'' (pairs h)"
    using assms by (auto simp: canonical_mac_def)
  obtain a b c d e f g i j k l n where e: "h = [a, b, c, d, e, f, g, i, j, k, l, n]"
    using length_12 [OF h(1)] by blast
  have m: "m = [a, b, CHR '':'', c, d, CHR '':'', e, f, CHR '':'', g, i, CHR '':'', j, k, CHR '':'', l, n]"
    by (simp add: h(4) e)
  have "trim_space m = m"
    using h(2) by (intro trim_space_id) (simp_all add: m e)
  moreover have "strip_separators m = h"
    using h(2) by (simp add: m e strip_separators_def)
  ultimately show "normalize_mac m = m"
    using h by (simp add: normalize_mac_def)
  show "length m = 17"
    by (simp add: m)
qed

lemma normalize_mac_Nil [simp]: "normalize_mac [] = []"
  by (simp add: normalize_mac_def strip_separators_def)

lemma normalize_mac_idem [simp]: "normalize_mac (normalize_mac v) = normalize_mac v"
  using normalize_mac_canonical [of v] canonical_mac_fixed(1) [of "normalize_mac v"] by auto

text \<open>
  Whatever spelling of a hardware address \<open>normalizeMAC\<close> accepts, its result is six upper-case
  hexadecimal pairs joined by colons, and normalising it again changes nothing, so addresses that
  differ in case or separators name one speaker.
\<close>

lemma normalize_mac_normal_form:
  assumes "normalize_mac v \<noteq> []"
  shows "canonical_mac (normalize_mac v) \<and> length (normalize_mac v) = 17
       \<and> normalize_mac (normalize_mac v) = normalize_mac v"
  using assms normalize_mac_canonical [of v] canonical_mac_fixed(2) [of "normalize_mac v"] by auto

lemma normalize_mac_example: "normalize_mac ''40-5b-d8-12-34-56'' = ''40:5B:D8:12:34:56''"
proof -
  have "trim_space ''40-5b-d8-12-34-56'' = ''40-5b-d8-12-34-56''"
    by (rule trim_space_id) (simp_all add: edge_byte_def space_runes_def)
  then show ?thesis
    by (simp add: normalize_mac_def strip_separators_def is_hex_digit_def to_upper_def upper_char_def
        is_lower_def)
qed

lemma normalize_mac_normal_form_witness: "canonical_mac (normalize_mac ''40-5b-d8-12-34-56'')"
  using normalize_mac_normal_form [of "''40-5b-d8-12-34-56''"] by (simp add: normalize_mac_example)


subsection \<open>One entry per hardware address\<close>

definition registry_inv :: "registry \<Rightarrow> bool" where
  "registry_inv r \<longleftrightarrow>
     finite (dom (devices r))
     \<and> (\<forall>k d. devices r k = Some d \<longrightarrow> normalize_mac (dev_mac d) = [] \<or> normalize_mac (dev_mac d) = k)"

lemma registry_key_mac: "normalize_mac (dev_mac obs) \<noteq> [] \<Longrightarrow> registry_key obs = normalize_mac (dev_mac obs)"
  by (simp add: registry_key_def)

lemma stamp_fields [simp]:
  "dev_mac (stamp now obs) = dev_mac obs" "dev_id (stamp now obs) = dev_id obs"
  "dev_name (stamp now obs) = dev_name obs" "dev_txt (stamp now obs) = dev_txt obs"
  "dev_port (stamp now obs) = dev_port obs" "airplay_port (stamp now obs) = airplay_port obs"
  "raop_port (stamp now obs) = raop_port obs" "dev_protocol (stamp now obs) = dev_protocol obs"
  "dev_address (stamp now obs) = dev_address obs" "is_busy (stamp now obs) = is_busy obs"
  "dev_source (stamp now obs) = (if dev_source obs = [] then source_mdns else dev_source obs)"
  "last_seen (stamp now obs) = (if is_zero (last_seen obs) then now else last_seen obs)"
  by (simp_all add: stamp_def Let_def)

lemma registry_key_stamp [simp]: "registry_key (stamp now obs) = registry_key obs"
  by (simp add: registry_key_def)

text \<open>What \<open>Upsert\<close> stores under the key of the observation.\<close>

definition upserted :: "time \<Rightarrow> registry \<Rightarrow> device \<Rightarrow> device" where
  "upserted now r obs =
     (case devices r (registry_key obs) of
        None \<Rightarrow> (if dev_id obs = [] then (stamp now obs)\<lparr>dev_id := registry_key obs\<rparr> else stamp now obs)
      | Some ex \<Rightarrow> merge_device ex (stamp now obs))"

lemma upsert_eq:
  "upsert now r obs = (r\<lparr>devices := (devices r)(registry_key obs \<mapsto> upserted now r obs)\<rparr>, upserted now r obs)"
  by (simp add: upsert_def upserted_def Let_def split: option.split)

lemma dev_mac_merge [simp]:
  "dev_mac (merge_device ex obs) = (if dev_mac obs \<noteq> [] then normalize_mac (dev_mac obs) else dev_mac ex)"
  by (simp add: merge_device_def)

lemma registry_invD:
  "registry_inv r \<Longrightarrow> devices r k = Some d \<Longrightarrow> normalize_mac (dev_mac d) \<noteq> [] \<Longrightarrow> normalize_mac (dev_mac d) = k"
  unfolding registry_inv_def by blast

lemma upserted_mac:
  assumes "registry_inv r" "normalize_mac (dev_mac (upserted now r obs)) \<noteq> []"
  shows "normalize_mac (dev_mac (upserted now r obs)) = registry_key obs"
proof (cases "devices r (registry_key obs)")
  case None
  with assms(2) show ?thesis
    using registry_key_mac [of obs] by (simp add: upserted_def split: if_splits)
next
  case (Some ex)
  show ?thesis
  proof (cases "dev_mac obs = []")
    case True
    with Some assms registry_invD [OF assms(1) Some] show ?thesis
      by (simp add: upserted_def)
  next
    case False
    with Some assms registry_key_mac [of obs] show ?thesis
      by (simp add: upserted_def)
  qed
qed

lemma upsert_inv:
  assumes "registry_inv r"
  shows "registry_inv (fst (upsert now r obs))"
  unfolding registry_inv_def
proof (intro conjI allI impI)
  show "finite (dom (devices (fst (upsert now r obs))))"
    using assms by (simp add: upsert_eq registry_inv_def)
  fix k d assume "devices (fst (upsert now r obs)) k = Some d"
  then have "k = registry_key obs \<and> d = upserted now r obs \<or> devices r k = Some d"
    by (simp add: upsert_eq split: if_splits)
  then show "normalize_mac (dev_mac d) = [] \<or> normalize_mac (dev_mac d) = k"
    using upserted_mac [OF assms, of now obs] registry_invD [OF assms, of k d] by blast
qed

lemma upsert_static_inv: "registry_inv r \<Longrightarrow> registry_inv (fst (upsert_static resolve now r address port))"
  using upsert_inv
  by (auto simp: upsert_static_def upsert_eq split: sum.split option.split prod.split)

lemma set_busy_other: "devices (set_busy ord r ident b) k = Some d \<Longrightarrow> \<exists>d'. devices r k = Some d' \<and> d = d'\<lparr>is_busy := is_busy d\<rparr>"
  by (auto simp: set_busy_def split: option.splits if_splits)

lemma dom_set_busy [simp]: "dom (devices (set_busy ord r ident b)) = dom (devices r)"
  by (auto simp: set_busy_def dom_def split: option.split)

lemma set_busy_inv:
  assumes "registry_inv r"
  shows "registry_inv (set_busy ord r ident b)"
  unfolding registry_inv_def
proof (intro conjI allI impI)
  show "finite (dom (devices (set_busy ord r ident b)))"
    using assms by (simp add: registry_inv_def)
  fix k d assume "devices (set_busy ord r ident b) k = Some d"
  then obtain d' where d': "devices r k = Some d'" "d = d'\<lparr>is_busy := is_busy d\<rparr>"
    using set_busy_other by blast
  have "dev_mac d = dev_mac d'"
    by (subst d'(2)) simp
  then show "normalize_mac (dev_mac d) = [] \<or> normalize_mac (dev_mac d) = k"
    using registry_invD [OF assms d'(1)] by auto
qed

lemma sweep_devices:
  "devices (fst (sweep now ord r)) k =
     (case devices r k of
        None \<Rightarrow> None
      | Some d \<Rightarrow> if 0 < reg_ttl r \<and> expired now (reg_ttl r) d then None else Some d)"
  by (auto simp: sweep_def split: option.split)

lemma sweep_inv: "registry_inv r \<Longrightarrow> registry_inv (fst (sweep now ord r))"
proof -
  assume inv: "registry_inv r"
  have "devices (fst (sweep now ord r)) \<subseteq>\<^sub>m devices r"
    by (auto simp: map_le_def sweep_devices split: option.splits if_splits)
  then have sub: "\<And>k d. devices (fst (sweep now ord r)) k = Some d \<Longrightarrow> devices r k = Some d"
    by (auto simp: map_le_def dom_def)
  then have "dom (devices (fst (sweep now ord r))) \<subseteq> dom (devices r)"
    by blast
  with inv sub show ?thesis
    by (auto simp: registry_inv_def intro: finite_subset)
qed

text \<open>The operations of the registry, as the events of one machine.\<close>

datatype registry_op =
    Op_Upsert time device
  | Op_Static "string \<Rightarrow> string option" time string int
  | Op_Busy "string list" string bool
  | Op_Sweep time "string list"

fun registry_step :: "registry_op \<Rightarrow> registry \<Rightarrow> registry" where
  "registry_step (Op_Upsert now obs) r = fst (upsert now r obs)"
| "registry_step (Op_Static resolve now address port) r = fst (upsert_static resolve now r address port)"
| "registry_step (Op_Busy ord ident b) r = set_busy ord r ident b"
| "registry_step (Op_Sweep now ord) r = fst (sweep now ord r)"

interpretation registry: machine registry_step registry_inv
proof unfold_locales
  fix r and a
  show "registry_inv r \<Longrightarrow> registry_inv (registry_step a r)"
    by (cases a) (simp_all add: upsert_inv upsert_static_inv set_busy_inv sweep_inv)
qed

lemma new_registry_inv [simp]: "registry_inv (new_registry ttl)"
  by (simp add: registry_inv_def new_registry_def)



definition homepod_raop :: device where
  "homepod_raop =
     empty_device\<lparr>dev_address := ''192.168.1.105'', dev_port := 5000, raop_port := 5000,
       dev_mac := ''40-5b-d8-12-34-56'', dev_name := ''Kitchen'', dev_protocol := ''raop'',
       dev_source := source_mdns, last_seen := 10\<rparr>"

definition homepod_airplay :: device where
  "homepod_airplay =
     empty_device\<lparr>dev_address := ''192.168.1.105'', dev_port := 7000, airplay_port := 7000,
       dev_mac := ''40-5b-d8-12-34-56'', dev_name := ''Kitchen'', dev_protocol := ''airplay2'',
       dev_source := source_mdns, last_seen := 20\<rparr>"


subsection \<open>Merging the AirPlay and the RAOP record of one speaker\<close>

text \<open>
  C15: The order in which the two services of a speaker are discovered does not matter: the one entry
  they share has the same protocol, ports, password bit, busy mark, address and hardware address
  either way, with the AirPlay control port and protocol preferred.
\<close>

lemma merge_order_irrelevant:
  assumes key: "registry_key a = registry_key p" "devices r (registry_key a) = None"
    and air: "dev_protocol a = ''airplay2''" "airplay_port a = dev_port a" "dev_port a \<noteq> 0" "raop_port a = 0"
    and raop: "dev_protocol p = ''raop''" "raop_port p = dev_port p" "dev_port p \<noteq> 0" "airplay_port p = 0"
    and same: "dev_address a = dev_address p" "dev_mac a = m" "dev_mac p = m" "normalize_mac m = m"
      "is_busy a = is_busy p"
    and "ap = snd (upsert t2 (fst (upsert t1 r a)) p)" "pa = snd (upsert t2' (fst (upsert t1' r p)) a)"
  shows "dev_protocol ap = ''airplay2'' \<and> dev_protocol pa = ''airplay2''
       \<and> dev_port ap = dev_port a \<and> dev_port pa = dev_port a
       \<and> airplay_port ap = dev_port a \<and> airplay_port pa = dev_port a
       \<and> raop_port ap = dev_port p \<and> raop_port pa = dev_port p
       \<and> dev_mac ap = dev_mac pa \<and> dev_address ap = dev_address pa
       \<and> requires_password ap = requires_password pa \<and> is_busy ap = is_busy pa"
proof -
  have pw: "requires_password (stamp t x) = requires_password x" for t x
    by (simp add: stamp_def Let_def)
  have "ap = merge_device (upserted t1 r a) (stamp t2 p)" "pa = merge_device (upserted t1' r p) (stamp t2' a)"
    using key assms(16,17) by (simp_all add: upsert_eq upserted_def)
  moreover have "upserted t1 r a = (stamp t1 a)\<lparr>dev_id := dev_id (upserted t1 r a)\<rparr>"
    "upserted t1' r p = (stamp t1' p)\<lparr>dev_id := dev_id (upserted t1' r p)\<rparr>"
    using key by (simp_all add: upserted_def)
  ultimately obtain i j where
    "ap = merge_device ((stamp t1 a)\<lparr>dev_id := i\<rparr>) (stamp t2 p)"
    "pa = merge_device ((stamp t1' p)\<lparr>dev_id := j\<rparr>) (stamp t2' a)"
    by metis
  then show ?thesis
    using air raop same by (auto simp: merge_device_def pw)
qed

lemma merge_order_irrelevant_witness:
  "dev_port (snd (upsert 20 (fst (upsert 10 (new_registry 60)
       (homepod_airplay\<lparr>dev_mac := ''40:5B:D8:12:34:56''\<rparr>)))
       (homepod_raop\<lparr>dev_mac := ''40:5B:D8:12:34:56''\<rparr>))) = 7000"
proof -
  let ?m = "''40:5B:D8:12:34:56''"
  let ?a = "homepod_airplay\<lparr>dev_mac := ?m\<rparr>" and ?p = "homepod_raop\<lparr>dev_mac := ?m\<rparr>"
  have m: "normalize_mac ?m = ?m"
    using normalize_mac_idem [of "''40-5b-d8-12-34-56''"] by (simp only: normalize_mac_example)
  have key: "registry_key ?a = registry_key ?p" "devices (new_registry 60) (registry_key ?a) = None"
    by (simp_all add: registry_key_def m new_registry_def)
  note fields = homepod_airplay_def homepod_raop_def empty_device_def
  have air: "dev_protocol ?a = ''airplay2''" "airplay_port ?a = dev_port ?a" "dev_port ?a \<noteq> 0" "raop_port ?a = 0"
    and raop: "dev_protocol ?p = ''raop''" "raop_port ?p = dev_port ?p" "dev_port ?p \<noteq> 0" "airplay_port ?p = 0"
    and same: "dev_address ?a = dev_address ?p" "dev_mac ?a = ?m" "dev_mac ?p = ?m"
      "is_busy ?a = is_busy ?p" and port: "dev_port ?a = 7000"
    by (simp_all add: fields)
  show ?thesis
    using merge_order_irrelevant [OF key air raop same(1-3) m same(4) refl refl, of 20 10 20 10] port
    by simp
qed

subsection \<open>Expiry\<close>

lemma swept_Some:
  "devices (fst (sweep now ord r)) k = Some d \<longleftrightarrow>
   devices r k = Some d \<and> \<not> (0 < reg_ttl r \<and> expired now (reg_ttl r) d)"
  by (cases "devices r k") (auto simp: sweep_devices)

lemma swept_None:
  "devices r k = Some d \<and> devices (fst (sweep now ord r)) k = None
   \<longleftrightarrow> devices r k = Some d \<and> 0 < reg_ttl r \<and> expired now (reg_ttl r) d"
  by (cases "devices r k") (auto simp: sweep_devices)

text \<open>
  A sweep removes exactly the announced entries that were last seen more than the TTL ago.
  Every other entry stays as it was, the devices it returns are the ones removed, and without a
  positive TTL nothing ever expires.
\<close>

lemma sweep_exact:
  assumes "enumerates ord (devices r)"
  shows "(\<forall>k d. devices (fst (sweep now ord r)) k = Some d \<longleftrightarrow>
            devices r k = Some d
            \<and> (reg_ttl r \<le> 0 \<or> dev_source d = source_static \<or> last_seen d = 0
               \<or> now - last_seen d \<le> reg_ttl r))
       \<and> set (snd (sweep now ord r)) =
           {d. \<exists>k. devices r k = Some d \<and> devices (fst (sweep now ord r)) k = None}"
proof (intro conjI allI)
  fix k d
  show "devices (fst (sweep now ord r)) k = Some d \<longleftrightarrow>
      devices r k = Some d
      \<and> (reg_ttl r \<le> 0 \<or> dev_source d = source_static \<or> last_seen d = 0 \<or> now - last_seen d \<le> reg_ttl r)"
    unfolding swept_Some expired_def by (simp only: not_less de_Morgan_conj not_not) linarith
next
  have "set (snd (sweep now ord r)) = {d. d \<in> ran (devices r) \<and> 0 < reg_ttl r \<and> expired now (reg_ttl r) d}"
    by (simp add: sweep_def set_map_filter_ord [OF assms])
  then show "set (snd (sweep now ord r)) =
      {d. \<exists>k. devices r k = Some d \<and> devices (fst (sweep now ord r)) k = None}"
    unfolding ran_def swept_None by blast
qed

lemma sweep_exact_witness:
  "devices (fst (sweep 100 [''a'', ''b'']
      \<lparr>devices = [''a'' \<mapsto> homepod_raop, ''b'' \<mapsto> homepod_airplay], reg_ttl = 85\<rparr>)) ''b'' = Some homepod_airplay"
proof -
  have "enumerates [''a'', ''b'']
      (devices \<lparr>devices = [''a'' \<mapsto> homepod_raop, ''b'' \<mapsto> homepod_airplay], reg_ttl = 85\<rparr>)"
    by (auto simp: enumerates_def)
  from sweep_exact [OF this, of 100] show ?thesis
    by (simp add: homepod_airplay_def)
qed

text \<open>
  A statically registered speaker is not safe from expiry.  One announcement that falls on its
  key (a receiver that publishes no hardware address, with the same address) turns the entry into an
  mDNS entry, and the next sweep after the TTL removes it.
\<close>

lemma static_entry_downgraded:
  assumes "devices r k = Some d" "dev_source d = source_static" "0 < reg_ttl r"
    and "registry_key obs = k" "dev_source obs = source_mdns" "last_seen obs = t" "t \<noteq> 0"
    and "reg_ttl r < now - t"
  shows "dev_source (snd (upsert t r obs)) = source_mdns
       \<and> devices (fst (sweep now ord (fst (upsert t r obs)))) k = None"
proof -
  have "source_mdns \<noteq> source_static" "source_mdns \<noteq> []"
    by (simp_all add: source_mdns_def source_static_def)
  then show ?thesis
    using assms by (simp add: upsert_eq upserted_def merge_device_def sweep_devices expired_def)
qed

text \<open>
  The witness is reachable: an address of twelve digits, such as 192.168.100.100, reads as a
  hardware address once its dots are gone, so the key of the static entry is that of any receiver
  at this address which announces no MAC.
\<close>

lemma static_key_example:
  "registry_key (static_observation ''192.168.100.100'' ''192.168.100.100'' 7000) = ''19:21:68:10:01:00''"
  "registry_key (empty_device\<lparr>dev_id := ''192.168.100.100@Kitchen''\<rparr>) = ''19:21:68:10:01:00''"
proof -
  have "trim_space ''192.168.100.100'' = ''192.168.100.100''"
    by (rule trim_space_id) (simp_all add: edge_byte_def space_runes_def)
  then have "normalize_mac ''192.168.100.100'' = ''19:21:68:10:01:00''"
    by (simp add: normalize_mac_def strip_separators_def is_hex_digit_def to_upper_def upper_char_def
        is_lower_def)
  then show "registry_key (static_observation ''192.168.100.100'' ''192.168.100.100'' 7000) = ''19:21:68:10:01:00''"
    and "registry_key (empty_device\<lparr>dev_id := ''192.168.100.100@Kitchen''\<rparr>) = ''19:21:68:10:01:00''"
    by (simp_all add: registry_key_def static_observation_def empty_device_def mac_from_instance_name_def)
qed

lemma static_entry_downgraded_witness:
  "devices (fst (sweep 200 [] (fst (upsert 100
      (fst (upsert 1 (new_registry 60) (static_observation ''192.168.100.100'' ''192.168.100.100'' 7000)))
      (empty_device\<lparr>dev_id := ''192.168.100.100@Kitchen'', dev_source := source_mdns, last_seen := 100\<rparr>)))))
     ''19:21:68:10:01:00'' = None"
proof -
  let ?s = "static_observation ''192.168.100.100'' ''192.168.100.100'' 7000"
  let ?o = "empty_device\<lparr>dev_id := ''192.168.100.100@Kitchen'', dev_source := source_mdns, last_seen := 100\<rparr>"
  have "registry_key ?o = registry_key (empty_device\<lparr>dev_id := ''192.168.100.100@Kitchen''\<rparr>)"
    by (simp add: registry_key_def)
  then show ?thesis
    using static_entry_downgraded [of "fst (upsert 1 (new_registry 60) ?s)" "''19:21:68:10:01:00''"
        "stamp 1 ?s" ?o 100 200 "[]"] static_key_example
    by (simp add: upsert_eq upserted_def new_registry_def static_observation_def source_static_def)
qed

subsection \<open>Look-ups\<close>

definition answers_to :: "string \<Rightarrow> string \<Rightarrow> device \<Rightarrow> bool" where
  "answers_to ident k d \<longleftrightarrow> k = ident \<or> get_matches ident k d"

text \<open>
  \<open>Get\<close> resolves an identifier if and only if some entry answers to it (as its key, its ID, its
  hardware address, its name or its address), whatever the order in which the map is ranged over;
  what it returns is such an entry, and it is the entry meant whenever no other one answers.
\<close>

lemma registry_get_spec:
  assumes "enumerates ord (devices r)" "ident \<noteq> []"
  shows "(registry_get ord r ident = None \<longleftrightarrow> (\<forall>k d. devices r k = Some d \<longrightarrow> \<not> answers_to ident k d))
       \<and> (\<forall>d. registry_get ord r ident = Some d \<longrightarrow> (\<exists>k. devices r k = Some d \<and> answers_to ident k d))
       \<and> (\<forall>k d. devices r k = Some d \<and> answers_to ident k d
             \<and> (\<forall>k' d'. devices r k' = Some d' \<and> answers_to ident k' d' \<longrightarrow> k' = k)
             \<longrightarrow> registry_get ord r ident = Some d)"
proof -
  have none: "registry_get ord r ident = None \<longleftrightarrow> (\<forall>k d. devices r k = Some d \<longrightarrow> \<not> answers_to ident k d)"
  proof (cases "devices r ident")
    case None
    have "registry_get ord r ident = None \<longleftrightarrow> find_key (get_matches ident) ord (devices r) = None"
    proof (cases "find_key (get_matches ident) ord (devices r)")
      case (Some k)
      from find_key_Some [OF Some] obtain v where "devices r k = Some v"
        by blast
      with Some None assms(2) show ?thesis
        by (simp add: registry_get_def)
    qed (use None assms(2) in \<open>simp add: registry_get_def\<close>)
    with None show ?thesis
      by (auto simp: find_key_None [OF assms(1)] answers_to_def)
  next
    case (Some d)
    then show ?thesis
      using assms(2) by (auto simp: registry_get_def answers_to_def)
  qed
  have some: "\<exists>k. devices r k = Some d \<and> answers_to ident k d" if "registry_get ord r ident = Some d" for d
  proof (cases "devices r ident")
    case None
    with that assms(2) obtain k where "find_key (get_matches ident) ord (devices r) = Some k" "devices r k = Some d"
      by (auto simp: registry_get_def bind_eq_Some_conv)
    then show ?thesis
      using find_key_Some by (fastforce simp: answers_to_def)
  next
    case (Some d')
    with that assms(2) show ?thesis
      by (auto simp: registry_get_def answers_to_def)
  qed
  have the_one: "registry_get ord r ident = Some d"
    if "devices r k = Some d" "answers_to ident k d"
      "\<forall>k' d'. devices r k' = Some d' \<and> answers_to ident k' d' \<longrightarrow> k' = k" for k d
  proof (cases "registry_get ord r ident")
    case None
    with none that(1,2) show ?thesis
      by blast
  next
    case (Some d')
    from some [OF this] that(3) have "devices r k = Some d'"
      by blast
    with Some that(1) show ?thesis
      by simp
  qed
  show ?thesis
    using none some the_one by blast
qed

lemma registry_get_spec_witness:
  "registry_get [''b'', ''a''] \<lparr>devices = [''a'' \<mapsto> homepod_raop, ''b'' \<mapsto> empty_device], reg_ttl = 0\<rparr>
     ''192.168.1.105'' \<noteq> None"
proof -
  let ?r = "\<lparr>devices = [''a'' \<mapsto> homepod_raop, ''b'' \<mapsto> empty_device], reg_ttl = 0\<rparr>"
  have e: "enumerates [''b'', ''a''] (devices ?r)"
    by (auto simp: enumerates_def)
  have "devices ?r ''a'' = Some homepod_raop" "answers_to ''192.168.1.105'' ''a'' homepod_raop"
    by (simp_all add: answers_to_def get_matches_def homepod_raop_def)
  then show ?thesis
    using conjunct1 [OF registry_get_spec [OF e, of "''192.168.1.105''"]] by fastforce
qed

lemma insert_device_mset [simp]: "mset (insert_device d ds) = add_mset d (mset ds)"
  by (induction ds) auto

lemma device_less_asym: "device_less a b \<Longrightarrow> \<not> device_less b a"
  by (auto simp: device_less_def split: if_splits)

lemma device_less_neg_trans: "\<not> device_less b a \<Longrightarrow> \<not> device_less c b \<Longrightarrow> \<not> device_less c a"
  by (auto simp: device_less_def not_less split: if_splits)

lemma insert_device_sorted:
  assumes "sorted_wrt (\<lambda>a b. \<not> device_less b a) ds"
  shows "sorted_wrt (\<lambda>a b. \<not> device_less b a) (insert_device d ds)"
  using assms
proof (induction ds)
  case (Cons e es)
  have m: "set (insert_device d es) = insert d (set es)"
    by (metis insert_device_mset set_mset_add_mset_insert set_mset_mset)
  show ?case
  proof (cases "device_less e d")
    case True
    then show ?thesis
      using Cons by (simp add: m device_less_asym)
  next
    case False
    have "\<forall>x \<in> set es. \<not> device_less x d"
      using Cons.prems False device_less_neg_trans [of e d] by simp
    with False Cons.prems show ?thesis
      by simp
  qed
qed simp

text \<open>
  \<open>List\<close> is a snapshot of the whole table: it holds every entry once and no other, sorted by name
  and then by ID, in whatever order the map was ranged over.
\<close>

lemma registry_list_sorted_snapshot:
  assumes "enumerates ord (devices r)"
  shows "sorted_wrt (\<lambda>a b. \<not> device_less b a) (registry_list ord r)
       \<and> set (registry_list ord r) = ran (devices r)
       \<and> length (registry_list ord r) = registry_count r"
proof -
  have sorted: "sorted_wrt (\<lambda>a b. \<not> device_less b a) (foldr insert_device ds [])" for ds
    by (induction ds) (simp_all add: insert_device_sorted)
  have perm: "mset (foldr insert_device ds []) = mset ds" for ds
    by (induction ds) simp_all
  have len: "set ks \<subseteq> dom m \<Longrightarrow> length (List.map_filter m ks) = length ks" for ks and m :: "string \<rightharpoonup> device"
    by (induction ks) (auto simp: List.map_filter_simps)
  have "length (registry_list ord r) = length (List.map_filter (devices r) ord)"
    unfolding registry_list_def by (metis perm size_mset)
  also have "\<dots> = card (set ord)"
    using assms len [of ord "devices r"] distinct_card [of ord] by (simp add: enumerates_def)
  finally have "length (registry_list ord r) = registry_count r"
    using assms by (simp add: enumerates_def registry_count_def)
  moreover have "set (registry_list ord r) = ran (devices r)"
    unfolding registry_list_def by (metis perm set_map_filter_ord [OF assms] set_mset_mset)
  ultimately show ?thesis
    by (simp add: registry_list_def sorted)
qed

lemma registry_list_sorted_snapshot_witness:
  "set (registry_list [''b'', ''a''] \<lparr>devices = [''a'' \<mapsto> homepod_raop, ''b'' \<mapsto> empty_device], reg_ttl = 0\<rparr>)
     = {homepod_raop, empty_device}"
proof -
  have e: "enumerates [''b'', ''a'']
      (devices \<lparr>devices = [''a'' \<mapsto> homepod_raop, ''b'' \<mapsto> empty_device], reg_ttl = 0\<rparr>)"
    by (auto simp: enumerates_def)
  show ?thesis
    using registry_list_sorted_snapshot [OF e] by (simp add: ran_map_upd insert_commute)
qed

end
