(* ===== verification/Mdns.thy ===== *)
theory Mdns
  imports Registry
begin

text \<open>
  From an mDNS service entry to an observation of a device, internal/discovery/mdns.go.

  \<open>service_entry\<close> holds the fields of \<open>zeroconf.ServiceEntry\<close> that \<open>ingest\<close> reads; an address is
  the text of a \<open>net.IP\<close>, or \<open>None\<close> for a nil one.  The browse loops around \<open>ingest\<close> are in theory
  Browse.
\<close>

record service_entry =
  se_instance :: string
  se_host_name :: string
  se_port :: int
  se_text :: "string list"
  se_ipv4 :: "string option list"
  se_ipv6 :: "string option list"

definition service_airplay :: string where "service_airplay = ''_airplay._tcp''"
definition service_raop :: string where "service_raop = ''_raop._tcp''"

definition first_ipv4 :: "service_entry \<Rightarrow> string" where
  "first_ipv4 e =
     (case se_ipv4 e of
        Some ip # _ \<Rightarrow> ip
      | _ \<Rightarrow> (case se_ipv6 e of Some ip # _ \<Rightarrow> ip | _ \<Rightarrow> []))"

text \<open>One \<open>key=value\<close> field of the TXT record.\<close>

definition txt_field :: "(string \<rightharpoonup> string) \<Rightarrow> string \<Rightarrow> (string \<rightharpoonup> string)" where
  "txt_field m field =
     (case cut (CHR ''='') field of (key, v, found) \<Rightarrow>
        if \<not> found then m else m(to_lower (trim_space key) \<mapsto> trim_space v))"

definition parse_txt :: "string list \<Rightarrow> (string \<rightharpoonup> string)" where
  "parse_txt text_fields = foldl txt_field Map.empty text_fields"

subsection \<open>Flags\<close>

text \<open>The value of a lower-case hexadecimal digit; the loop stops with 0 at anything else.\<close>

definition hex_digit_value :: "char \<Rightarrow> int option" where
  "hex_digit_value c =
     (if CHR ''0'' \<le> c \<and> c \<le> CHR ''9'' then Some (of_char c - 48)
      else if CHR ''a'' \<le> c \<and> c \<le> CHR ''f'' then Some (of_char c - 97 + 10)
      else None)"

fun hex_loop :: "int \<Rightarrow> string \<Rightarrow> int" where
  "hex_loop acc [] = acc"
| "hex_loop acc (c # s) =
     (case hex_digit_value c of
        None \<Rightarrow> 0
      | Some digit \<Rightarrow> hex_loop (int64 (acc * 16 + digit)) s)"

definition parse_hex_mask :: "string \<Rightarrow> int" where
  "parse_hex_mask flags0 =
     (let flags = trim_space flags0
      in if flags = [] then 0
         else hex_loop 0 (trim_prefix (to_lower flags) ''0x''))"

definition password_required :: "(string \<rightharpoonup> string) \<Rightarrow> bool" where
  "password_required m \<longleftrightarrow>
     (if equal_fold (txt_get m ''pw'') ''true'' \<or> txt_get m ''pw'' = ''1'' then True
      else (let sf = txt_get m ''sf'';
                flags = (if trim_space sf = [] then txt_get m ''flags'' else sf)
            in parse_hex_mask flags AND 0x80 \<noteq> 0))"

subsection \<open>Instance labels\<close>

fun unescape :: "string \<Rightarrow> string" where
  "unescape [] = []"
| "unescape (c # s) =
     (if c \<noteq> CHR 0x5C then c # unescape s
      else (case s of
              [] \<Rightarrow> []
            | d # t \<Rightarrow>
                if length s \<ge> 3 \<and> list_all is_digit (take 3 s) \<and> atoi (take 3 s) \<noteq> None
                then char_of (nat (the (atoi (take 3 s)) mod 256)) # unescape (drop 3 s)
                else d # unescape t))"

definition unescape_dns_label :: "string \<Rightarrow> string" where
  "unescape_dns_label v = (if CHR 0x5C \<notin> set v then v else unescape v)"

subsection \<open>Observations\<close>

text \<open>The observation of \<open>ingest\<close> up to its name, by service; \<open>None\<close> for any other service.\<close>

definition observe_service :: "time \<Rightarrow> string \<Rightarrow> service_entry \<Rightarrow> device option" where
  "observe_service now service e =
     (let m = parse_txt (se_text e);
          inst = unescape_dns_label (trim_suffix (se_instance e) ''.'');
          obs = empty_device\<lparr>dev_address := first_ipv4 e, dev_port := se_port e, dev_txt := m,
                  last_seen := now, dev_source := source_mdns\<rparr>
      in if service = service_airplay then
           Some (obs\<lparr>airplay_port := se_port e,
                     dev_name := (if trim_space inst = [] then se_host_name e else trim_space inst),
                     dev_mac := normalize_mac (txt_get m ''deviceid''),
                     dev_model := txt_get m ''model'',
                     dev_features := txt_get m ''features'',
                     dev_protocol := ''airplay2'',
                     requires_password := password_required m\<rparr>)
         else if service = service_raop then
           Some (obs\<lparr>raop_port := se_port e,
                     dev_mac := mac_from_instance_name inst,
                     dev_name := (case cut (CHR ''@'') inst of (_, name, found) \<Rightarrow>
                                    if found then trim_space name else trim_space inst),
                     dev_model := txt_get m ''am'',
                     requires_password :=
                       equal_fold (txt_get m ''pw'') ''true'' \<or> txt_get m ''pw'' = ''1'' \<or> password_required m,
                     dev_protocol := ''raop''\<rparr>)
         else None)"

text \<open>The defaults of the name and of the ID.\<close>

definition name_observation :: "device \<Rightarrow> device" where
  "name_observation obs =
     (let obs = (if dev_name obs = [] then obs\<lparr>dev_name := dev_address obs\<rparr> else obs)
      in if dev_id obs \<noteq> [] then obs
         else if dev_mac obs \<noteq> [] then obs\<lparr>dev_id := dev_mac obs @ ''@'' @ dev_name obs\<rparr>
         else obs\<lparr>dev_id := dev_address obs @ ''@'' @ dev_name obs\<rparr>)"

definition observe :: "time \<Rightarrow> string \<Rightarrow> service_entry \<Rightarrow> device option" where
  "observe now service e =
     (if first_ipv4 e = [] then None
      else map_option name_observation (observe_service now service e))"

definition ingest :: "time \<Rightarrow> registry \<Rightarrow> string \<Rightarrow> service_entry option \<Rightarrow> registry" where
  "ingest now r service entry =
     (case entry of
        None \<Rightarrow> r
      | Some e \<Rightarrow>
          (case observe now service e of
             None \<Rightarrow> r
           | Some obs \<Rightarrow> fst (upsert now r obs)))"

subsection \<open>The password bit\<close>

text \<open>The value of a hexadecimal numeral, unbounded.\<close>

definition hex_value :: "string \<Rightarrow> int" where
  "hex_value s = foldl (\<lambda>v c. v * 16 + the (hex_digit_value c)) 0 s"

lemma hex_digit_chars:
  assumes "is_hex_digit c"
  shows "c \<in> set ''0123456789abcdefABCDEF''"
proof -
  have le: "a \<le> b \<longleftrightarrow> (of_char a :: nat) \<le> of_char b" for a b :: char
    by (simp add: less_eq_char_def)
  define n :: nat where "n = of_char c"
  have "n \<in> {48..<58} \<union> {97..<103} \<union> {65..<71}"
    using assms by (auto simp: is_hex_digit_def le n_def)
  also have "\<dots> = set ([48..<58] @ [97..<103] @ [65..<71])"
    by (simp only: set_append set_upt Un_assoc)
  finally have "char_of n \<in> set (map char_of ([48..<58] @ [97..<103] @ [65..<71]))"
    by (simp only: set_map) (rule imageI)
  moreover have "map char_of ([48..<58] @ [97..<103] @ [65..<71]) = ''0123456789abcdefABCDEF''"
    by code_simp
  moreover have "char_of n = c"
    by (simp add: n_def)
  ultimately show ?thesis
    by simp
qed

lemma lower_hex_digit: "is_hex_digit c \<Longrightarrow> hex_digit_value (lower_char c) \<noteq> None"
  by (drule hex_digit_chars) (auto simp: hex_digit_value_def lower_char_def is_upper_def)

lemma hex_digit_not_edge: "is_hex_digit c \<Longrightarrow> \<not> edge_byte c"
  by simp

lemma trim_hex: "list_all is_hex_digit s \<Longrightarrow> s \<noteq> [] \<Longrightarrow> p \<in> {[], ''0x'', ''0X''} \<Longrightarrow> trim_space (p @ s) = p @ s"
proof (rule trim_space_id)
  assume s: "list_all is_hex_digit s" "s \<noteq> []" and p: "p \<in> {[], ''0x'', ''0X''}"
  have "is_hex_digit (hd s)" "is_hex_digit (last s)" "is_hex_digit (CHR ''0'')"
    using s by (auto simp: list_all_iff is_hex_digit_def[of "CHR ''0''"])
  moreover have "hd (p @ s) = hd s \<or> hd (p @ s) = CHR ''0''" "last (p @ s) = last s"
    using p s by auto
  ultimately show "\<not> edge_byte (hd (p @ s))" "\<not> edge_byte (last (p @ s))"
    by (metis hex_digit_not_edge)+
qed simp

lemma take64_int64: "take_bit 64 (int64 x) = take_bit 64 x"
  unfolding int64_def by (rule bit_eqI) (auto simp: bit_simps)

lemma fold_hex_cong:
  "take_bit 64 a = take_bit 64 b \<Longrightarrow>
   take_bit 64 (foldl (\<lambda>v c. v * 16 + the (hex_digit_value c)) a s)
   = take_bit 64 (foldl (\<lambda>v c. v * 16 + the (hex_digit_value c)) b s)"
proof (induction s arbitrary: a b)
  case (Cons d t)
  have "take_bit 64 (a * 16 + x) = take_bit 64 (b * 16 + x)" for x
    using Cons.prems unfolding take_bit_eq_mod by (intro mod_add_cong mod_mult_cong) simp_all
  from Cons.IH [OF this] show ?case
    by simp
qed simp

lemma hex_loop_take:
  assumes "list_all (\<lambda>c. hex_digit_value c \<noteq> None) s"
  shows "take_bit 64 (hex_loop acc s) = take_bit 64 (foldl (\<lambda>v c. v * 16 + the (hex_digit_value c)) acc s)"
  using assms
proof (induction s arbitrary: acc)
  case (Cons c s)
  then obtain y where y: "hex_digit_value c = Some y"
    by auto
  have "take_bit 64 (hex_loop acc (c # s)) = take_bit 64 (hex_loop (int64 (acc * 16 + y)) s)"
    by (simp add: y)
  also have "\<dots> = take_bit 64 (foldl (\<lambda>v c. v * 16 + the (hex_digit_value c)) (int64 (acc * 16 + y)) s)"
    using Cons by simp
  also have "\<dots> = take_bit 64 (foldl (\<lambda>v c. v * 16 + the (hex_digit_value c)) (acc * 16 + y) s)"
    by (rule fold_hex_cong [OF take64_int64])
  finally show ?case
    by (simp add: y)
qed simp

lemma bit_of_take64: "n < 64 \<Longrightarrow> take_bit 64 (x :: int) = take_bit 64 y \<Longrightarrow> bit x n = bit y n"
  by (metis bit_take_bit_iff)

lemma parse_hex_mask_bit:
  assumes "list_all is_hex_digit s" "s \<noteq> []" "p \<in> {[], ''0x'', ''0X''}" "n < 64"
  shows "bit (parse_hex_mask (p @ s)) n \<longleftrightarrow> bit (hex_value (to_lower s)) n"
proof -
  have hex: "list_all (\<lambda>c. hex_digit_value c \<noteq> None) (to_lower s)"
    using assms(1) lower_hex_digit by (auto simp: to_lower_def list_all_iff)
  have prefix: "trim_prefix (to_lower (p @ s)) ''0x'' = to_lower s"
  proof (cases "p = []")
    case True
    have "hex_digit_value (CHR ''x'') = None"
      by (simp add: hex_digit_value_def)
    with hex have "\<not> prefix ''0x'' (to_lower s)"
      by (auto simp: prefix_def list_all_iff)
    with True show ?thesis
      by (simp add: trim_prefix_def)
  next
    case False
    with assms(3) have "to_lower p = ''0x''"
      by (auto simp: to_lower_def lower_char_def is_upper_def)
    then show ?thesis
      by (simp add: trim_prefix_def to_lower_def)
  qed
  have "parse_hex_mask (p @ s) = hex_loop 0 (to_lower s)"
    using assms(2) by (simp add: parse_hex_mask_def trim_hex [OF assms(1-3)] prefix Let_def)
  then show ?thesis
    using bit_of_take64 [OF assms(4) hex_loop_take [OF hex, of 0]] by (simp only: hex_value_def)
qed

text \<open>
  The password bit is read correctly from a status mask of any length: with the mask in \<open>sf\<close>
  in either spelling of its prefix or none and in either case, the speaker counts as protected
  exactly if bit 7 of the unbounded value is set, although the 64-bit accumulator may overflow.
\<close>

lemma password_flag_any_width:
  assumes "txt_get m ''sf'' = p @ s" "p \<in> {[], ''0x'', ''0X''}" "list_all is_hex_digit s" "s \<noteq> []"
    and "\<not> equal_fold (txt_get m ''pw'') ''true''" "txt_get m ''pw'' \<noteq> ''1''"
  shows "password_required m \<longleftrightarrow> bit (hex_value (to_lower s)) 7"
proof -
  have "trim_space (txt_get m ''sf'') \<noteq> []"
    using trim_hex [OF assms(3,4,2)] assms(1,4) by simp
  then have "password_required m \<longleftrightarrow> parse_hex_mask (p @ s) AND 2 ^ 7 \<noteq> 0"
    using assms(1,5,6) by (simp add: password_required_def Let_def)
  also have "\<dots> \<longleftrightarrow> bit (parse_hex_mask (p @ s)) 7"
    using and_exp_eq_0_iff_not_bit [of "parse_hex_mask (p @ s)" 7] by simp
  finally show ?thesis
    using parse_hex_mask_bit [OF assms(3,4,2), of 7] by simp
qed

lemma password_flag_any_width_witness:
  "password_required [''sf'' \<mapsto> ''0x100000000000000000080'']"
proof -
  have "bit (hex_value (to_lower ''100000000000000000080'')) 7"
    by (simp add: hex_value_def to_lower_def lower_char_def is_upper_def hex_digit_value_def bit_iff_odd)
  then show ?thesis
    using password_flag_any_width [of "[''sf'' \<mapsto> ''0x100000000000000000080'']" "''0x''" "''100000000000000000080''"]
    by (simp add: txt_get_def is_hex_digit_def equal_fold_def to_lower_def lower_char_def is_upper_def)
qed

subsection \<open>Labels survive their escaping\<close>

text \<open>
  A responder writes each byte of a label raw, behind a backslash, or as a backslash and three
  decimal digits.  A byte may be raw unless it is a backslash, and stand behind a backslash unless
  it is a digit.
\<close>

datatype label_style = Raw | Quoted | Decimal

definition dec3 :: "nat \<Rightarrow> string" where
  "dec3 n = [digit_char (n div 100), digit_char (n div 10 mod 10), digit_char (n mod 10)]"

fun escape_char :: "char \<times> label_style \<Rightarrow> string" where
  "escape_char (c, Raw) = [c]"
| "escape_char (c, Quoted) = [CHR 0x5C, c]"
| "escape_char (c, Decimal) = CHR 0x5C # dec3 (of_char c)"

fun style_ok :: "char \<times> label_style \<Rightarrow> bool" where
  "style_ok (c, Raw) \<longleftrightarrow> c \<noteq> CHR 0x5C"
| "style_ok (c, Quoted) \<longleftrightarrow> \<not> is_digit c"
| "style_ok (c, Decimal) \<longleftrightarrow> True"

lemma of_char_bound: "(of_char c :: nat) < 256"
  by (cases c) (simp add: of_char_def horner_sum_bound)

lemma atoi_dec3: "n < 256 \<Longrightarrow> list_all is_digit (dec3 n) \<and> atoi (dec3 n) = Some (int n)"
proof -
  assume n: "n < 256"
  have hundreds: "n div 100 = n div 10 div 10"
    by (simp add: div_mult2_eq [symmetric])
  have "digits_val (dec3 n) = n"
    using n hundreds div_mult_mod_eq [of "n div 10" 10] div_mult_mod_eq [of n 10]
    by (simp add: dec3_def digits_val_def)
  moreover have "list_all is_digit (dec3 n)"
    using n by (simp add: dec3_def)
  moreover have "dec3 n \<noteq> []"
    by (simp add: dec3_def)
  ultimately show ?thesis
    using n by (simp add: atoi_def split_sign_digits in_int64_def)
qed

lemma unescape_escaped:
  assumes "style_ok x"
  shows "unescape (escape_char x @ s) = fst x # unescape s"
proof (cases x)
  case (Pair c st)
  show ?thesis
  proof (cases st)
    case Decimal
    define n :: nat where "n = of_char c"
    have n: "list_all is_digit (dec3 n)" "atoi (dec3 n) = Some (int n)"
      using atoi_dec3 [of n] of_char_bound [of c] by (simp_all add: n_def)
    obtain d e f where def: "dec3 n = [d, e, f]"
      by (simp add: dec3_def)
    have "char_of (nat (int n mod 256)) = c"
      by (simp add: n_def nat_mod_distrib)
    with n show ?thesis
      by (simp add: Pair Decimal n_def [symmetric] def)
  qed (use assms in \<open>auto simp: Pair list_all_iff split: list.split\<close>)
qed

text \<open>
  The instance label is recovered byte for byte from every DNS-SD presentation of it, whichever
  bytes the responder chose to escape and in which of the two styles.
\<close>

lemma unescape_presentation:
  assumes "list_all style_ok label"
  shows "unescape_dns_label (concat (map escape_char label)) = map fst label"
proof -
  have "unescape (concat (map escape_char label)) = map fst label"
    using assms by (induction label) (simp_all add: unescape_escaped)
  moreover have "CHR 0x5C \<notin> set s \<Longrightarrow> unescape s = s" for s
    by (induction s) auto
  ultimately show ?thesis
    by (metis unescape_dns_label_def)
qed

lemma unescape_presentation_witness:
  "unescape_dns_label (''A'' @ [CHR 0x5C] @ ''@'' @ [CHR 0x5C] @ ''195'') = [CHR ''A'', CHR ''@'', CHR 0xC3]"
  using unescape_presentation [of "[(CHR ''A'', Raw), (CHR ''@'', Quoted), (CHR 0xC3, Decimal)]"]
  by (simp add: is_digit_def dec3_def digit_char_def)

subsection \<open>Both services of a speaker reach one entry\<close>

lemma name_observation_fields [simp]:
  "dev_mac (name_observation obs) = dev_mac obs" "dev_port (name_observation obs) = dev_port obs"
  "airplay_port (name_observation obs) = airplay_port obs" "raop_port (name_observation obs) = raop_port obs"
  "dev_protocol (name_observation obs) = dev_protocol obs" "dev_address (name_observation obs) = dev_address obs"
  "dev_source (name_observation obs) = dev_source obs" "last_seen (name_observation obs) = last_seen obs"
  "dev_name (name_observation obs) = (if dev_name obs = [] then dev_address obs else dev_name obs)"
  by (simp_all add: name_observation_def Let_def)

lemma observe_fields:
  assumes "observe now service e = Some obs"
  shows "dev_address obs = first_ipv4 e" "first_ipv4 e \<noteq> []" "dev_port obs = se_port e"
    "service = service_airplay \<or> service = service_raop"
    "dev_source obs = source_mdns" "last_seen obs = now" "dev_name obs \<noteq> []"
  using assms
  by (auto simp: observe_def observe_service_def Let_def empty_device_def split: if_splits prod.splits)

lemma service_names [simp]: "service_raop \<noteq> service_airplay" "service_airplay \<noteq> service_raop"
  by (simp_all add: service_airplay_def service_raop_def)

lemma observe_airplay:
  assumes "observe now service_airplay e = Some obs"
  shows "airplay_port obs = se_port e" "raop_port obs = 0" "dev_protocol obs = ''airplay2''"
    "dev_mac obs = normalize_mac (txt_get (parse_txt (se_text e)) ''deviceid'')"
  using assms
  by (auto simp: observe_def observe_service_def Let_def empty_device_def split: if_splits prod.splits)

lemma observe_raop:
  assumes "observe now service_raop e = Some obs"
  shows "raop_port obs = se_port e" "airplay_port obs = 0" "dev_protocol obs = ''raop''"
    "dev_mac obs = mac_from_instance_name (unescape_dns_label (trim_suffix (se_instance e) ''.''))"
  using assms
  by (auto simp: observe_def observe_service_def Let_def empty_device_def split: if_splits prod.splits)

lemma observed: "first_ipv4 e \<noteq> [] \<Longrightarrow> service = service_airplay \<or> service = service_raop \<Longrightarrow>
  \<exists>obs. observe now service e = Some obs"
  by (auto simp: observe_def observe_service_def Let_def)

text \<open>The hardware address that an entry announces for its service.\<close>

definition announced_mac :: "string \<Rightarrow> service_entry \<Rightarrow> string" where
  "announced_mac service e =
     (if service = service_airplay then normalize_mac (txt_get (parse_txt (se_text e)) ''deviceid'')
      else mac_from_instance_name (unescape_dns_label (trim_suffix (se_instance e) ''.'')))"

lemma mac_from_instance_name_idem [simp]:
  "normalize_mac (mac_from_instance_name i) = mac_from_instance_name i"
  by (simp add: mac_from_instance_name_def split: prod.split)

lemma observe_mac:
  assumes "observe now service e = Some obs"
  shows "dev_mac obs = announced_mac service e" "normalize_mac (dev_mac obs) = dev_mac obs"
  using observe_fields(4) [OF assms] observe_airplay(4) observe_raop(4) assms
  by (auto simp: announced_mac_def)

text \<open>The entry after two announcements under one address that had none.\<close>

definition both_stored :: "time \<Rightarrow> time \<Rightarrow> registry \<Rightarrow> device \<Rightarrow> device \<Rightarrow> device" where
  "both_stored t1 t2 r a b =
     merge_device ((stamp t1 a)\<lparr>dev_id := dev_id (upserted t1 r a)\<rparr>) (stamp t2 b)"

lemma ingest_observed:
  assumes "observe t s e = Some obs" "announced_mac s e = m" "m \<noteq> []"
  shows "devices (ingest t r s (Some e)) = (devices r)(m \<mapsto> upserted t r obs)"
    "registry_key obs = m" "dev_mac obs = m" "normalize_mac m = m"
  using observe_mac [OF assms(1)] assms by (auto simp: ingest_def upsert_eq registry_key_def)

lemma ingest_both:
  assumes "observe t1 s1 e1 = Some a" "announced_mac s1 e1 = m" "m \<noteq> []"
    and "observe t2 s2 e2 = Some b" "announced_mac s2 e2 = m" "devices r m = None"
  shows "devices (ingest t2 (ingest t1 r s1 (Some e1)) s2 (Some e2)) = (devices r)(m \<mapsto> both_stored t1 t2 r a b)"
proof -
  note first = ingest_observed [OF assms(1-3)] and second = ingest_observed [OF assms(4,5,3)]
  have "upserted t1 r a = (stamp t1 a)\<lparr>dev_id := dev_id (upserted t1 r a)\<rparr>"
    using first(2) assms(6) by (simp add: upserted_def)
  then have "upserted t2 (ingest t1 r s1 (Some e1)) b = both_stored t1 t2 r a b"
    using first(1) second(2) by (simp add: upserted_def both_stored_def)
  then show ?thesis
    by (simp add: first(1) second(1))
qed

lemma both_stored_fields:
  assumes "dev_port a \<noteq> 0" "dev_port b \<noteq> 0" "dev_mac b = m" "normalize_mac m = m" "m \<noteq> []"
    and "airplay_port a = dev_port a \<and> raop_port a = 0 \<and> dev_protocol a = ''airplay2''
           \<and> raop_port b = dev_port b \<and> airplay_port b = 0 \<and> dev_protocol b = ''raop'' \<and> pa = dev_port a \<and> pr = dev_port b
       \<or> raop_port a = dev_port a \<and> airplay_port a = 0 \<and> dev_protocol a = ''raop''
           \<and> airplay_port b = dev_port b \<and> raop_port b = 0 \<and> dev_protocol b = ''airplay2'' \<and> pa = dev_port b \<and> pr = dev_port a"
  shows "airplay_port (both_stored t1 t2 r a b) = pa" "raop_port (both_stored t1 t2 r a b) = pr"
    "dev_port (both_stored t1 t2 r a b) = pa" "dev_protocol (both_stored t1 t2 r a b) = ''airplay2''"
    "dev_mac (both_stored t1 t2 r a b) = m"
  using assms by (auto simp: both_stored_def merge_device_def)

text \<open>
  When a speaker announces its AirPlay and its RAOP service under one hardware address, however
  either record spells it, both reach the entry of that address, whichever is browsed first: it has
  the control port and the streaming port, the AirPlay 2 protocol, and no other entry changes.
\<close>

lemma services_share_entry:
  assumes "first_ipv4 ea \<noteq> []" "first_ipv4 er \<noteq> []"
    and "announced_mac service_airplay ea = m" "announced_mac service_raop er = m" "m \<noteq> []"
    and "devices r m = None" "se_port ea \<noteq> 0" "se_port er \<noteq> 0"
    and "r' = ingest t2 (ingest t1 r service_airplay (Some ea)) service_raop (Some er)
       \<or> r' = ingest t2 (ingest t1 r service_raop (Some er)) service_airplay (Some ea)"
  shows "\<exists>d. devices r' = (devices r)(m \<mapsto> d) \<and> airplay_port d = se_port ea \<and> raop_port d = se_port er
       \<and> dev_port d = se_port ea \<and> dev_protocol d = ''airplay2'' \<and> dev_mac d = m"
  using assms(9)
proof
  assume r': "r' = ingest t2 (ingest t1 r service_airplay (Some ea)) service_raop (Some er)"
  obtain a b where o: "observe t1 service_airplay ea = Some a" "observe t2 service_raop er = Some b"
    using observed [OF assms(1)] observed [OF assms(2)] by metis
  note port = observe_fields(3) [OF o(1)] observe_fields(3) [OF o(2)] observe_airplay(1-3) [OF o(1)] observe_raop(1-3) [OF o(2)]
  note mac = ingest_observed(3,4) [OF o(2) assms(4,5)]
  have stored: "devices r' = (devices r)(m \<mapsto> both_stored t1 t2 r a b)"
    unfolding r' by (rule ingest_both [OF o(1) assms(3,5) o(2) assms(4,6)])
  have "dev_port a \<noteq> 0" "dev_port b \<noteq> 0"
    using port(1,2) assms(7,8) by simp_all
  note both_fields = both_stored_fields [OF this mac assms(5), of "se_port ea" "se_port er" t1 t2 r]
  have "airplay_port (both_stored t1 t2 r a b) = se_port ea" "raop_port (both_stored t1 t2 r a b) = se_port er"
    "dev_port (both_stored t1 t2 r a b) = se_port ea" "dev_protocol (both_stored t1 t2 r a b) = ''airplay2''"
    "dev_mac (both_stored t1 t2 r a b) = m"
    by (rule both_fields, use port in auto)+
  with stored show ?thesis
    by blast
next
  assume r': "r' = ingest t2 (ingest t1 r service_raop (Some er)) service_airplay (Some ea)"
  obtain a b where o: "observe t1 service_raop er = Some a" "observe t2 service_airplay ea = Some b"
    using observed [OF assms(1)] observed [OF assms(2)] by metis
  note port = observe_fields(3) [OF o(1)] observe_fields(3) [OF o(2)] observe_raop(1-3) [OF o(1)] observe_airplay(1-3) [OF o(2)]
  note mac = ingest_observed(3,4) [OF o(2) assms(3,5)]
  have stored: "devices r' = (devices r)(m \<mapsto> both_stored t1 t2 r a b)"
    unfolding r' by (rule ingest_both [OF o(1) assms(4,5) o(2) assms(3,6)])
  have "dev_port a \<noteq> 0" "dev_port b \<noteq> 0"
    using port(1,2) assms(7,8) by simp_all
  note both_fields = both_stored_fields [OF this mac assms(5), of "se_port ea" "se_port er" t1 t2 r]
  have "airplay_port (both_stored t1 t2 r a b) = se_port ea" "raop_port (both_stored t1 t2 r a b) = se_port er"
    "dev_port (both_stored t1 t2 r a b) = se_port ea" "dev_protocol (both_stored t1 t2 r a b) = ''airplay2''"
    "dev_mac (both_stored t1 t2 r a b) = m"
    by (rule both_fields, use port in auto)+
  with stored show ?thesis
    by blast
qed

lemma services_share_entry_witness:
  "\<exists>d. devices (ingest 2 (ingest 1 (new_registry 60) service_raop
        (Some \<lparr>se_instance = ''405BD8123456'' @ [CHR 0x5C] @ ''@Kitchen'', se_host_name = ''k.local.'', se_port = 5000,
           se_text = [], se_ipv4 = [Some ''10.0.0.2''], se_ipv6 = []\<rparr>)) service_airplay
        (Some \<lparr>se_instance = ''Kitchen'', se_host_name = ''k.local.'', se_port = 7000,
           se_text = [''deviceid=40-5b-d8-12-34-56''], se_ipv4 = [Some ''10.0.0.2''], se_ipv6 = []\<rparr>))
     = [''40:5B:D8:12:34:56'' \<mapsto> d] \<and> dev_port d = 7000 \<and> raop_port d = 5000"
proof -
  let ?ea = "\<lparr>se_instance = ''Kitchen'', se_host_name = ''k.local.'', se_port = 7000,
           se_text = [''deviceid=40-5b-d8-12-34-56''], se_ipv4 = [Some ''10.0.0.2''], se_ipv6 = []\<rparr>"
  let ?er = "\<lparr>se_instance = ''405BD8123456'' @ [CHR 0x5C] @ ''@Kitchen'', se_host_name = ''k.local.'', se_port = 5000,
           se_text = [], se_ipv4 = [Some ''10.0.0.2''], se_ipv6 = []\<rparr>"
  have t: "trim_space ''deviceid'' = ''deviceid''" "trim_space ''40-5b-d8-12-34-56'' = ''40-5b-d8-12-34-56''"
    "trim_space ''405BD8123456'' = ''405BD8123456''"
    by (rule trim_space_id; simp add: edge_byte_def space_runes_def)+
  have ma: "announced_mac service_airplay ?ea = ''40:5B:D8:12:34:56''"
    by (simp add: announced_mac_def parse_txt_def txt_field_def t to_lower_def lower_char_def is_upper_def
        txt_get_def normalize_mac_example)
  have "normalize_mac ''405BD8123456'' = ''40:5B:D8:12:34:56''"
    by (simp add: normalize_mac_def t strip_separators_def is_hex_digit_def to_upper_def upper_char_def is_lower_def)
  then have mr: "announced_mac service_raop ?er = ''40:5B:D8:12:34:56''"
    by (simp add: announced_mac_def unescape_dns_label_def trim_suffix_def suffix_def mac_from_instance_name_def
        is_digit_def)
  show ?thesis
    using services_share_entry [of ?ea ?er, OF _ _ ma mr, of "new_registry 60" _ 2 1]
    by (auto simp: first_ipv4_def new_registry_def)
qed
end
