(* ===== verification/Audio.thy ===== *)
theory Audio
  imports Volume
begin

text \<open>
  The PCM source, internal/audio/decoder.go: the ffmpeg command line, the end-of-stream convention
  of \<open>Read\<close>, the bounded diagnostics buffer, and the reader whose source can be exchanged while it
  plays.  What the decoder does to the ffmpeg process (closing the pipe,
  killing, waiting) is a list of effects here; theory Ffmpeg has the process they act on.
\<close>

subsection \<open>The format and the command line\<close>

record pcm_format =
  pf_rate :: int
  pf_channels :: int
  pf_depth :: int
  pf_big_endian :: bool

definition sample_format :: "pcm_format \<Rightarrow> string" where
  "sample_format f =
     (if pf_depth f = 24 \<and> pf_big_endian f then ''s32be''
      else if pf_depth f = 24 then ''s32le''
      else if pf_big_endian f then ''s16be''
      else ''s16le'')"

definition pcm_frame_size :: "pcm_format \<Rightarrow> int" where
  "pcm_frame_size f = pf_channels f * (if pf_depth f = 24 then 4 else go_div (pf_depth f) 8)"

definition pcm_codec :: "pcm_format \<Rightarrow> string" where
  "pcm_codec f =
     (if sample_format f = ''s16be'' then ''pcm_s16be''
      else if sample_format f = ''s32be'' then ''pcm_s32be''
      else if sample_format f = ''s32le'' then ''pcm_s32le''
      else ''pcm_s16le'')"

text \<open>
  \<open>headers\<close> lists the entries of the header map in the order it is ranged over.
\<close>

record decoder_options =
  ffmpeg_path :: string
  opt_format :: pcm_format
  start_position_ms :: int
  opt_headers :: "(string \<times> string) list"

definition decoder_format :: "pcm_format \<Rightarrow> pcm_format" where
  "decoder_format f =
     f\<lparr>pf_rate := (if pf_rate f \<le> 0 then 44100 else pf_rate f),
       pf_channels := (if pf_channels f \<le> 0 then 2 else pf_channels f),
       pf_depth := (if pf_depth f = 0 then 16 else pf_depth f)\<rparr>"

text \<open>\<open>strconv.FormatFloat(f, 'f', 3, 64)\<close> of a non-negative number.\<close>

definition format_float3 :: "rat \<Rightarrow> string" where
  "format_float3 x =
     (let u = nat (round_even (x * 1000)); frac = nat_str (u mod 1000)
      in nat_str (u div 1000) @ ''.'' @ replicate (3 - length frac) (CHR ''0'') @ frac)"

definition position_text :: "int \<Rightarrow> string" where
  "position_text ms = format_float3 (fl (fl (of_int ms) / 1000))"

definition header_text :: "(string \<times> string) list \<Rightarrow> string" where
  "header_text hs = concat (map (\<lambda>(k, v). k @ '': '' @ v @ [CHR 0x0D, CHR 0x0A]) hs)"

definition decoder_args :: "decoder_options \<Rightarrow> string \<Rightarrow> string list" where
  "decoder_args opts url =
     (let f = decoder_format (opt_format opts)
      in [''-hide_banner'', ''-loglevel'', ''warning'', ''-nostdin'', ''-reconnect'', ''1'',
          ''-reconnect_streamed'', ''1'', ''-reconnect_delay_max'', ''5'']
         @ (if opt_headers opts \<noteq> [] then [''-headers'', header_text (opt_headers opts)] else [])
         @ (if start_position_ms opts > 0 then [''-ss'', position_text (start_position_ms opts)] else [])
         @ [''-i'', url, ''-vn'', ''-map'', ''a:0?'', ''-acodec'', pcm_codec f, ''-f'', sample_format f,
            ''-ar'', itoa (pf_rate f), ''-ac'', itoa (pf_channels f), ''-''])"

definition decoder_command :: "decoder_options \<Rightarrow> string \<Rightarrow> (string \<times> string list) option" where
  "decoder_command opts url =
     (if trim_space url = [] then None
      else Some (if trim_space (ffmpeg_path opts) = [] then ''ffmpeg'' else trim_space (ffmpeg_path opts),
                 decoder_args opts url))"

text \<open>The number of bytes in a sample of a raw muxer, from the digits of its name.\<close>

definition muxer_bytes :: "string \<Rightarrow> int" where
  "muxer_bytes name = int (digits_val (take 2 (drop 1 name))) div 8"

text \<open>
  The codec, the muxer and the frame size that the rest of the bridge counts with agree: the
  codec is the one the raw muxer accepts, and for both depths the configuration allows a frame is
  as many bytes as the muxer writes for it.
\<close>

lemma pcm_layout_consistent:
  assumes "pf_depth f = 16 \<or> pf_depth f = 24"
  shows "pcm_codec f = ''pcm_'' @ sample_format f
       \<and> pcm_frame_size f = pf_channels f * muxer_bytes (sample_format f)"
  using assms by (auto simp: pcm_codec_def sample_format_def pcm_frame_size_def muxer_bytes_def
      digits_val_def digit_val_def)

lemma pcm_layout_consistent_witness:
  "pcm_frame_size \<lparr>pf_rate = 48000, pf_channels = 2, pf_depth = 24, pf_big_endian = True\<rparr> = 8"
  using pcm_layout_consistent [of "\<lparr>pf_rate = 48000, pf_channels = 2, pf_depth = 24, pf_big_endian = True\<rparr>"]
  by (simp add: muxer_bytes_def sample_format_def digits_val_def digit_val_def)

text \<open>
  Ffmpeg is asked to start at exactly the requested millisecond: the quotient computed in double
  precision prints as the exact decimal, for every position below 2^50 ms.
\<close>

lemma position_text_exact:
  assumes "0 < ms" "ms < 2 ^ 50"
  shows "position_text ms =
    (let frac = nat_str (nat ms mod 1000)
     in nat_str (nat ms div 1000) @ ''.'' @ replicate (3 - length frac) (CHR ''0'') @ frac)"
proof -
  let ?m = "of_int ms :: rat"
  have m: "0 \<le> ?m" "?m \<le> 2 ^ 50"
    using assms of_int_le_iff [of ms "2 ^ 50", where 'a = rat] by simp_all
  have a: "\<bar>fl ?m - ?m\<bar> \<le> 1 / 8"
    using fl_error [of ?m] m by simp
  have "\<bar>fl ?m\<bar> \<le> 2 ^ 50 + 1"
    using a m by linarith
  then have "\<bar>fl (fl ?m / 1000) - fl ?m / 1000\<bar> \<le> 1 / 7000"
    using fl_error [of "fl ?m / 1000"] by simp
  from abs_scale [OF this, of 1000] have "\<bar>fl (fl ?m / 1000) * 1000 - fl ?m\<bar> \<le> 1 / 7"
    by simp
  with a have "\<bar>fl (fl ?m / 1000) * 1000 - ?m\<bar> < 1 / 2"
    by linarith
  then have "round_even (fl (fl ?m / 1000) * 1000) = ms"
    by (rule round_even_near)
  then show ?thesis
    by (simp add: position_text_def format_float3_def Let_def)
qed

lemma position_text_exact_witness: "position_text 61005 = ''61.005''"
  using position_text_exact [of 61005]
  by (simp add: nat_str.simps [of "_ :: nat"] digit_char_def Let_def numeral_2_eq_2)

subsection \<open>Reading and closing the decoder\<close>

datatype read_error = End_Of_File | File_Closed | Pipe_Closed | Read_Failed string

definition normalize_read_error :: "read_error option \<Rightarrow> read_error option" where
  "normalize_read_error err =
     (case err of
        None \<Rightarrow> None
      | Some File_Closed \<Rightarrow> Some End_Of_File
      | Some Pipe_Closed \<Rightarrow> Some End_Of_File
      | Some e \<Rightarrow> Some e)"

datatype process_effect = Close_Stdout | Kill_Process | Wait_Exit

record decoder =
  dec_closed :: bool

definition decoder_close :: "decoder \<Rightarrow> decoder \<times> process_effect list" where
  "decoder_close d =
     (if dec_closed d then (d, [Wait_Exit])
      else (d\<lparr>dec_closed := True\<rparr>, [Close_Stdout, Kill_Process, Wait_Exit]))"

subsection \<open>The diagnostics buffer\<close>

record ring_buffer =
  rb_data :: "byte list"
  rb_max :: nat

definition new_ring_buffer :: "nat \<Rightarrow> ring_buffer" where
  "new_ring_buffer m = \<lparr>rb_data = [], rb_max = m\<rparr>"

definition ring_write :: "ring_buffer \<Rightarrow> byte list \<Rightarrow> ring_buffer" where
  "ring_write r p =
     (let d = rb_data r @ p
      in r\<lparr>rb_data := (if length d > rb_max r then drop (length d - rb_max r) d else d)\<rparr>)"

lemma ring_write_fields [simp]:
  "rb_max (ring_write r p) = rb_max r"
  "rb_data (ring_write r p) = drop (length (rb_data r @ p) - rb_max r) (rb_data r @ p)"
  by (simp_all add: ring_write_def Let_def)

lemma ring_max [simp]: "rb_max (foldl ring_write r ps) = rb_max r"
  by (induction ps rule: rev_induct) simp_all

text \<open>
  However ffmpeg's diagnostics are cut into writes, the buffer holds exactly their last
  \<open>max\<close> bytes, so its size is bounded and nothing recent is lost.
\<close>

lemma ring_buffer_keeps_tail:
  "rb_data (foldl ring_write (new_ring_buffer m) ps) =
     drop (length (concat ps) - m) (concat ps)
   \<and> length (rb_data (foldl ring_write (new_ring_buffer m) ps)) \<le> m"
proof -
  have "rb_data (foldl ring_write (new_ring_buffer m) ps) = drop (length (concat ps) - m) (concat ps)"
  proof (induction ps rule: rev_induct)
    case (snoc p ps)
    have "rb_max (new_ring_buffer m) = m"
      by (simp add: new_ring_buffer_def)
    with snoc show ?case
      by (cases "length (concat ps) \<le> m") (simp_all, simp add: diff_diff_left [symmetric] add.commute)
  qed (simp add: new_ring_buffer_def)
  then show ?thesis
    by simp
qed

subsection \<open>The switchable reader\<close>

text \<open>
  A source is named by a number; the log lists the sources on which \<open>Close\<close> was called.  A read
  returns the source it reads from, \<open>None\<close> for the end of the stream.
\<close>

type_synonym source = nat

record switchable =
  sw_current :: "source option"
  sw_pending :: "source option"
  sw_closed :: bool
  sw_generation :: u64
  sw_log :: "source list"

definition new_switchable :: "source \<Rightarrow> switchable" where
  "new_switchable s =
     \<lparr>sw_current = Some s, sw_pending = None, sw_closed = False, sw_generation = 0, sw_log = []\<rparr>"

definition close_source :: "source option \<Rightarrow> switchable \<Rightarrow> switchable" where
  "close_source s r = (case s of None \<Rightarrow> r | Some x \<Rightarrow> r\<lparr>sw_log := sw_log r @ [x]\<rparr>)"

definition apply_pending :: "switchable \<Rightarrow> switchable" where
  "apply_pending r =
     (if sw_pending r = None then r
      else close_source (sw_current r)
             (r\<lparr>sw_current := sw_pending r, sw_pending := None, sw_generation := sw_generation r + 1\<rparr>))"

definition switchable_read :: "switchable \<Rightarrow> switchable \<times> source option" where
  "switchable_read r = (let r = apply_pending r in (r, sw_current r))"

definition swap_source :: "switchable \<Rightarrow> source \<Rightarrow> switchable" where
  "swap_source r s =
     (if sw_closed r then close_source (Some s) r
      else (close_source (sw_pending r) r)\<lparr>sw_pending := Some s\<rparr>)"

definition switchable_close :: "switchable \<Rightarrow> switchable" where
  "switchable_close r =
     (if sw_closed r then r
      else close_source (sw_current r) (close_source (sw_pending r)
             (r\<lparr>sw_closed := True, sw_current := None, sw_pending := None\<rparr>)))"

datatype reader_op = Read_Source | Swap_Source source | Close_Reader

fun reader_step :: "reader_op \<Rightarrow> switchable \<Rightarrow> switchable" where
  "reader_step Read_Source r = fst (switchable_read r)"
| "reader_step (Swap_Source s) r = swap_source r s"
| "reader_step Close_Reader r = switchable_close r"

text \<open>The sources handed over by a sequence of operations, and those a reader holds open.\<close>

definition handed :: "reader_op list \<Rightarrow> source list" where
  "handed ops = List.map_filter (\<lambda>a. case a of Swap_Source s \<Rightarrow> Some s | _ \<Rightarrow> None) ops"

definition held :: "switchable \<Rightarrow> source multiset" where
  "held r = mset (case sw_current r of None \<Rightarrow> [] | Some s \<Rightarrow> [s])
          + mset (case sw_pending r of None \<Rightarrow> [] | Some s \<Rightarrow> [s])"

lemma reader_step_accounts:
  "mset (sw_log (reader_step a r)) + held (reader_step a r) = mset (sw_log r) + held r + mset (handed [a])"
  by (cases a)
     (auto simp: switchable_read_def apply_pending_def swap_source_def switchable_close_def close_source_def
        held_def handed_def List.map_filter_simps Let_def split: option.splits)

lemma handed_Cons: "handed (a # ops) = handed [a] @ handed ops"
  by (simp add: handed_def List.map_filter_simps split: option.split)

lemma reader_run_accounts:
  "mset (sw_log (fold reader_step ops r)) + held (fold reader_step ops r)
     = mset (sw_log r) + held r + mset (handed ops)"
proof (induction ops arbitrary: r)
  case (Cons a ops)
  have "mset (handed (a # ops)) = mset (handed [a]) + mset (handed ops)"
    by (subst handed_Cons) simp
  then show ?case
    using Cons [of "reader_step a r"] reader_step_accounts [of a r] by simp
qed (simp add: handed_def List.map_filter_simps)

definition reader_inv :: "switchable \<Rightarrow> bool" where
  "reader_inv r \<longleftrightarrow> (sw_closed r \<longrightarrow> held r = {#})"

interpretation reader: machine reader_step reader_inv
proof unfold_locales
  fix r a
  show "reader_inv r \<Longrightarrow> reader_inv (reader_step a r)"
    by (cases a)
       (auto simp: reader_inv_def switchable_read_def apply_pending_def swap_source_def switchable_close_def
          close_source_def held_def Let_def split: option.splits)
qed

lemma closed_stays: "sw_closed r \<Longrightarrow> sw_closed (fold reader_step ops r)"
proof (induction ops arbitrary: r)
  case (Cons a ops)
  have "sw_closed (reader_step a r)"
    using Cons.prems
    by (cases a) (auto simp: switchable_read_def apply_pending_def swap_source_def switchable_close_def
        close_source_def Let_def split: option.split)
  with Cons.IH show ?case
    by simp
qed simp

lemma closed_after: "Close_Reader \<in> set ops \<Longrightarrow> sw_closed (fold reader_step ops r)"
proof (induction ops arbitrary: r)
  case (Cons a ops)
  show ?case
  proof (cases "a = Close_Reader")
    case True
    have "sw_closed (switchable_close r)"
      by (simp add: switchable_close_def close_source_def split: option.split)
    with True closed_stays show ?thesis
      by simp
  qed (use Cons in auto)
qed simp

text \<open>
  C25: The reader owns every source it is given.  Through any sequence of reads, swaps and closes a
  source is closed at most once and never while it is the one being read; once the reader has been
  closed, every source ever handed to it, before or after, has been closed exactly once.
\<close>

lemma every_source_closed_once:
  assumes "distinct (s # handed ops)" "r = fold reader_step ops (new_switchable s)"
  shows "distinct (sw_log r) \<and> set (sw_log r) \<inter> set_mset (held r) = {}
       \<and> set (sw_log r) \<union> set_mset (held r) = set (s # handed ops)
       \<and> (Close_Reader \<in> set ops \<longrightarrow> set (sw_log r) = set (s # handed ops))"
proof -
  have all: "mset (sw_log r) + held r = mset (s # handed ops)"
    using reader_run_accounts [of ops "new_switchable s"] assms(2)
    by (simp add: new_switchable_def held_def)
  have once: "count (mset (sw_log r) + held r) x \<le> 1" for x
    unfolding all using assms(1) distinct_count_atmost_1 [of "s # handed ops"] by auto
  have "distinct (sw_log r)"
  proof -
    have "count (mset (sw_log r)) x \<le> 1" for x
      using once [of x] by simp
    then show ?thesis
      by (metis count_mset_0_iff distinct_count_atmost_1 le_antisym less_one not_le)
  qed
  moreover have "set (sw_log r) \<inter> set_mset (held r) = {}"
  proof (rule equals0I)
    fix x assume "x \<in> set (sw_log r) \<inter> set_mset (held r)"
    then have "0 < count (mset (sw_log r)) x" "0 < count (held r) x"
      by (auto simp: count_greater_zero_iff)
    with once [of x] show False
      by simp
  qed
  moreover have "set (sw_log r) \<union> set_mset (held r) = set (s # handed ops)"
    using arg_cong [OF all, of set_mset] by simp
  moreover have "held r = {#}" if "Close_Reader \<in> set ops"
  proof -
    have "reader_inv (new_switchable s)"
      by (simp add: reader_inv_def new_switchable_def)
    then have "reader_inv r"
      using reader.run_inv assms(2) by simp
    then show ?thesis
      using closed_after [OF that] assms(2) by (simp add: reader_inv_def)
  qed
  ultimately show ?thesis
    by auto
qed

lemma every_source_closed_once_witness:
  "set (sw_log (fold reader_step [Swap_Source 1, Read_Source, Swap_Source 2, Close_Reader, Swap_Source 3]
      (new_switchable 0))) = {0, 1, 2, 3}"
  using every_source_closed_once [of 0 "[Swap_Source 1, Read_Source, Swap_Source 2, Close_Reader, Swap_Source 3]"]
  by (simp add: handed_def List.map_filter_simps)

text \<open>
  A swap takes effect at the next read, which is a packet boundary of its caller: it reads the
  newest source, and the old one is not read again.
\<close>

lemma swap_applies_at_next_read:
  assumes "\<not> sw_closed r"
  shows "snd (switchable_read (swap_source r s)) = Some s
       \<and> snd (switchable_read (fst (switchable_read (swap_source r s)))) = Some s"
  using assms
  by (simp add: switchable_read_def apply_pending_def swap_source_def close_source_def Let_def
      split: option.split)

lemma swap_applies_at_next_read_witness: "snd (switchable_read (swap_source (new_switchable 0) 5)) = Some 5"
  using swap_applies_at_next_read [of "new_switchable 0" 5] by (simp add: new_switchable_def)

end
