(* ===== verification/Target.thy ===== *)
theory Target
  imports Registry
begin

text \<open>
  The receiver endpoint handed to a kernel, internal/engine/target.go.
\<close>

record target =
  tg_id :: string
  tg_name :: string
  tg_address :: string
  tg_port :: int
  tg_protocol :: string
  tg_requires_password :: bool
  tg_txt :: "string \<rightharpoonup> string"

definition target_from_device :: "device \<Rightarrow> target" where
  "target_from_device d =
     (let port = airplay_port d;
          port = (if port = 0 then dev_port d else port);
          port = (if port = 0 then raop_port d else port);
          port = (if port = 0 then 7000 else port)
      in \<lparr>tg_id = dev_id d, tg_name = dev_name d, tg_address = dev_address d, tg_port = port,
          tg_protocol = dev_protocol d, tg_requires_password = requires_password d, tg_txt = dev_txt d\<rparr>)"

text \<open>The digit loop of \<open>Codecs\<close>, with the \<open>int\<close> it accumulates in; -1 at a byte that is no digit.\<close>

fun codec_loop :: "int \<Rightarrow> string \<Rightarrow> int" where
  "codec_loop acc [] = acc"
| "codec_loop acc (c # s) =
     (if \<not> is_digit c then -1 else codec_loop (int64 (acc * 10 + int (digit_val c))) s)"

definition codec_part :: "string \<Rightarrow> int option" where
  "codec_part part0 =
     (let part = trim_space part0
      in if part = [] then None
         else if codec_loop 0 part \<ge> 0 then Some (codec_loop 0 part)
         else None)"

definition target_codecs :: "target \<Rightarrow> int list" where
  "target_codecs t =
     (let raw = trim_space (txt_get (tg_txt t) ''cn'')
      in if raw = [] then [] else List.map_filter codec_part (split_on (CHR '','') raw))"

definition accepts_pcm :: "target \<Rightarrow> bool" where
  "accepts_pcm t \<longleftrightarrow>
     (if target_codecs t = [] then True else list_ex (\<lambda>codec. codec = 0) (target_codecs t))"

lemma target_port_pos: "tg_port (target_from_device d) \<noteq> 0"
  by (simp add: target_from_device_def Let_def)

lemma digits_val_Cons: "digits_val (c # s) = digit_val c * 10 ^ length s + digits_val s"
proof (induction s rule: rev_induct)
  case (snoc d s)
  have "digits_val (c # s @ [d]) = digits_val (c # s) * 10 + digit_val d"
    using digits_val_snoc [of "c # s" d] by simp
  with snoc show ?case
    by simp
qed (simp add: digits_val_def)

lemma codec_loop_digits:
  assumes "list_all is_digit s" "0 \<le> acc" "acc * 10 ^ length s + int (digits_val s) < 2 ^ 63"
  shows "codec_loop acc s = acc * 10 ^ length s + int (digits_val s)"
  using assms
proof (induction s arbitrary: acc)
  case (Cons c s)
  define a where "a = acc * 10 + int (digit_val c)"
  define k :: int where "k = 10 ^ length s"
  have a: "0 \<le> a" and k: "1 \<le> k"
    using Cons.prems(2) by (simp_all add: a_def k_def)
  have eq: "acc * 10 ^ length (c # s) + int (digits_val (c # s)) = a * k + int (digits_val s)"
    by (simp add: digits_val_Cons algebra_simps a_def k_def)
  have "a * 1 \<le> a * k"
    using a k by (rule mult_left_mono [rotated])
  then have "in_int64 a"
    using Cons.prems(3) a unfolding eq in_int64_def by linarith
  then show ?case
    using Cons.prems Cons.IH [of a] a unfolding eq by (simp add: a_def k_def)
qed (simp add: digits_val_def)

text \<open>
  The registry and the kernels read a receiver's codec list alike: for every \<open>cn\<close> record whose
  parts are, apart from white space, empty or decimal numbers that fit an \<open>int\<close>, the two parsers
  return the same codecs, and the kernel accepts PCM exactly if the registry says so or no codec
  is listed at all.
\<close>

lemma codec_parsers_agree:
  assumes "\<forall>part \<in> set (split_on (CHR '','') (trim_space (txt_get (dev_txt d) ''cn''))).
      list_all is_digit (trim_space part) \<and> int (digits_val (trim_space part)) < 2 ^ 63"
  shows "target_codecs (target_from_device d) = device_codecs d
       \<and> (accepts_pcm (target_from_device d) \<longleftrightarrow> supports_pcm d \<or> device_codecs d = [])"
proof -
  have part: "codec_part p = atoi (trim_space p)"
    if "p \<in> set (split_on (CHR '','') (trim_space (txt_get (dev_txt d) ''cn'')))" for p
  proof -
    have "list_all is_digit (trim_space p)" "int (digits_val (trim_space p)) < 2 ^ 63"
      using assms that by auto
    then show ?thesis
      using codec_loop_digits [of "trim_space p" 0]
      by (simp add: codec_part_def atoi_def split_sign_digits in_int64_def Let_def)
  qed
  have "List.map_filter f ps = List.map_filter g ps" if "\<forall>p \<in> set ps. f p = g p"
    for f g :: "string \<Rightarrow> int option" and ps
    using that by (induction ps) (simp_all add: List.map_filter_simps split: option.split)
  then have codecs: "target_codecs (target_from_device d) = device_codecs d"
    using part by (simp add: target_codecs_def device_codecs_def target_from_device_def Let_def)
  then show ?thesis
    by (auto simp: accepts_pcm_def supports_pcm_def)
qed

lemma codec_parsers_agree_witness:
  "target_codecs (target_from_device (empty_device\<lparr>dev_txt := [''cn'' \<mapsto> ''1,0'']\<rparr>))
     = device_codecs (empty_device\<lparr>dev_txt := [''cn'' \<mapsto> ''1,0'']\<rparr>)"
proof -
  have "trim_space ''1,0'' = ''1,0''" "trim_space ''1'' = ''1''" "trim_space ''0'' = ''0''"
    by (rule trim_space_id; simp add: edge_byte_def space_runes_def)+
  then show ?thesis
    using codec_parsers_agree [of "empty_device\<lparr>dev_txt := [''cn'' \<mapsto> ''1,0'']\<rparr>"]
    by (simp add: txt_get_def is_digit_def digits_val_def digit_val_def)
qed

end
