(* ===== verification/Session.thy ===== *)
theory Session
  imports Go_Strings
begin

text \<open>
  The state every kernel shares, internal/engine/types.go: the lifecycle of a session, its progress
  clock, and the snapshot the REST API reports.

  The type variable \<open>'e\<close> is the type of the errors a kernel stores.  \<open>now\<close> is the reading of the clock
  an operation makes.  Durations are unbounded integers here: a
  session would have to run for 292 years to wrap one.  The sum with the start position, which a
  client chooses, is an \<open>int64\<close>.
\<close>

datatype state = Buffering | Playing | Paused | Stopped | Failed

record play_request =
  stream_url :: string
  track_id :: int
  req_title :: string
  req_artist :: string
  req_album :: string
  duration_ms :: int
  start_ms :: int
  req_volume :: int

definition no_request :: play_request where
  "no_request =
     \<lparr>stream_url = [], track_id = 0, req_title = [], req_artist = [], req_album = [], duration_ms = 0,
      start_ms = 0, req_volume = 0\<rparr>"

record 'e status =
  st_active :: bool
  st_state :: state
  st_device_id :: string
  st_device_name :: string
  st_track_id :: int
  st_title :: string
  st_artist :: string
  st_album :: string
  st_duration_ms :: int
  st_position_ms :: int
  st_volume :: int
  st_engine :: string
  st_error :: "'e option"
  st_started_at :: time

record 'e session_base =
  sb_kind :: string
  sb_device_id :: string
  sb_device_name :: string
  sb_state :: state
  sb_request :: play_request
  sb_err :: "'e option"
  started_at :: time
  playing_since :: time
  accumulated :: duration
  sb_finished :: bool

definition new_session_base :: "time \<Rightarrow> string \<Rightarrow> string \<Rightarrow> string \<Rightarrow> 'e session_base" where
  "new_session_base now kind device_id device_name =
     \<lparr>sb_kind = kind, sb_device_id = device_id, sb_device_name = device_name, sb_state = Buffering,
      sb_request = no_request, sb_err = None, started_at = now, playing_since = 0, accumulated = 0,
      sb_finished = False\<rparr>"

definition set_state :: "time \<Rightarrow> state \<Rightarrow> 'e session_base \<Rightarrow> 'e session_base" where
  "set_state now st s0 =
     (let s = (if sb_state s0 = Playing \<and> st \<noteq> Playing
               then s0\<lparr>accumulated := accumulated s0 + (now - playing_since s0), playing_since := 0\<rparr>
               else s0);
          s = (if st = Playing \<and> is_zero (playing_since s) then s\<lparr>playing_since := now\<rparr> else s)
      in s\<lparr>sb_state := st\<rparr>)"

definition set_error :: "time \<Rightarrow> 'e option \<Rightarrow> 'e session_base \<Rightarrow> 'e session_base" where
  "set_error now err s =
     (case err of None \<Rightarrow> s | Some e \<Rightarrow> set_state now Failed (s\<lparr>sb_err := Some e\<rparr>))"

definition mark_finished :: "time \<Rightarrow> 'e session_base \<Rightarrow> 'e session_base" where
  "mark_finished now s = set_state now Stopped (s\<lparr>sb_finished := True\<rparr>)"

definition reset_position :: "time \<Rightarrow> int \<Rightarrow> 'e session_base \<Rightarrow> 'e session_base" where
  "reset_position now position_ms s0 =
     (let s = s0\<lparr>sb_request := (sb_request s0)\<lparr>start_ms := position_ms\<rparr>, accumulated := 0\<rparr>
      in if sb_state s = Playing then s\<lparr>playing_since := now\<rparr> else s)"

definition begin_playback_clock :: "time \<Rightarrow> 'e session_base \<Rightarrow> 'e session_base" where
  "begin_playback_clock now s =
     (if is_zero (playing_since s) then s\<lparr>playing_since := now\<rparr> else s)"

definition elapsed :: "time \<Rightarrow> 'e session_base \<Rightarrow> duration" where
  "elapsed now s =
     (if sb_state s = Playing \<and> \<not> is_zero (playing_since s)
      then accumulated s + (now - playing_since s) else accumulated s)"

definition position :: "time \<Rightarrow> 'e session_base \<Rightarrow> int" where
  "position now s =
     (let p = int64 (start_ms (sb_request s) + go_div (elapsed now s) millisecond);
          p = (if duration_ms (sb_request s) > 0 \<and> p > duration_ms (sb_request s)
               then duration_ms (sb_request s) else p)
      in if p < 0 then 0 else p)"

definition snapshot :: "time \<Rightarrow> 'e session_base \<Rightarrow> 'e status" where
  "snapshot now s =
     \<lparr>st_active = (sb_state s = Buffering \<or> sb_state s = Playing \<or> sb_state s = Paused),
      st_state = sb_state s, st_device_id = sb_device_id s, st_device_name = sb_device_name s,
      st_track_id = track_id (sb_request s), st_title = req_title (sb_request s),
      st_artist = req_artist (sb_request s), st_album = req_album (sb_request s),
      st_duration_ms = duration_ms (sb_request s), st_position_ms = position now s,
      st_volume = req_volume (sb_request s), st_engine = sb_kind s, st_error = sb_err s,
      st_started_at = started_at s\<rparr>"

subsection \<open>The progress clock\<close>

lemma set_state_fields [simp]:
  "sb_state (set_state now st s) = st" "sb_request (set_state now st s) = sb_request s"
  "sb_err (set_state now st s) = sb_err s" "sb_device_id (set_state now st s) = sb_device_id s"
  "sb_device_name (set_state now st s) = sb_device_name s" "sb_kind (set_state now st s) = sb_kind s"
  "sb_finished (set_state now st s) = sb_finished s" "started_at (set_state now st s) = started_at s"
  by (simp_all add: set_state_def Let_def)

lemma snapshot_fields [simp]:
  "st_state (snapshot now s) = sb_state s" "st_device_id (snapshot now s) = sb_device_id s"
  "st_active (snapshot now s) = (sb_state s \<in> {Buffering, Playing, Paused})"
  "st_volume (snapshot now s) = req_volume (sb_request s)"
  "st_position_ms (snapshot now s) = position now s" "st_error (snapshot now s) = sb_err s"
  "st_duration_ms (snapshot now s) = duration_ms (sb_request s)"
  by (auto simp: snapshot_def)

text \<open>
  A playing session knows since when it plays.
\<close>

definition clock_inv :: "'e session_base \<Rightarrow> bool" where
  "clock_inv s \<longleftrightarrow> (sb_state s = Playing \<longrightarrow> playing_since s \<noteq> 0)"

datatype 'e session_op =
    S_State time state
  | S_Error time "'e option"
  | S_Finished time
  | S_Reset time int
  | S_Begin time

fun op_time :: "'e session_op \<Rightarrow> time" where
  "op_time (S_State t st) = t"
| "op_time (S_Error t e) = t"
| "op_time (S_Finished t) = t"
| "op_time (S_Reset t p) = t"
| "op_time (S_Begin t) = t"

text \<open>A clock never reads Go's zero time: an operation at time 0 is no event.\<close>

fun session_step :: "'e session_op \<Rightarrow> 'e session_base \<Rightarrow> 'e session_base" where
  "session_step a s =
     (if op_time a = 0 then s
      else (case a of
              S_State t st \<Rightarrow> set_state t st s
            | S_Error t e \<Rightarrow> set_error t e s
            | S_Finished t \<Rightarrow> mark_finished t s
            | S_Reset t p \<Rightarrow> reset_position t p s
            | S_Begin t \<Rightarrow> begin_playback_clock t s))"

interpretation session: machine session_step clock_inv
proof unfold_locales
  fix s a
  show "clock_inv s \<Longrightarrow> clock_inv (session_step a s)"
    by (cases a) (auto simp: clock_inv_def set_state_def set_error_def mark_finished_def reset_position_def
        begin_playback_clock_def Let_def split: option.split)
qed

lemma new_session_clock [simp]: "clock_inv (new_session_base now k i n)"
  by (simp add: clock_inv_def new_session_base_def)

lemma position_in_track:
  "0 \<le> position now s"
  "0 < duration_ms (sb_request s) \<Longrightarrow> position now s \<le> duration_ms (sb_request s)"
  by (auto simp: position_def Let_def)

text \<open>
  A seek re-bases the progress clock.  \<open>d\<close> nanoseconds after a seek the session reports the
  target of the seek plus the milliseconds played since, cut at the end of the track, if it was
  playing, and exactly the target if it was not, whatever it had played before.
\<close>

lemma seek_rebases_position:
  assumes "clock_inv s" "t \<noteq> 0" "0 \<le> d" "0 \<le> p" "p + d < 2 ^ 63"
    and "duration_ms (sb_request s) = 0 \<or> p + d div millisecond \<le> duration_ms (sb_request s)"
  shows "st_position_ms (snapshot (t + d) (reset_position t p s))
       = (if sb_state s = Playing then p + d div millisecond else p)"
proof -
  have d: "0 \<le> d div millisecond" "d div millisecond \<le> d"
    using assms(3) zdiv_mono2 [of d 1 millisecond]
    by (simp_all add: millisecond_def pos_imp_zdiv_nonneg_iff)
  have "elapsed (t + d) (reset_position t p s) = (if sb_state s = Playing then d else 0)"
    using assms(1,2) by (simp add: elapsed_def reset_position_def)
  moreover have "start_ms (sb_request (reset_position t p s)) = p"
    "duration_ms (sb_request (reset_position t p s)) = duration_ms (sb_request s)"
    by (simp_all add: reset_position_def Let_def)
  moreover have "in_int64 (p + d div millisecond)" "in_int64 p"
    using assms(3-5) d by (simp_all add: in_int64_def)
  ultimately show ?thesis
    using assms(3,4,6) d by (auto simp: position_def millisecond_def)
qed

lemma seek_rebases_position_witness:
  "st_position_ms (snapshot 3000000007 (reset_position 7 60000
      (set_state 2 Playing (new_session_base 1 [] [] [] :: string session_base)))) = 63000"
proof -
  have "clock_inv (set_state 2 Playing (new_session_base 1 [] [] [] :: string session_base))"
    by (simp add: clock_inv_def set_state_def new_session_base_def)
  then show ?thesis
    using seek_rebases_position [of "set_state 2 Playing (new_session_base 1 [] [] [] :: string session_base)" 7 3000000000 60000]
    by (simp add: new_session_base_def no_request_def millisecond_def)
qed

text \<open>The time spent playing, from the trace of the state changes alone.\<close>

fun playing_time :: "time \<Rightarrow> (time \<times> state) list \<Rightarrow> duration" where
  "playing_time now [] = 0"
| "playing_time now [(t, st)] = (if st = Playing then now - t else 0)"
| "playing_time now ((t, st) # (t', st') # es) =
     (if st = Playing then t' - t else 0) + playing_time now ((t', st') # es)"

lemma playing_time_snoc:
  "es \<noteq> [] \<Longrightarrow> playing_time now (es @ [(t, st)]) = playing_time t es + (if st = Playing then now - t else 0)"
proof (induction es rule: induct_list012)
  case (3 x y zs)
  then show ?case
    by (cases x; cases y) simp
qed auto

text \<open>
  C31: The progress clock measures playing time.  After any trace of state changes of a fresh
  session, the elapsed time is the total length of the periods spent in the playing state, so a
  pause, an error or the end of the track freezes it and resuming continues where it stopped.
\<close>

lemma clock_measures_playing_time:
  assumes "\<forall>(t, st) \<in> set es. t \<noteq> 0"
  shows "elapsed now (fold (\<lambda>(t, st). set_state t st) es (new_session_base t0 k i n :: 'e session_base))
       = playing_time now es"
proof -
  let ?run = "\<lambda>es. fold (\<lambda>(t, st). set_state t st) es (new_session_base t0 k i n :: 'e session_base)"
  have "(es = [] \<or> sb_state (?run es) = snd (last es))
      \<and> (sb_state (?run es) = Playing \<longleftrightarrow> playing_since (?run es) \<noteq> 0)
      \<and> (\<forall>now. elapsed now (?run es) = playing_time now es)"
    using assms
  proof (induction es rule: rev_induct)
    case Nil
    show ?case
      by (simp add: new_session_base_def elapsed_def)
  next
    case (snoc e es)
    obtain t st where e: "e = (t, st)"
      by fastforce
    define s where "s = ?run es"
    have IH: "es = [] \<or> sb_state s = snd (last es)" "sb_state s = Playing \<longleftrightarrow> playing_since s \<noteq> 0"
      "\<And>now. elapsed now s = playing_time now es" and t: "t \<noteq> 0"
      using snoc by (auto simp: s_def e)
    have step: "elapsed now (set_state t st s) = elapsed t s + (if st = Playing then now - t else 0)" for now
      using IH(2) t by (auto simp: elapsed_def set_state_def Let_def)
    have "playing_time now (es @ [e]) = playing_time t es + (if st = Playing then now - t else 0)" for now
    proof (cases "es = []")
      case False
      then show ?thesis
        by (simp add: e playing_time_snoc)
    qed (simp add: e)
    then have "\<forall>now. elapsed now (set_state t st s) = playing_time now (es @ [e])"
      by (simp add: step IH(3))
    moreover have "st = Playing \<longleftrightarrow> playing_since (set_state t st s) \<noteq> 0"
      using IH(2) t by (auto simp: set_state_def Let_def)
    ultimately show ?case
      by (simp add: e s_def [symmetric])
  qed
  then show ?thesis
    by blast
qed

lemma clock_measures_playing_time_witness:
  "elapsed 100 (fold (\<lambda>(t, st). set_state t st) [(10, Playing), (30, Paused), (70, Playing), (90, Stopped)]
      (new_session_base 1 [] [] [])) = 40"
  using clock_measures_playing_time [of "[(10, Playing), (30, Paused), (70, Playing), (90, Stopped)]" 100 1 "[]" "[]" "[]"]
  by simp

end
