(* ===== verification/Sender.thy ===== *)
theory Sender
  imports Rtsp Volume
begin

text \<open>
  The RAOP sender, internal/raop/sender.go, up to its streaming loop: the handshake, volume, flush,
  pause and resume, the retransmission backlog, the answers on the control and timing sockets, and
  the shutdown.  The loop of \<open>Stream\<close> is in theory Sender_Loop.

  Inputs from outside are arguments: the wall clock, the outcome of opening a socket and of writing
  to it, the bytes the peer sends.  One RTSP exchange takes an \<open>rtsp_io\<close>: whether a header map of two
  entries is ranged over in reverse, whether the request could be written, and the peer's bytes.

  A channel is a number; closing it puts it into \<open>closed_chs\<close>, and closing it again panics.
\<close>

datatype sender_state = S_Idle | S_Buffering | S_Playing | S_Paused | S_Stopped | S_Error

datatype sender_error =
    Err_Closed
  | Err_Context
  | Err_Format format_error
  | Err_Dial
  | Err_Conn rtsp_error
  | Err_Request string rtsp_error
  | Err_Password
  | Err_Status string int string
  | Err_Socket string
  | Err_Server_Port string
  | Err_Read string
  | Err_Send

type_synonym rtsp_io = "bool \<times> bool \<times> string"

record sender =
  sd_format :: audio_format
  sd_conn :: rtsp_conn
  audio_ready :: bool
  sockets_open :: bool
  server_port :: int
  control_port :: int
  timing_port :: int
  sd_state :: sender_state
  sd_last_err :: "sender_error option"
  sd_volume :: int
  paused :: bool
  pause_ch :: nat
  resume_ch :: nat
  closed_chs :: "nat list"
  next_ch :: nat
  flush_requested :: bool
  stop_closed :: bool
  start_ts :: u32
  head_ts :: u32
  seqno :: u16
  frames_sent :: u64
  anchor_wall :: time
  anchor_frames :: u64
  backlog :: "u16 \<rightharpoonup> byte list"
  backlog_q :: "u16 list"
  sd_ssrc :: u32
  sd_started :: bool
  sd_panicked :: bool

definition backlog_size :: nat where
  "backlog_size = 1000"

subsection \<open>The clock\<close>

text \<open>\<open>time.Time.Unix\<close> and \<open>Nanosecond\<close>; the Unix epoch is 62135596800 seconds after Go's zero time.\<close>

definition unix_epoch :: time where
  "unix_epoch = 62135596800 * 1000000000"

definition unix_sec :: "time \<Rightarrow> int" where
  "unix_sec now = (now - unix_epoch) div 1000000000"

definition nanosecond :: "time \<Rightarrow> int" where
  "nanosecond now = (now - unix_epoch) mod 1000000000"

definition rtp_clock :: "time \<Rightarrow> time \<Rightarrow> int \<Rightarrow> u32" where
  "rtp_clock now now' rate = ntp_to_rtp (ntp_now (unix_sec now) (nanosecond now')) rate"

subsection \<open>Requests and simple operations\<close>

definition ordered :: "rtsp_io \<Rightarrow> (string \<times> string) list \<Rightarrow> (string \<times> string) list" where
  "ordered io hs = (if fst io then rev hs else hs)"

definition request ::
  "sender \<Rightarrow> string \<Rightarrow> string \<Rightarrow> string \<Rightarrow> (string \<times> string) list \<Rightarrow> string option \<Rightarrow> rtsp_io
   \<Rightarrow> (rtsp_error + response) \<times> sender" where
  "request s method uri content_type hs body io =
     (case io of (_, write_ok, incoming) \<Rightarrow>
        (case conn_do (sd_conn s) method uri content_type (ordered io hs) body write_ok incoming of
           (res, c) \<Rightarrow> (res, s\<lparr>sd_conn := c\<rparr>)))"

definition set_sender_state :: "sender_state \<Rightarrow> sender_error option \<Rightarrow> sender \<Rightarrow> sender" where
  "set_sender_state st err s =
     (s\<lparr>sd_state := st, sd_last_err := (if err \<noteq> None then err else sd_last_err s)\<rparr>)"

definition rtptime :: "sender \<Rightarrow> u32" where
  "rtptime s = head_ts s - start_ts s + word_of_int latency_frames"

definition reanchor :: "time \<Rightarrow> sender \<Rightarrow> sender" where
  "reanchor now s =
     (let ts = rtp_clock now now (sample_rate (sd_format s))
      in s\<lparr>start_ts := ts, head_ts := ts\<rparr>)"

definition session_header :: "sender \<Rightarrow> string \<times> string" where
  "session_header s = (''Session'', itoa (uint (session_id (sd_conn s))))"

definition record_request :: "rtsp_io \<Rightarrow> sender \<Rightarrow> sender_error option \<times> sender" where
  "record_request io s =
     (case request s ''RECORD'' [] [] [] None io of
        (Inl e, s') \<Rightarrow> (Some (Err_Request ''RECORD'' e), s')
      | (Inr r, s') \<Rightarrow>
          (if rs_code r \<ge> 400 then Some (Err_Status ''RECORD'' (rs_code r) (rs_message r)) else None, s'))"

definition volume_body :: "int \<Rightarrow> string" where
  "volume_body percent = ''volume: '' @ format_float6 (percent_to_dbfs percent)"

definition clamp_percent :: "int \<Rightarrow> int" where
  "clamp_percent percent =
     (let p = (if percent < 0 then 0 else percent) in if p > 100 then 100 else p)"

definition set_volume :: "rtsp_io \<Rightarrow> int \<Rightarrow> sender \<Rightarrow> sender_error option \<times> sender" where
  "set_volume io percent0 s =
     (let percent = clamp_percent percent0
      in case request s ''SET_PARAMETER'' [] ''text/parameters'' [] (Some (volume_body percent)) io of
           (Inl e, s') \<Rightarrow> (Some (Err_Request ''SET_PARAMETER volume'' e), s')
         | (Inr r, s') \<Rightarrow>
             if rs_code r \<ge> 400
             then (Some (Err_Status ''SET_PARAMETER volume'' (rs_code r) (rs_message r)), s')
             else (None, s'\<lparr>sd_volume := percent\<rparr>))"

definition flush_headers :: "sender \<Rightarrow> (string \<times> string) list" where
  "flush_headers s =
     [session_header s,
      (''RTP-Info'', ''seq='' @ itoa (uint (seqno s)) @ '';rtptime='' @ itoa (uint (rtptime s)))]"

definition flush :: "time \<Rightarrow> rtsp_io \<Rightarrow> sender \<Rightarrow> sender_error option \<times> sender" where
  "flush now io s =
     (case request s ''FLUSH'' [] [] (flush_headers s) None io of
        (Inl e, s') \<Rightarrow> (Some (Err_Request ''FLUSH'' e), s')
      | (Inr r, s') \<Rightarrow>
          if rs_code r \<ge> 400 then (Some (Err_Status ''FLUSH'' (rs_code r) (rs_message r)), s')
          else (None, reanchor now s'))"

definition request_flush :: "sender \<Rightarrow> sender" where
  "request_flush s = s\<lparr>flush_requested := True\<rparr>"

definition take_flush_request :: "sender \<Rightarrow> bool \<times> sender" where
  "take_flush_request s = (flush_requested s, s\<lparr>flush_requested := False\<rparr>)"

definition feedback :: "rtsp_io \<Rightarrow> sender \<Rightarrow> sender" where
  "feedback io s = snd (request s ''POST'' ''/feedback'' [] [] None io)"

subsection \<open>Pause and resume\<close>

definition close_ch :: "nat \<Rightarrow> sender \<Rightarrow> sender" where
  "close_ch c s =
     (if c \<in> set (closed_chs s) then s\<lparr>sd_panicked := True\<rparr> else s\<lparr>closed_chs := c # closed_chs s\<rparr>)"

definition pause :: "sender \<Rightarrow> sender" where
  "pause s =
     set_sender_state S_Paused None
       (if \<not> paused s
        then (close_ch (pause_ch s) (s\<lparr>paused := True\<rparr>))\<lparr>resume_ch := next_ch s, next_ch := next_ch s + 1\<rparr>
        else s)"

definition resume :: "time \<Rightarrow> sender \<Rightarrow> sender" where
  "resume now s =
     set_sender_state S_Playing None (reanchor now
       (if paused s
        then (close_ch (resume_ch s) (s\<lparr>paused := False\<rparr>))\<lparr>pause_ch := next_ch s, next_ch := next_ch s + 1\<rparr>
        else s))"

subsection \<open>The backlog and the answers on the sockets\<close>

fun trim_backlog :: "u16 list \<Rightarrow> (u16 \<rightharpoonup> byte list) \<Rightarrow> u16 list \<times> (u16 \<rightharpoonup> byte list)" where
  "trim_backlog [] b = ([], b)"
| "trim_backlog (oldest # q) b =
     (if length (oldest # q) > backlog_size then trim_backlog q (b(oldest := None)) else (oldest # q, b))"

definition remember_packet :: "u16 \<Rightarrow> byte list \<Rightarrow> sender \<Rightarrow> sender" where
  "remember_packet n packet s =
     (let q = (if backlog s n = None then backlog_q s @ [n] else backlog_q s);
          b = (backlog s)(n \<mapsto> packet)
      in case trim_backlog q b of (q', b') \<Rightarrow> s\<lparr>backlog_q := q', backlog := b'\<rparr>)"

definition lookup_backlog :: "u16 \<Rightarrow> sender \<Rightarrow> byte list option" where
  "lookup_backlog n s = backlog s n"

text \<open>One datagram on the control socket: the replies in the order they are sent.\<close>

definition retransmit_reply :: "byte list \<Rightarrow> byte list" where
  "retransmit_reply packet = [0x80, 0xD6, packet ! 2, packet ! 3] @ packet"

definition serve_control :: "byte list \<Rightarrow> sender \<Rightarrow> byte list list" where
  "serve_control buf s =
     (if length buf < 8 then []
      else if buf ! 1 AND 0x7F \<noteq> 0x55 then []
      else (let lost_seq = get_be16 buf 4;
                lost_count0 = unat (get_be16 buf 6);
                lost_count = (if lost_count0 > 128 then 128 else lost_count0)
            in List.map_filter (\<lambda>i. map_option retransmit_reply (lookup_backlog (lost_seq + of_nat i) s))
                 [0..<lost_count]))"

definition serve_timing :: "time \<Rightarrow> byte list \<Rightarrow> byte list option" where
  "serve_timing now buf =
     (case parse_timing_request buf of
        None \<Rightarrow> None
      | Some r \<Rightarrow>
          (case ntp_parts (ntp_now (unix_sec now) (nanosecond now)) of (sec, sub) \<Rightarrow>
             Some (timing_reply (tr_proto r) (tr_send_sec r) (tr_send_frac r) sec sub)))"

subsection \<open>Shutdown\<close>

definition sender_close :: "rtsp_io \<Rightarrow> sender \<Rightarrow> sender" where
  "sender_close io s =
     (if stop_closed s then s
      else set_sender_state S_Stopped None
             ((snd (request (s\<lparr>stop_closed := True\<rparr>) ''TEARDOWN'' [] [] [session_header s] None io))
                \<lparr>sockets_open := False\<rparr>))"

subsection \<open>The handshake\<close>

definition parse_transport :: "string \<Rightarrow> string list \<times> (string \<rightharpoonup> string)" where
  "parse_transport transport =
     foldl (\<lambda>(params, options) part0.
              let part = trim_space part0
              in if part = [] then (params, options)
                 else (case cut (CHR ''='') part of (key, val, found) \<Rightarrow>
                         if found then (params, options(trim_space key \<mapsto> trim_space val))
                         else (params @ [part], options)))
       ([], Map.empty) (split_on (CHR '';'') transport)"

definition contains_token :: "string list \<Rightarrow> string \<Rightarrow> bool" where
  "contains_token params token \<longleftrightarrow> list_ex (\<lambda>p. equal_fold p token) params"

definition option_port :: "(string \<rightharpoonup> string) \<Rightarrow> string \<Rightarrow> int \<Rightarrow> int" where
  "option_port options name port =
     (let raw = get_or_empty options name
      in if raw \<noteq> [] then (case atoi raw of Some p \<Rightarrow> p | None \<Rightarrow> port) else port)"

record config =
  cf_address :: string
  cf_port :: int
  cf_format :: audio_format
  cf_local_ip :: string
  cf_volume :: int

definition transport_request :: "int \<Rightarrow> int \<Rightarrow> string" where
  "transport_request control timing =
     ''RTP/AVP/UDP;unicast;interleaved=0-1;mode=record;control_port='' @ itoa control
     @ '';timing_port='' @ itoa timing"

text \<open>
  \<open>openUDPSockets\<close>: the ports the system assigns to the control, timing and audio socket, \<open>None\<close>
  where the socket cannot be opened.
\<close>

definition open_udp_sockets ::
  "int option \<Rightarrow> int option \<Rightarrow> bool \<Rightarrow> sender \<Rightarrow> sender_error option \<times> sender" where
  "open_udp_sockets control timing audio s =
     (case control of
        None \<Rightarrow> (Some (Err_Socket ''control''), s)
      | Some cp \<Rightarrow>
          (case timing of
             None \<Rightarrow> (Some (Err_Socket ''timing''), s\<lparr>control_port := cp, sockets_open := True\<rparr>)
           | Some tp \<Rightarrow>
               (if audio then None else Some (Err_Socket ''audio''),
                s\<lparr>control_port := cp, timing_port := tp, sockets_open := True\<rparr>)))"

text \<open>The reply to SETUP: the receiver's ports.\<close>

definition use_transport :: "response \<Rightarrow> sender \<Rightarrow> sender_error option \<times> sender" where
  "use_transport r s =
     (let transport = header (Some r) ''Transport'';
          options = snd (parse_transport transport)
      in case atoi (get_or_empty options ''server_port'') of
           None \<Rightarrow> (Some (Err_Server_Port transport), s)
         | Some port \<Rightarrow>
             if port \<le> 0 then (Some (Err_Server_Port transport), s)
             else (None, s\<lparr>server_port := port,
                           control_port := option_port options ''control_port'' (control_port s),
                           timing_port := option_port options ''timing_port'' (timing_port s),
                           audio_ready := True\<rparr>))"

definition handshake ::
  "bool \<Rightarrow> rtsp_io \<Rightarrow> rtsp_io \<Rightarrow> int option \<Rightarrow> int option \<Rightarrow> bool \<Rightarrow> rtsp_io \<Rightarrow> sender
   \<Rightarrow> sender_error option \<times> sender" where
  "handshake cancelled io1 io2 control timing audio io3 s =
     (if cancelled then (Some Err_Context, s)
      else (case request s ''OPTIONS'' ''*'' [] [] None io1 of
        (Inl e, s) \<Rightarrow> (Some (Err_Request ''OPTIONS'' e), s)
      | (Inr _, s) \<Rightarrow>
          (case request s ''ANNOUNCE'' [] ''application/sdp'' []
                  (Some (build_sdp (session_id (sd_conn s)) (local_ip (sd_conn s)) (remote_ip (sd_conn s))
                           (sd_format s))) io2 of
             (Inl e, s) \<Rightarrow> (Some (Err_Request ''ANNOUNCE'' e), s)
           | (Inr r, s) \<Rightarrow>
               if rs_code r = 401 then (Some Err_Password, s)
               else if rs_code r \<ge> 400 then (Some (Err_Status ''ANNOUNCE'' (rs_code r) (rs_message r)), s)
               else (case open_udp_sockets control timing audio s of
                  (Some e, s) \<Rightarrow> (Some e, s)
                | (None, s) \<Rightarrow>
                    (case request s ''SETUP'' [] []
                            [(''Transport'', transport_request (control_port s) (timing_port s))] None io3 of
                       (Inl e, s) \<Rightarrow> (Some (Err_Request ''SETUP'' e), s)
                     | (Inr r, s) \<Rightarrow>
                         if rs_code r \<ge> 400 then (Some (Err_Status ''SETUP'' (rs_code r) (rs_message r)), s)
                         else use_transport r s)))))"

text \<open>
  The sender as \<open>Dial\<close> builds it, before the handshake.  The wall clock is read twice, once for the
  seconds and once for the nanoseconds.
\<close>

definition initial_sender :: "config \<Rightarrow> audio_format \<Rightarrow> rtsp_conn \<Rightarrow> time \<Rightarrow> time \<Rightarrow> sender" where
  "initial_sender cfg f c now now' =
     (let ts = rtp_clock now now' (sample_rate f)
      in \<lparr>sd_format = f, sd_conn = c, audio_ready = False, sockets_open = False, server_port = 0,
          control_port = 0, timing_port = 0, sd_state = S_Idle, sd_last_err = None,
          sd_volume = cf_volume cfg, paused = False, pause_ch = 0, resume_ch = 1, closed_chs = [],
          next_ch = 2, flush_requested = False, stop_closed = False, start_ts = ts, head_ts = ts,
          seqno = 0, frames_sent = 0, anchor_wall = 0, anchor_frames = 0, backlog = Map.empty,
          backlog_q = [], sd_ssrc = session_id c, sd_started = False, sd_panicked = False\<rparr>)"

definition dial_format :: "audio_format \<Rightarrow> audio_format" where
  "dial_format f =
     (if sample_rate f = 0 then \<lparr>sample_rate = rtp_time_scale, channels = 2, bit_depth = 16\<rparr> else f)"

text \<open>The peer and the system as \<open>Dial\<close> meets them.\<close>

record dial_env =
  de_cancelled :: bool
  de_tcp_local :: "string option option"
  de_random :: "byte list option \<times> byte list option \<times> byte list option"
  de_clock :: "time \<times> time"
  de_options :: rtsp_io
  de_announce :: rtsp_io
  de_control :: "int option"
  de_timing :: "int option"
  de_audio :: bool
  de_setup :: rtsp_io
  de_teardown :: rtsp_io

text \<open>
  \<open>de_tcp_local\<close> is \<open>None\<close> when the TCP connection fails, else the local address of the connection
  where it is known.  An error comes with the sender that was closed on the way out, if there was one.
\<close>

definition dial :: "config \<Rightarrow> dial_env \<Rightarrow> (sender_error \<times> sender option) + sender" where
  "dial cfg env =
     (let f = dial_format (cf_format cfg)
      in case validate f of
           Some e \<Rightarrow> Inl (Err_Format e, None)
         | None \<Rightarrow>
             (case de_tcp_local env of
                None \<Rightarrow> Inl (Err_Dial, None)
              | Some tcp_local \<Rightarrow>
                  (let loc = (if cf_local_ip cfg = [] then (case tcp_local of None \<Rightarrow> [] | Some a \<Rightarrow> a)
                              else cf_local_ip cfg)
                   in case de_random env of (r1, r2, r3) \<Rightarrow>
                        (case new_rtsp_conn r1 r2 r3 loc (cf_address cfg) of
                           Inl e \<Rightarrow> Inl (Err_Conn e, None)
                         | Inr c \<Rightarrow>
                             (let s0 = initial_sender cfg f c (fst (de_clock env)) (snd (de_clock env))
                              in case handshake (de_cancelled env) (de_options env) (de_announce env)
                                        (de_control env) (de_timing env) (de_audio env) (de_setup env) s0 of
                                   (Some e, s) \<Rightarrow> Inl (e, Some (sender_close (de_teardown env) s))
                                 | (None, s) \<Rightarrow> Inr s)))))"

lemma of_nat_u16_inj:
  assumes "(of_nat i :: u16) = of_nat j" "i < j + 65536" "j < i + 65536"
  shows "i = j"
proof -
  have "unat (of_nat i :: u16) = unat (of_nat j :: u16)"
    using assms(1) by simp
  then have m: "i mod 65536 = j mod 65536"
    by (simp add: unsigned_of_nat take_bit_eq_mod)
  have le: "b = a" if "a \<le> b" "b < a + 65536" "a mod 65536 = b mod 65536" for a b :: nat
  proof -
    have "65536 dvd b - a"
      using mod_eq_dvd_iff_nat [OF that(1), of 65536] that(3) by simp
    moreover have "b - a < 65536"
      using that by simp
    ultimately have "b - a = 0"
      by (meson dvd_imp_le not_le zero_less_iff_neq_zero)
    with that(1) show ?thesis
      by simp
  qed
  show ?thesis
  proof (cases "i \<le> j")
    case True
    from le [OF this assms(3) m] show ?thesis by simp
  next
    case False
    then have "j \<le> i" by simp
    from le [OF this assms(2) m [symmetric]] show ?thesis by simp
  qed
qed

definition window_start :: "byte list list \<Rightarrow> nat" where
  "window_start ps = length ps - backlog_size"

definition backlog_holds :: "u16 \<Rightarrow> byte list list \<Rightarrow> sender \<Rightarrow> bool" where
  "backlog_holds q0 ps s \<longleftrightarrow>
     backlog_q s = map (\<lambda>i. q0 + of_nat i) [window_start ps..<length ps]
     \<and> backlog s = map_of (map (\<lambda>i. (q0 + of_nat i, ps ! i)) [window_start ps..<length ps])"

lemma window_distinct:
  assumes "b \<le> a + 65536"
  shows "distinct (map (\<lambda>i. (q0 :: u16) + of_nat i) [a..<b])"
proof -
  have "inj_on (\<lambda>i. q0 + of_nat i) {a..<b}"
  proof (rule inj_onI)
    fix i j assume "i \<in> {a..<b}" "j \<in> {a..<b}" "q0 + of_nat i = q0 + of_nat j"
    with assms show "i = j"
      by (intro of_nat_u16_inj) auto
  qed
  then show ?thesis
    by (simp add: distinct_map)
qed

lemma remember_holds:
  assumes "backlog_holds q0 ps s" "n = q0 + of_nat (length ps)"
  shows "backlog_holds q0 (ps @ [p]) (remember_packet n p s)"
proof -
  define a b where "a = window_start ps" and "b = length ps"
  define key where "key = (\<lambda>i :: nat. q0 + of_nat i :: u16)"
  have ab: "a \<le> b" "b \<le> a + 1000" "b \<le> 1000 \<Longrightarrow> a = 0" "1000 < b \<Longrightarrow> a + 1000 = b"
    by (auto simp: a_def b_def window_start_def backlog_size_def)
  have q: "backlog_q s = map key [a..<b]" and m: "backlog s = map_of (map (\<lambda>i. (key i, ps ! i)) [a..<b])"
    using assms(1) by (simp_all add: backlog_holds_def a_def b_def key_def)
  have dist: "distinct (map key [a..<Suc b])"
    unfolding key_def using ab by (intro window_distinct) simp
  have n: "n = key b"
    by (simp add: assms(2) b_def key_def)
  have fresh: "key b \<notin> key ` {a..<b}"
    using dist ab by simp
  have none: "backlog s n = None"
    unfolding m n map_of_eq_None_iff using fresh by (simp add: image_image)
  define m' where "m' = map_of (map (\<lambda>i. (key i, (ps @ [p]) ! i)) [a..<Suc b])"
  have upd: "(backlog s)(n \<mapsto> p) = m'"
  proof
    fix k
    have "map (\<lambda>i. (key i, (ps @ [p]) ! i)) [a..<Suc b] = map (\<lambda>i. (key i, ps ! i)) [a..<b] @ [(key b, p)]"
      using ab by (simp add: b_def nth_append)
    then have "m' k = (map_of [(key b, p)] ++ backlog s) k"
      by (simp add: m'_def m)
    also have "\<dots> = ((backlog s)(n \<mapsto> p)) k"
      using none by (auto simp: n map_add_def split: option.split)
    finally show "((backlog s)(n \<mapsto> p)) k = m' k"
      by simp
  qed
  have ws: "window_start (ps @ [p]) = (if b < 1000 then a else Suc a)"
    using ab by (auto simp: window_start_def backlog_size_def b_def a_def)
  have "trim_backlog (map key [a..<b] @ [n]) m'
      = (map key [window_start (ps @ [p])..<Suc b],
         map_of (map (\<lambda>i. (key i, (ps @ [p]) ! i)) [window_start (ps @ [p])..<Suc b]))"
  proof (cases "b < 1000")
    case True
    then have "map key [a..<b] @ [n] = map key [a..<Suc b]" "length (map key [a..<Suc b]) \<le> backlog_size"
      using ab by (simp_all add: n backlog_size_def)
    moreover have "length q \<le> backlog_size \<Longrightarrow> trim_backlog q x = (q, x)" for q x
      by (cases q) simp_all
    ultimately show ?thesis
      using True by (simp add: ws m'_def del: upt_Suc)
  next
    case False
    then have a: "b - a = 1000" "a < Suc b"
      using ab by (cases "b = 1000"; simp)+
    have cons: "[a..<Suc b] = a # [Suc a..<Suc b]"
      by (rule upt_conv_Cons [OF a(2)])
    have len: "length (map key [Suc a..<Suc b]) = backlog_size"
      by (simp only: length_map length_upt diff_Suc_Suc a(1) backlog_size_def)
    have del: "m'(key a := None) = map_of (map (\<lambda>i. (key i, (ps @ [p]) ! i)) [Suc a..<Suc b])"
    proof
      fix k
      have "key a \<notin> key ` {Suc a..<Suc b}"
        using dist unfolding cons by (simp del: upt_Suc)
      then have "map_of (map (\<lambda>i. (key i, (ps @ [p]) ! i)) [Suc a..<Suc b]) (key a) = None"
        by (simp add: map_of_eq_None_iff image_image del: upt_Suc)
      then show "(m'(key a := None)) k = map_of (map (\<lambda>i. (key i, (ps @ [p]) ! i)) [Suc a..<Suc b]) k"
        by (simp add: m'_def cons del: upt_Suc)
    qed
    have stop: "trim_backlog q x = (q, x)" if "length q = backlog_size" for q x
      using that by (cases q) simp_all
    have "map key [a..<b] @ [n] = key a # map key [Suc a..<Suc b]"
      using arg_cong [OF cons, of "map key"] ab by (simp add: n upt_Suc_append del: upt_Suc)
    then show ?thesis
      using False len by (simp add: ws del stop del: upt_Suc)
  qed
  then show ?thesis
    using none by (simp add: backlog_holds_def remember_packet_def q upd key_def b_def [symmetric] del: upt_Suc)
qed

lemma backlog_lookup:
  assumes "backlog_holds q0 ps s" "window_start ps \<le> i" "i < length ps"
  shows "lookup_backlog (q0 + of_nat i) s = Some (ps ! i)"
proof -
  let ?w = "[window_start ps..<length ps]"
  have "distinct (map (\<lambda>i. q0 + of_nat i) ?w)"
    by (rule window_distinct) (simp add: window_start_def backlog_size_def)
  then have "distinct (map fst (map (\<lambda>i. (q0 + of_nat i, ps ! i)) ?w))"
    by (simp add: comp_def)
  moreover have "(q0 + of_nat i, ps ! i) \<in> set (map (\<lambda>i. (q0 + of_nat i, ps ! i)) ?w)"
    using assms(2,3) by simp
  ultimately have "map_of (map (\<lambda>i. (q0 + of_nat i, ps ! i)) ?w) (q0 + of_nat i) = Some (ps ! i)"
    by (rule map_of_is_SomeI)
  then show ?thesis
    using assms(1) by (simp add: lookup_backlog_def backlog_holds_def)
qed

lemma map_filter_all_Some: "(\<And>x. x \<in> set xs \<Longrightarrow> f x = Some (g x)) \<Longrightarrow> List.map_filter f xs = map g xs"
  by (induction xs) (simp_all add: List.map_filter_simps)

lemma serve_control_window:
  assumes "backlog_holds q0 ps s" "8 \<le> length buf" "buf ! 1 AND 0x7F = 0x55"
    and "get_be16 buf 4 = q0 + of_nat a" "unat (get_be16 buf 6) = c" "c \<le> 128"
    and "window_start ps \<le> a" "a + c \<le> length ps"
  shows "serve_control buf s = map retransmit_reply (take c (drop a ps))"
proof -
  have "lookup_backlog (get_be16 buf 4 + of_nat i) s = Some (ps ! (a + i))" if "i < c" for i
    using backlog_lookup [OF assms(1), of "a + i"] that assms(4,7,8) by (simp add: add.assoc)
  then have "List.map_filter (\<lambda>i. map_option retransmit_reply (lookup_backlog (get_be16 buf 4 + of_nat i) s)) [0..<c]
      = map (\<lambda>i. retransmit_reply (ps ! (a + i))) [0..<c]"
    by (intro map_filter_all_Some) simp
  also have "\<dots> = map retransmit_reply (take c (drop a ps))"
    using assms(8) by (intro nth_equalityI) simp_all
  finally show ?thesis
    using assms(2,3,5,6) by (simp add: serve_control_def Let_def)
qed

lemma backlog_miss:
  assumes "backlog_holds q0 ps s" "\<forall>i. window_start ps \<le> i \<and> i < length ps \<longrightarrow> n \<noteq> q0 + of_nat i"
  shows "lookup_backlog n s = None"
proof -
  have "n \<notin> (\<lambda>i. q0 + of_nat i) ` {window_start ps..<length ps}"
    using assms(2) by auto
  then show ?thesis
    using assms(1) by (simp add: lookup_backlog_def backlog_holds_def map_of_eq_None_iff image_image)
qed

subsection \<open>Pause channels\<close>

text \<open>Which channels are open: the pause channel is closed exactly while paused.\<close>

definition channel_inv :: "sender \<Rightarrow> bool" where
  "channel_inv s \<longleftrightarrow>
     \<not> sd_panicked s
     \<and> (pause_ch s \<in> set (closed_chs s) \<longleftrightarrow> paused s)
     \<and> (paused s \<longrightarrow> resume_ch s \<notin> set (closed_chs s))
     \<and> pause_ch s \<noteq> resume_ch s \<and> pause_ch s < next_ch s \<and> resume_ch s < next_ch s
     \<and> (\<forall>c \<in> set (closed_chs s). c < next_ch s)"

lemma sender_state_fields [simp]:
  "paused (set_sender_state st e s) = paused s" "pause_ch (set_sender_state st e s) = pause_ch s"
  "resume_ch (set_sender_state st e s) = resume_ch s" "closed_chs (set_sender_state st e s) = closed_chs s"
  "next_ch (set_sender_state st e s) = next_ch s" "sd_panicked (set_sender_state st e s) = sd_panicked s"
  "seqno (set_sender_state st e s) = seqno s" "backlog (set_sender_state st e s) = backlog s"
  "backlog_q (set_sender_state st e s) = backlog_q s" "sd_format (set_sender_state st e s) = sd_format s"
  "start_ts (set_sender_state st e s) = start_ts s" "head_ts (set_sender_state st e s) = head_ts s"
  "stop_closed (set_sender_state st e s) = stop_closed s" "sd_ssrc (set_sender_state st e s) = sd_ssrc s"
  "flush_requested (set_sender_state st e s) = flush_requested s"
  "frames_sent (set_sender_state st e s) = frames_sent s"
  "audio_ready (set_sender_state st e s) = audio_ready s"
  "sockets_open (set_sender_state st e s) = sockets_open s" "sd_state (set_sender_state st e s) = st"
  by (simp_all add: set_sender_state_def)

lemma reanchor_fields [simp]:
  "paused (reanchor t s) = paused s" "pause_ch (reanchor t s) = pause_ch s"
  "resume_ch (reanchor t s) = resume_ch s" "closed_chs (reanchor t s) = closed_chs s"
  "next_ch (reanchor t s) = next_ch s" "sd_panicked (reanchor t s) = sd_panicked s"
  "seqno (reanchor t s) = seqno s" "backlog (reanchor t s) = backlog s"
  "backlog_q (reanchor t s) = backlog_q s" "sd_format (reanchor t s) = sd_format s"
  "stop_closed (reanchor t s) = stop_closed s" "sd_ssrc (reanchor t s) = sd_ssrc s"
  "flush_requested (reanchor t s) = flush_requested s" "frames_sent (reanchor t s) = frames_sent s"
  "audio_ready (reanchor t s) = audio_ready s" "sockets_open (reanchor t s) = sockets_open s"
  "head_ts (reanchor t s) = start_ts (reanchor t s)" "sd_state (reanchor t s) = sd_state s"
  by (simp_all add: reanchor_def Let_def)

lemma pause_inv:
  assumes "channel_inv s"
  shows "channel_inv (pause s)" "paused (pause s)" "set (closed_chs s) \<subseteq> set (closed_chs (pause s))"
  using assms by (auto simp: pause_def channel_inv_def close_ch_def)

lemma resume_inv:
  assumes "channel_inv s"
  shows "channel_inv (resume t s)" "\<not> paused (resume t s)" "set (closed_chs s) \<subseteq> set (closed_chs (resume t s))"
    "paused s \<Longrightarrow> resume_ch s \<in> set (closed_chs (resume t s))"
  using assms by (auto simp: resume_def channel_inv_def close_ch_def)

lemma resume_rtptime: "rtptime (resume t s) = word_of_int latency_frames"
  by (simp add: rtptime_def resume_def reanchor_def Let_def set_sender_state_def)

subsection \<open>Dialling\<close>

text \<open>A sender on which nothing has been streamed yet.\<close>

definition fresh_sender :: "sender \<Rightarrow> bool" where
  "fresh_sender s \<longleftrightarrow>
     channel_inv s \<and> \<not> paused s \<and> \<not> stop_closed s \<and> \<not> flush_requested s
     \<and> seqno s = 0 \<and> frames_sent s = 0 \<and> head_ts s = start_ts s \<and> backlog_holds 0 [] s"

lemma request_other: "\<exists>c. snd (request s m u ct hs b io) = s\<lparr>sd_conn := c\<rparr>"
  by (auto simp: request_def split: prod.split)

lemma request_eqD: "request s m u ct hs b io = (res, s') \<Longrightarrow> \<exists>c. s' = s\<lparr>sd_conn := c\<rparr>"
  using request_other [of s m u ct hs b io] by simp

lemma fresh_conn [simp]: "fresh_sender (s\<lparr>sd_conn := c\<rparr>) = fresh_sender s"
  by (simp add: fresh_sender_def channel_inv_def backlog_holds_def)

lemma fresh_ports [simp]:
  "fresh_sender (s\<lparr>control_port := a\<rparr>) = fresh_sender s" "fresh_sender (s\<lparr>timing_port := b\<rparr>) = fresh_sender s"
  "fresh_sender (s\<lparr>server_port := p\<rparr>) = fresh_sender s" "fresh_sender (s\<lparr>sockets_open := x\<rparr>) = fresh_sender s"
  "fresh_sender (s\<lparr>audio_ready := y\<rparr>) = fresh_sender s"
  by (simp_all add: fresh_sender_def channel_inv_def backlog_holds_def)

lemma initial_fresh: "fresh_sender (initial_sender cfg f c n n')"
  by (simp add: fresh_sender_def initial_sender_def channel_inv_def backlog_holds_def window_start_def Let_def)

text \<open>The handshake changes the connection and the ports only.\<close>

definition same_core :: "sender \<Rightarrow> sender \<Rightarrow> bool" where
  "same_core s t \<longleftrightarrow> fresh_sender t = fresh_sender s \<and> sd_format t = sd_format s \<and> stop_closed t = stop_closed s"

lemma same_core_trans: "same_core s t \<Longrightarrow> same_core t u \<Longrightarrow> same_core s u"
  by (simp add: same_core_def)

lemma request_core: "request s m u ct hs b io = (res, t) \<Longrightarrow> same_core s t \<and> sockets_open t = sockets_open s"
  by (auto simp: same_core_def dest: request_eqD)

lemma use_transport_core:
  "use_transport r s = (e, t) \<Longrightarrow>
   same_core s t \<and> sockets_open t = sockets_open s \<and> (e = None \<longrightarrow> audio_ready t \<and> 0 < server_port t)"
  by (auto simp: use_transport_def same_core_def Let_def split: option.splits if_splits)

lemma open_sockets_core:
  "open_udp_sockets control timing audio s = (e, t) \<Longrightarrow> same_core s t \<and> (e = None \<longrightarrow> sockets_open t)"
  by (auto simp: open_udp_sockets_def same_core_def split: option.splits if_splits)

lemma handshake_core:
  assumes "handshake cc io1 io2 control timing audio io3 s = (e, s')"
  shows "same_core s s' \<and> (e = None \<longrightarrow> audio_ready s' \<and> 0 < server_port s' \<and> sockets_open s')"
proof (cases cc)
  case True
  with assms show ?thesis
    by (auto simp: handshake_def same_core_def)
next
  case False
  note h = assms [unfolded handshake_def, simplified False if_False]
  obtain r1 s1 where 1: "request s ''OPTIONS'' ''*'' [] [] None io1 = (r1, s1)"
    by fastforce
  note k1 = request_core [OF 1]
  show ?thesis
  proof (cases r1)
    case (Inl x)
    with h k1 show ?thesis
      by (auto simp: 1)
  next
    case (Inr x1)
    define sdp where "sdp = build_sdp (session_id (sd_conn s1)) (local_ip (sd_conn s1)) (remote_ip (sd_conn s1)) (sd_format s1)"
    obtain r2 s2 where 2: "request s1 ''ANNOUNCE'' [] ''application/sdp'' [] (Some sdp) io2 = (r2, s2)"
      by fastforce
    note k2 = same_core_trans [OF conjunct1 [OF k1] conjunct1 [OF request_core [OF 2]]]
    show ?thesis
    proof (cases "\<exists>x2. r2 = Inr x2 \<and> rs_code x2 \<noteq> 401 \<and> rs_code x2 < 400")
      case False
      with h k2 show ?thesis
        by (cases r2) (auto simp: 1 Inr 2 sdp_def [symmetric] not_less split: if_splits)
    next
      case True
      then obtain x2 where x2: "r2 = Inr x2" "rs_code x2 \<noteq> 401" "\<not> 400 \<le> rs_code x2"
        by auto
      obtain e3 s3 where 3: "open_udp_sockets control timing audio s2 = (e3, s3)"
        by fastforce
      note k3 = same_core_trans [OF k2 conjunct1 [OF open_sockets_core [OF 3]]]
      obtain r4 s4 where 4: "request s3 ''SETUP'' [] []
          [(''Transport'', transport_request (control_port s3) (timing_port s3))] None io3 = (r4, s4)"
        by fastforce
      note k4 = same_core_trans [OF k3 conjunct1 [OF request_core [OF 4]]]
      have open4: "e3 = None \<Longrightarrow> sockets_open s4"
        using open_sockets_core [OF 3] request_core [OF 4] by simp
      note rest = h [simplified 1 Inr 2 sdp_def [symmetric] x2 3 4 prod.case sum.case if_False]
      show ?thesis
      proof (cases "\<exists>x4. e3 = None \<and> r4 = Inr x4 \<and> rs_code x4 < 400")
        case False
        with rest k3 k4 show ?thesis
          by (cases e3; cases r4) (auto simp: not_less split: if_splits)
      next
        case True
        then obtain x4 where x4: "e3 = None" "r4 = Inr x4" "\<not> 400 \<le> rs_code x4"
          by auto
        with rest have u: "use_transport x4 s4 = (e, s')"
          by simp
        show ?thesis
          using use_transport_core [OF u] same_core_trans [OF k4] open4 x4(1) by auto
      qed
    qed
  qed
qed

lemma sender_close_closed: "stop_closed (sender_close io s)" "\<not> stop_closed s \<Longrightarrow> \<not> sockets_open (sender_close io s)"
  using request_other [of "s\<lparr>stop_closed := True\<rparr>" "''TEARDOWN''" "[]" "[]" "[session_header s]" None io]
  by (auto simp: sender_close_def set_sender_state_def)

text \<open>
  C24: Dialling a receiver either gives a sender ready to stream (a supported format, usable ports,
  open sockets, an RTP timeline at its origin, an empty backlog, neither paused nor stopped), or
  fails and leaves nothing behind: the half-open sender is stopped and its sockets are closed.
\<close>

lemma dial_ready_or_closed:
  "(\<forall>s. dial cfg env = Inr s \<longrightarrow>
       fresh_sender s \<and> audio_ready s \<and> sockets_open s \<and> 0 < server_port s
       \<and> validate (sd_format s) = None \<and> rtptime s = word_of_int latency_frames)
   \<and> (\<forall>e s. dial cfg env = Inl (e, Some s) \<longrightarrow> stop_closed s \<and> \<not> sockets_open s)"
proof (intro conjI allI impI)
  fix s assume "dial cfg env = Inr s"
  then obtain c n n' where v: "validate (dial_format (cf_format cfg)) = None"
    and h: "handshake (de_cancelled env) (de_options env) (de_announce env) (de_control env) (de_timing env)
        (de_audio env) (de_setup env) (initial_sender cfg (dial_format (cf_format cfg)) c n n') = (None, s)"
    by (auto simp: dial_def Let_def split: option.splits sum.splits prod.splits)
  from handshake_core [OF h] have s: "fresh_sender s" "audio_ready s" "sockets_open s" "0 < server_port s"
    "sd_format s = dial_format (cf_format cfg)"
    by (simp_all add: initial_fresh same_core_def, simp add: initial_sender_def Let_def)
  then show "fresh_sender s" "audio_ready s" "sockets_open s" "0 < server_port s" "validate (sd_format s) = None"
    "rtptime s = word_of_int latency_frames"
    using v by (simp_all add: rtptime_def fresh_sender_def)
next
  fix e s assume "dial cfg env = Inl (e, Some s)"
  then obtain c n n' t where s: "s = sender_close (de_teardown env) t"
    and h: "handshake (de_cancelled env) (de_options env) (de_announce env) (de_control env) (de_timing env)
        (de_audio env) (de_setup env) (initial_sender cfg (dial_format (cf_format cfg)) c n n') = (Some e, t)"
    by (auto simp: dial_def Let_def split: option.splits sum.splits prod.splits)
  from handshake_core [OF h] have "\<not> stop_closed t"
    by (simp add: same_core_def) (simp add: initial_sender_def Let_def)
  then show "stop_closed s" "\<not> sockets_open s"
    using sender_close_closed s by auto
qed

definition living_room :: config where
  "living_room =
     \<lparr>cf_address = ''10.0.0.9'', cf_port = 7000,
      cf_format = \<lparr>sample_rate = 44100, channels = 2, bit_depth = 16\<rparr>, cf_local_ip = [], cf_volume = 60\<rparr>"

definition silent_peer :: dial_env where
  "silent_peer =
     \<lparr>de_cancelled = False, de_tcp_local = Some (Some ''10.0.0.2''),
      de_random = (Some [1, 2, 3, 4], Some [5, 6, 7, 8], Some [9, 9, 9, 9, 9, 9, 9, 9]),
      de_clock = (unix_epoch, unix_epoch), de_options = (False, True, []), de_announce = (False, True, []),
      de_control = None, de_timing = None, de_audio = False, de_setup = (False, True, []),
      de_teardown = (False, True, [])\<rparr>"

lemma read_line_Nil [simp]: "read_line [] = None"
  by (simp add: read_line_def)

lemma dial_ready_or_closed_witness:
  "\<exists>s. dial living_room silent_peer = Inl (Err_Request ''OPTIONS'' Rtsp_Read_Status, Some s)
     \<and> stop_closed s \<and> \<not> sockets_open s"
proof -
  have "request s m u ct hs b (False, True, []) = (Inl Rtsp_Read_Status, s\<lparr>sd_conn := snd (conn_do (sd_conn s) m u ct hs b True [])\<rparr>)"
    if "unread (sd_conn s) = []" for s m u ct hs b
    using that by (simp add: request_def ordered_def conn_do_def Let_def read_response.simps [of _ "[]"])
  then obtain s where "dial living_room silent_peer = Inl (Err_Request ''OPTIONS'' Rtsp_Read_Status, Some s)"
    by (simp add: dial_def living_room_def silent_peer_def dial_format_def validate_def new_rtsp_conn_def
        random_uint32_def random_hex_def handshake_def initial_sender_def Let_def)
  then show ?thesis
    using dial_ready_or_closed [of living_room silent_peer] by blast
qed

end
