(* ===== verification/Sender_Loop.thy ===== *)
theory Sender_Loop
  imports Sender
begin

text \<open>
  The streaming loop of the RAOP sender (\<open>Stream\<close>, \<open>drainSilence\<close>, \<open>sendSync\<close> and the pacing of
  internal/raop/sender.go) as a state machine that interleaves with the operations other goroutines
  call: pause, resume, flush request, volume, feedback, source swap and close.

  A step of the loop goes from one access of shared state to the next; clock readings inside one
  step coincide.  \<open>select\<close> takes any of its ready cases: the input names the one it tries, and a case
  that is not ready leaves the loop where it is.  The PCM source is the byte list it still delivers;
  \<open>io.ReadFull\<close> takes a packet from it, or what is left before the end of the stream.
\<close>

datatype pc =
    Start
  | Top
  | Check_Pause
  | Parked nat
  | Check_Flush
  | Read
  | Send "byte list" bool
  | Advance bool
  | Report bool
  | Pace
  | Start_Drain
  | Drain int
  | Drain_Advance int
  | Drain_Pace int
  | Returned "sender_error option"

datatype emission =
    Data_Packet "byte list"
  | Drain_Packet "byte list"
  | Sync_Datagram "byte list"
  | Progress u64

record stream_loop =
  loop_pc :: pc
  first_packet :: bool
  next_sync :: time
  last_progress :: time
  loop_frames :: u64
  pcm_left :: "byte list"

datatype select_case = Case_Event | Case_Stop | Case_Context

record stream_input =
  in_now :: time
  in_cancelled :: bool
  in_select :: select_case
  in_read_error :: "string option"
  in_write_ok :: bool
  in_io :: rtsp_io

subsection \<open>Pacing and datagrams\<close>

definition rebase_pacing :: "time \<Rightarrow> sender \<Rightarrow> sender" where
  "rebase_pacing now s = s\<lparr>anchor_wall := now, anchor_frames := frames_sent s\<rparr>"

text \<open>The conversion to \<open>time.Duration\<close> and the product are \<open>int64\<close>.\<close>

definition pacing_target :: "time \<Rightarrow> u64 \<Rightarrow> sender \<Rightarrow> time" where
  "pacing_target now frames s =
     (if is_zero (anchor_wall s) then now
      else anchor_wall s
           + go_div (int64 (int64 (uint (frames - anchor_frames s)) * second)) (sample_rate (sd_format s)))"

definition build_audio_packet :: "byte list \<Rightarrow> bool \<Rightarrow> sender \<Rightarrow> byte list" where
  "build_audio_packet payload first s = audio_packet (seqno s) (rtptime s) (sd_ssrc s) first payload"

text \<open>\<open>sendSync\<close>; \<open>None\<close> when \<open>RTPToNTP\<close> divides by zero.\<close>

definition sync_datagram :: "sender \<Rightarrow> byte list option" where
  "sync_datagram s =
     (case rtp_to_ntp (head_ts s) (sample_rate (sd_format s)) of
        None \<Rightarrow> None
      | Some ntp \<Rightarrow>
          (case ntp_parts ntp of (sec, sub) \<Rightarrow>
             Some (sync_packet True (rtptime s - word_of_int latency_frames) sec sub (rtptime s))))"

definition advance_counters :: "sender \<Rightarrow> sender" where
  "advance_counters s =
     s\<lparr>seqno := seqno s + 1, head_ts := head_ts s + word_of_int frames_per_packet,
       frames_sent := frames_sent s + word_of_int frames_per_packet\<rparr>"

definition packet_bytes :: "sender \<Rightarrow> nat" where
  "packet_bytes s = nat (packet_size (sd_format s))"

definition pad_packet :: "nat \<Rightarrow> byte list \<Rightarrow> byte list" where
  "pad_packet n data = data @ replicate (n - length data) 0"

subsection \<open>One step of the loop\<close>

definition goto :: "pc \<Rightarrow> sender \<Rightarrow> stream_loop \<Rightarrow> emission list \<Rightarrow> sender \<times> stream_loop \<times> emission list" where
  "goto p s l out = (s, l\<lparr>loop_pc := p\<rparr>, out)"

text \<open>The wait for a packet's slot: \<open>next_pc\<close> is where the loop goes on.\<close>

definition pace_step ::
  "stream_input \<Rightarrow> pc \<Rightarrow> sender \<Rightarrow> stream_loop \<Rightarrow> sender \<times> stream_loop \<times> emission list" where
  "pace_step i next_pc s l =
     (if pacing_target (in_now i) (loop_frames l) s - in_now i > 0 then
        (case in_select i of
           Case_Event \<Rightarrow> goto next_pc s l []
         | Case_Stop \<Rightarrow> if stop_closed s then goto (Returned (Some Err_Closed)) s l [] else (s, l, [])
         | Case_Context \<Rightarrow> if in_cancelled i then goto (Returned (Some Err_Context)) s l [] else (s, l, []))
      else goto next_pc s l [])"

text \<open>One packet of silence of \<open>drainSilence\<close>, with \<open>remaining\<close> frames to go.\<close>

definition drain_step ::
  "stream_input \<Rightarrow> int \<Rightarrow> sender \<Rightarrow> stream_loop \<Rightarrow> sender \<times> stream_loop \<times> emission list" where
  [simp]: "drain_step i remaining s l =
     (if remaining \<le> 0 then goto (Returned None) (set_sender_state S_Stopped None s) l []
     else (case in_select i of
             Case_Stop \<Rightarrow>
               if stop_closed s then goto (Returned (Some Err_Closed)) s l [] else (s, l, [])
           | Case_Context \<Rightarrow>
               if in_cancelled i then goto (Returned (Some Err_Context)) s l [] else (s, l, [])
           | Case_Event \<Rightarrow>
               if stop_closed s \<or> in_cancelled i then (s, l, [])
               else if sockets_open s \<and> in_write_ok i
               then goto (Drain_Advance remaining) s l
                      [Drain_Packet (build_audio_packet (replicate (packet_bytes s) 0) False s)]
               else goto (Returned None) (set_sender_state S_Stopped None s) l []))"

fun stream_step :: "stream_input \<Rightarrow> sender \<Rightarrow> stream_loop \<Rightarrow> sender \<times> stream_loop \<times> emission list" where
  "stream_step i s l =
     (case loop_pc l of
        Start \<Rightarrow>
          if \<not> audio_ready s then goto (Returned (Some Err_Closed)) s l []
          else goto Top (rebase_pacing (in_now i) ((set_sender_state S_Playing None s)\<lparr>sd_started := True\<rparr>))
                 (l\<lparr>first_packet := True, next_sync := in_now i + sync_interval * second,
                    last_progress := in_now i\<rparr>) []
      | Top \<Rightarrow>
          if in_cancelled i then goto (Returned (Some Err_Context)) s l []
          else if stop_closed s then goto (Returned (Some Err_Closed)) s l []
          else goto Check_Pause s l []
      | Check_Pause \<Rightarrow>
          if pause_ch s \<in> set (closed_chs s) then goto (Parked (resume_ch s)) s l []
          else goto Check_Flush s l []
      | Parked ch \<Rightarrow>
          (case in_select i of
             Case_Event \<Rightarrow>
               if ch \<in> set (closed_chs s)
               then goto Check_Flush (rebase_pacing (in_now i) s)
                      (l\<lparr>next_sync := in_now i + sync_interval * second\<rparr>) []
               else (s, l, [])
           | Case_Stop \<Rightarrow> if stop_closed s then goto (Returned (Some Err_Closed)) s l [] else (s, l, [])
           | Case_Context \<Rightarrow> if in_cancelled i then goto (Returned (Some Err_Context)) s l [] else (s, l, []))
      | Check_Flush \<Rightarrow>
          (case take_flush_request s of (requested, s1) \<Rightarrow>
             if requested then goto Read (rebase_pacing (in_now i) (snd (flush (in_now i) (in_io i) s1))) l []
             else goto Read s1 l [])
      | Read \<Rightarrow>
          (case in_read_error i of
             Some e \<Rightarrow>
               goto (Returned (Some (Err_Read e))) (set_sender_state S_Error (Some (Err_Read e)) s) l []
           | None \<Rightarrow>
               (let data = take (packet_bytes s) (pcm_left l);
                    end_of_stream = (length data < packet_bytes s);
                    l = l\<lparr>pcm_left := drop (packet_bytes s) (pcm_left l)\<rparr>
                in if data = [] \<and> end_of_stream then goto Start_Drain s l []
                   else goto (Send (pad_packet (packet_bytes s) data) end_of_stream) s l []))
      | Send payload end_of_stream \<Rightarrow>
          (let packet = build_audio_packet payload (first_packet l) s;
               l = l\<lparr>first_packet := False\<rparr>
           in if sockets_open s \<and> in_write_ok i
              then goto (Advance end_of_stream) (remember_packet (seqno s) packet s) l [Data_Packet packet]
              else goto (Returned (Some Err_Send)) (set_sender_state S_Error (Some Err_Send) s) l [])
      | Advance end_of_stream \<Rightarrow>
          (let s = advance_counters s in goto (Report end_of_stream) s (l\<lparr>loop_frames := frames_sent s\<rparr>) [])
      | Report end_of_stream \<Rightarrow>
          (let due = in_now i > next_sync l;
               s1 = (if due \<and> sync_datagram s = None then s\<lparr>sd_panicked := True\<rparr> else s);
               sync = (if due then (case sync_datagram s of None \<Rightarrow> [] | Some d \<Rightarrow> [Sync_Datagram d]) else []);
               l1 = (if due then l\<lparr>next_sync := in_now i + sync_interval * second\<rparr> else l);
               tick = in_now i - last_progress l \<ge> second;
               l2 = (if tick then l1\<lparr>last_progress := in_now i\<rparr> else l1)
           in goto (if end_of_stream then Start_Drain else Pace) s1 l2
                (sync @ (if tick then [Progress (loop_frames l)] else [])))
      | Pace \<Rightarrow> pace_step i Top s l
      | Start_Drain \<Rightarrow> goto (Drain latency_frames) (rebase_pacing (in_now i) s) l []
      | Drain remaining \<Rightarrow> drain_step i remaining s l
      | Drain_Advance remaining \<Rightarrow>
          (let s = advance_counters s
           in goto (Drain_Pace (remaining - frames_per_packet)) s (l\<lparr>loop_frames := frames_sent s\<rparr>) [])
      | Drain_Pace remaining \<Rightarrow> pace_step i (Drain remaining) s l
      | Returned r \<Rightarrow> (s, l, []))"

declare stream_step.simps [simp del]

subsection \<open>The loop and the other goroutines\<close>

record world =
  w_sender :: sender
  w_loop :: stream_loop
  w_out :: "emission list"

definition initial_loop :: "byte list \<Rightarrow> stream_loop" where
  "initial_loop pcm =
     \<lparr>loop_pc = Start, first_packet = True, next_sync = 0, last_progress = 0, loop_frames = 0, pcm_left = pcm\<rparr>"

definition new_world :: "sender \<Rightarrow> byte list \<Rightarrow> world" where
  "new_world s pcm = \<lparr>w_sender = s, w_loop = initial_loop pcm, w_out = []\<rparr>"

datatype event =
    Loop stream_input
  | Pause
  | Resume time
  | Request_Flush
  | Volume rtsp_io int
  | Feedback rtsp_io
  | Swap "byte list"
  | Close rtsp_io

definition on_sender :: "(sender \<Rightarrow> sender) \<Rightarrow> world \<Rightarrow> world" where
  "on_sender f w = w\<lparr>w_sender := f (w_sender w)\<rparr>"

fun world_step :: "event \<Rightarrow> world \<Rightarrow> world" where
  "world_step (Loop i) w =
     (case stream_step i (w_sender w) (w_loop w) of
        (s, l, out) \<Rightarrow> \<lparr>w_sender = s, w_loop = l, w_out = w_out w @ out\<rparr>)"
| "world_step Pause w = on_sender pause w"
| "world_step (Resume now) w = on_sender (resume now) w"
| "world_step Request_Flush w = on_sender request_flush w"
| "world_step (Volume io p) w = on_sender (\<lambda>s. snd (set_volume io p s)) w"
| "world_step (Feedback io) w = on_sender (feedback io) w"
| "world_step (Swap pcm) w = w\<lparr>w_loop := (w_loop w)\<lparr>pcm_left := pcm\<rparr>\<rparr>"
| "world_step (Close io) w = on_sender (sender_close io) w"

subsection \<open>What the operations leave alone\<close>

text \<open>The part of the sender that determines the datagrams and the backlog.\<close>

definition same_stream :: "sender \<Rightarrow> sender \<Rightarrow> bool" where
  "same_stream s t \<longleftrightarrow>
     seqno t = seqno s \<and> backlog t = backlog s \<and> backlog_q t = backlog_q s \<and> sd_format t = sd_format s
     \<and> sd_ssrc t = sd_ssrc s \<and> (channel_inv s \<longrightarrow> channel_inv t)"

lemma same_stream_refl [simp]: "same_stream s s"
  by (simp add: same_stream_def)

lemma same_stream_trans: "same_stream s t \<Longrightarrow> same_stream t u \<Longrightarrow> same_stream s u"
  by (simp add: same_stream_def)

lemma channel_inv_update [simp]:
  "channel_inv (s\<lparr>sd_conn := c\<rparr>) = channel_inv s" "channel_inv (s\<lparr>sd_volume := v\<rparr>) = channel_inv s"
  "channel_inv (s\<lparr>sd_started := b\<rparr>) = channel_inv s" "channel_inv (s\<lparr>flush_requested := b\<rparr>) = channel_inv s"
  "channel_inv (s\<lparr>stop_closed := b\<rparr>) = channel_inv s" "channel_inv (s\<lparr>sockets_open := b\<rparr>) = channel_inv s"
  "channel_inv (s\<lparr>sd_state := x\<rparr>) = channel_inv s" "channel_inv (s\<lparr>sd_last_err := e\<rparr>) = channel_inv s"
  "channel_inv (s\<lparr>start_ts := a\<rparr>) = channel_inv s" "channel_inv (s\<lparr>head_ts := a\<rparr>) = channel_inv s"
  "channel_inv (s\<lparr>anchor_wall := n\<rparr>) = channel_inv s" "channel_inv (s\<lparr>anchor_frames := k\<rparr>) = channel_inv s"
  "channel_inv (s\<lparr>seqno := q\<rparr>) = channel_inv s" "channel_inv (s\<lparr>frames_sent := k\<rparr>) = channel_inv s"
  "channel_inv (s\<lparr>backlog := m\<rparr>) = channel_inv s" "channel_inv (s\<lparr>backlog_q := l\<rparr>) = channel_inv s"
  by (simp_all add: channel_inv_def)

lemma same_stream_updates [simp]:
  "same_stream s (s\<lparr>sd_conn := c\<rparr>)" "same_stream s (s\<lparr>sd_conn := c, sd_volume := v\<rparr>)"
  "same_stream s (set_sender_state x e s)" "same_stream s (rebase_pacing n s)" "same_stream s (reanchor n s)"
  "same_stream s (request_flush s)" "same_stream s (s\<lparr>flush_requested := b\<rparr>)"
  "same_stream s ((set_sender_state x e s)\<lparr>sd_started := b\<rparr>)"
  by (simp_all add: same_stream_def set_sender_state_def rebase_pacing_def reanchor_def request_flush_def Let_def)

lemma same_stream_pause [simp]: "same_stream s (pause s)"
  using pause_inv(1) [of s] by (auto simp: same_stream_def pause_def close_ch_def)

lemma same_stream_resume [simp]: "same_stream s (resume n s)"
  using resume_inv(1) [of s n] by (auto simp: same_stream_def resume_def close_ch_def)

lemma same_stream_volume [simp]: "same_stream s (snd (set_volume io p s))"
proof -
  obtain r t where r: "request s ''SET_PARAMETER'' [] ''text/parameters'' []
      (Some (volume_body (clamp_percent p))) io = (r, t)"
    by fastforce
  from request_eqD [OF this] obtain c where "t = s\<lparr>sd_conn := c\<rparr>"
    by blast
  then show ?thesis
    by (cases r) (simp_all add: set_volume_def Let_def r)
qed

lemma same_stream_feedback [simp]: "same_stream s (feedback io s)"
proof -
  obtain c where "feedback io s = s\<lparr>sd_conn := c\<rparr>"
    unfolding feedback_def using request_other by blast
  then show ?thesis
    by simp
qed

lemma same_stream_flush [simp]: "same_stream s (snd (flush n io s))"
proof -
  obtain r t where r: "request s ''FLUSH'' [] [] (flush_headers s) None io = (r, t)"
    by fastforce
  from request_eqD [OF this] obtain c where "t = s\<lparr>sd_conn := c\<rparr>"
    by blast
  then have "same_stream s t" "same_stream s (reanchor n t)"
    using same_stream_trans [OF _ same_stream_updates(5), of s t n] by simp_all
  then show ?thesis
    by (cases r) (simp_all add: flush_def r)
qed

lemma same_stream_close [simp]: "same_stream s (sender_close io s)"
proof -
  obtain c where c: "snd (request (s\<lparr>stop_closed := True\<rparr>) ''TEARDOWN'' [] [] [session_header s] None io)
      = (s\<lparr>stop_closed := True\<rparr>)\<lparr>sd_conn := c\<rparr>"
    using request_other by blast
  show ?thesis
    unfolding sender_close_def c by (simp add: same_stream_def set_sender_state_def)
qed

subsection \<open>The datagrams of a run\<close>

definition data_packets :: "emission list \<Rightarrow> byte list list" where
  "data_packets out = List.map_filter (\<lambda>e. case e of Data_Packet p \<Rightarrow> Some p | _ \<Rightarrow> None) out"

definition audio_packets :: "emission list \<Rightarrow> byte list list" where
  "audio_packets out =
     List.map_filter (\<lambda>e. case e of Data_Packet p \<Rightarrow> Some p | Drain_Packet p \<Rightarrow> Some p | _ \<Rightarrow> None) out"

lemma packets_append [simp]:
  "data_packets (a @ b) = data_packets a @ data_packets b"
  "audio_packets (a @ b) = audio_packets a @ audio_packets b"
  by (simp_all add: data_packets_def audio_packets_def map_filter_def)

lemma packets_simps [simp]:
  "data_packets [] = []" "data_packets (Data_Packet p # es) = p # data_packets es"
  "data_packets (Drain_Packet p # es) = data_packets es" "data_packets (Sync_Datagram p # es) = data_packets es"
  "data_packets (Progress n # es) = data_packets es"
  "audio_packets [] = []" "audio_packets (Data_Packet p # es) = p # audio_packets es"
  "audio_packets (Drain_Packet p # es) = p # audio_packets es" "audio_packets (Sync_Datagram p # es) = audio_packets es"
  "audio_packets (Progress n # es) = audio_packets es"
  by (simp_all add: data_packets_def audio_packets_def List.map_filter_simps)

fun data_phase :: "pc \<Rightarrow> bool" where
  "data_phase (Drain n) = False"
| "data_phase (Drain_Advance n) = False"
| "data_phase (Drain_Pace n) = False"
| "data_phase (Returned r) = False"
| "data_phase _ = True"

fun sent_not_counted :: "pc \<Rightarrow> nat" where
  "sent_not_counted (Advance e) = 1"
| "sent_not_counted (Drain_Advance n) = 1"
| "sent_not_counted _ = 0"

definition world_inv :: "world \<Rightarrow> bool" where
  "world_inv w \<longleftrightarrow>
     channel_inv (w_sender w)
     \<and> (\<exists>drains. audio_packets (w_out w) = data_packets (w_out w) @ drains
                \<and> (data_phase (loop_pc (w_loop w)) \<longrightarrow> drains = []))
     \<and> seqno (w_sender w) + of_nat (sent_not_counted (loop_pc (w_loop w)))
       = of_nat (length (audio_packets (w_out w)))
     \<and> (\<forall>k < length (audio_packets (w_out w)). get_be16 (audio_packets (w_out w) ! k) 2 = of_nat k)
     \<and> backlog_holds 0 (data_packets (w_out w)) (w_sender w)"

lemma same_stream_backlog: "same_stream s t \<Longrightarrow> backlog_holds q ps t = backlog_holds q ps s"
  by (simp add: same_stream_def backlog_holds_def)

text \<open>A step that sends no audio and counts none.\<close>

lemma world_inv_quiet:
  assumes "world_inv w" "same_stream (w_sender w) s" "audio_packets out = []" "data_packets out = []"
    and "sent_not_counted (loop_pc l) = 0" "sent_not_counted (loop_pc (w_loop w)) = 0"
    and "data_phase (loop_pc l) \<longrightarrow> data_phase (loop_pc (w_loop w))"
  shows "world_inv \<lparr>w_sender = s, w_loop = l, w_out = w_out w @ out\<rparr>"
  using assms same_stream_backlog [OF assms(2)] unfolding world_inv_def same_stream_def
  by auto

lemma same_stream_rebased [simp]:
  "same_stream s (rebase_pacing n ((set_sender_state x e s)\<lparr>sd_started := b\<rparr>))"
  "same_stream s (rebase_pacing n (snd (flush n io (s\<lparr>flush_requested := b\<rparr>))))"
  by (rule same_stream_trans, rule same_stream_updates, rule same_stream_updates)
     (rule same_stream_trans, rule same_stream_updates(7), rule same_stream_trans, rule same_stream_flush,
      rule same_stream_updates)

lemma goto_simps [simp]:
  "fst (goto p s l out) = s" "fst (snd (goto p s l out)) = l\<lparr>loop_pc := p\<rparr>" "snd (snd (goto p s l out)) = out"
  by (simp_all add: goto_def)

lemma sync_panic:
  assumes "validate (sd_format s) = None" "sample_rate (sd_format s) < 2 ^ 63"
  shows "sync_datagram s \<noteq> None"
proof -
  have "0 < sample_rate (sd_format s)"
    using assms(1) by (simp add: validate_None)
  then obtain n where "rtp_to_ntp (head_ts s) (sample_rate (sd_format s)) = Some n"
    using rtp_to_ntp_Some [of "sample_rate (sd_format s)" "head_ts s"] assms(2) by auto
  then show ?thesis
    by (simp add: sync_datagram_def split: prod.split)
qed

definition rate_ok :: "sender \<Rightarrow> bool" where
  "rate_ok s \<longleftrightarrow> validate (sd_format s) = None \<and> sample_rate (sd_format s) < 2 ^ 63"

lemma same_stream_rate: "same_stream s t \<Longrightarrow> rate_ok t = rate_ok s"
  by (simp add: same_stream_def rate_ok_def)

fun quiet_pc :: "pc \<Rightarrow> bool" where
  "quiet_pc (Send p e) = False"
| "quiet_pc (Advance e) = False"
| "quiet_pc (Drain n) = False"
| "quiet_pc (Drain_Advance n) = False"
| "quiet_pc _ = True"

definition quiet_step :: "sender \<Rightarrow> stream_loop \<Rightarrow> sender \<times> stream_loop \<times> emission list \<Rightarrow> bool" where
  "quiet_step s l r \<longleftrightarrow>
     same_stream s (fst r) \<and> audio_packets (snd (snd r)) = [] \<and> data_packets (snd (snd r)) = []
     \<and> sent_not_counted (loop_pc (fst (snd r))) = 0
     \<and> (data_phase (loop_pc (fst (snd r))) \<longrightarrow> data_phase (loop_pc l))"

lemma pace_quiet:
  assumes "sent_not_counted n = 0" "sent_not_counted (loop_pc l) = 0" "data_phase n \<longrightarrow> data_phase (loop_pc l)"
  shows "quiet_step s l (pace_step i n s l)"
  using assms by (auto simp: quiet_step_def pace_step_def split: select_case.split)

lemma stream_step_quiet:
  assumes "quiet_pc (loop_pc l)" "rate_ok s"
  shows "quiet_step s l (stream_step i s l)"
proof (cases "loop_pc l")
  case Read
  then show ?thesis
    by (simp add: stream_step.simps quiet_step_def Let_def split: option.split)
next
  case (Report e)
  then show ?thesis
    using sync_panic [of s] assms(2)
    by (auto simp: stream_step.simps quiet_step_def rate_ok_def Let_def split: option.split)
next
  case Pace
  then show ?thesis
    by (simp add: stream_step.simps pace_quiet)
next
  case (Drain_Pace n)
  then show ?thesis
    by (simp add: stream_step.simps pace_quiet)
qed (use assms in \<open>auto simp: stream_step.simps quiet_step_def take_flush_request_def split: select_case.split\<close>)

lemma quiet_step_inv:
  assumes "world_inv w" "quiet_step (w_sender w) (w_loop w) (s, l, out)" "sent_not_counted (loop_pc (w_loop w)) = 0"
  shows "world_inv \<lparr>w_sender = s, w_loop = l, w_out = w_out w @ out\<rparr>"
  using assms(2) by (intro world_inv_quiet [OF assms(1)]) (use assms(3) in \<open>simp_all add: quiet_step_def\<close>)

lemma advance_backlog [simp]: "backlog_holds q ps (advance_counters s) = backlog_holds q ps s"
  by (simp add: backlog_holds_def advance_counters_def)

lemma advance_fields [simp]:
  "channel_inv (advance_counters s) = channel_inv s" "seqno (advance_counters s) = seqno s + 1"
  "sd_format (advance_counters s) = sd_format s" "sd_ssrc (advance_counters s) = sd_ssrc s"
  by (simp_all add: advance_counters_def)

lemma remember_fields [simp]:
  "channel_inv (remember_packet n p s) = channel_inv s" "seqno (remember_packet n p s) = seqno s"
  "sd_format (remember_packet n p s) = sd_format s" "sd_ssrc (remember_packet n p s) = sd_ssrc s"
  "rtptime (remember_packet n p s) = rtptime s" "stop_closed (remember_packet n p s) = stop_closed s"
  "paused (remember_packet n p s) = paused s" "closed_chs (remember_packet n p s) = closed_chs s"
  by (simp_all add: remember_packet_def rtptime_def Let_def split: prod.split)

lemma audio_packet_fields [simp]:
  "get_be16 (build_audio_packet p f s) 2 = seqno s" "drop 12 (build_audio_packet p f s) = p"
  "length (build_audio_packet p f s) = 12 + length p"
  by (simp_all add: build_audio_packet_def)

lemma step_inv_advance:
  assumes "world_inv w" "sent_not_counted (loop_pc (w_loop w)) = 1" "sent_not_counted (loop_pc l) = 0"
    and "data_phase (loop_pc l) = data_phase (loop_pc (w_loop w))"
  shows "world_inv \<lparr>w_sender = advance_counters (w_sender w), w_loop = l, w_out = w_out w\<rparr>"
  using assms by (simp add: world_inv_def)

lemma step_inv_data:
  assumes "world_inv w" "data_phase (loop_pc (w_loop w))" "sent_not_counted (loop_pc (w_loop w)) = 0"
    and "loop_pc l = Advance e" "p = build_audio_packet payload f (w_sender w)"
  shows "world_inv \<lparr>w_sender = remember_packet (seqno (w_sender w)) p (w_sender w), w_loop = l,
           w_out = w_out w @ [Data_Packet p]\<rparr>"
proof -
  have same: "audio_packets (w_out w) = data_packets (w_out w)"
    and seq: "seqno (w_sender w) = of_nat (length (data_packets (w_out w)))"
    using assms(1-3) by (auto simp: world_inv_def)
  have "backlog_holds 0 (data_packets (w_out w) @ [p]) (remember_packet (seqno (w_sender w)) p (w_sender w))"
    using assms(1) seq by (intro remember_holds) (simp_all add: world_inv_def)
  then show ?thesis
    using assms same seq by (simp add: world_inv_def nth_append less_Suc_eq)
qed

lemma step_inv_drain:
  assumes "world_inv w" "sent_not_counted (loop_pc (w_loop w)) = 0"
    and "loop_pc l = Drain_Advance n" "p = build_audio_packet payload f (w_sender w)"
  shows "world_inv \<lparr>w_sender = w_sender w, w_loop = l, w_out = w_out w @ [Drain_Packet p]\<rparr>"
  using assms by (auto simp: world_inv_def nth_append less_Suc_eq)

lemma loop_step_inv:
  assumes "world_inv w" "rate_ok (w_sender w)"
  shows "world_inv (world_step (Loop i) w)"
proof -
  define s l where "s = w_sender w" and "l = w_loop w"
  show ?thesis
  proof (cases "loop_pc l")
    case (Send payload e)
    define p where "p = build_audio_packet payload (first_packet l) s"
    show ?thesis
    proof (cases "sockets_open s \<and> in_write_ok i")
      case True
      then have "stream_step i s l = (remember_packet (seqno s) p s,
          l\<lparr>first_packet := False, loop_pc := Advance e\<rparr>, [Data_Packet p])"
        using Send by (simp add: stream_step.simps goto_def Let_def p_def)
      then show ?thesis
        using step_inv_data [OF assms(1) _ _ _ p_def [unfolded s_def], of "l\<lparr>first_packet := False, loop_pc := Advance e\<rparr>" e]
          Send by (simp add: s_def [symmetric] l_def [symmetric])
    next
      case False
      then have "quiet_step s l (stream_step i s l)"
        using Send by (auto simp: stream_step.simps quiet_step_def Let_def)
      then show ?thesis
        using quiet_step_inv [OF assms(1)] Send
        by (cases "stream_step i s l") (simp add: s_def [symmetric] l_def [symmetric])
    qed
  next
    case (Advance e)
    then show ?thesis
      using step_inv_advance [OF assms(1), of "l\<lparr>loop_frames := frames_sent (advance_counters s), loop_pc := Report e\<rparr>"]
      by (simp add: stream_step.simps goto_def Let_def s_def [symmetric] l_def [symmetric])
  next
    case (Drain_Advance n)
    then show ?thesis
      using step_inv_advance [OF assms(1), of "l\<lparr>loop_frames := frames_sent (advance_counters s),
          loop_pc := Drain_Pace (n - frames_per_packet)\<rparr>"]
      by (simp add: stream_step.simps goto_def Let_def s_def [symmetric] l_def [symmetric])
  next
    case (Drain n)
    define p where "p = build_audio_packet (replicate (packet_bytes s) 0) False s"
    show ?thesis
    proof (cases "0 < n \<and> in_select i = Case_Event \<and> \<not> stop_closed s \<and> \<not> in_cancelled i \<and> sockets_open s \<and> in_write_ok i")
      case True
      then have "stream_step i s l = (s, l\<lparr>loop_pc := Drain_Advance n\<rparr>, [Drain_Packet p])"
        using Drain by (simp add: stream_step.simps goto_def p_def)
      then show ?thesis
        using step_inv_drain [OF assms(1) _ _ p_def [unfolded s_def], of "l\<lparr>loop_pc := Drain_Advance n\<rparr>" n]
          Drain by (simp add: s_def [symmetric] l_def [symmetric])
    next
      case False
      then have "quiet_step s l (stream_step i s l)"
        using Drain by (auto simp: stream_step.simps quiet_step_def split: select_case.split)
      then show ?thesis
        using quiet_step_inv [OF assms(1)] Drain
        by (cases "stream_step i s l") (simp add: s_def [symmetric] l_def [symmetric])
    qed
  qed (use stream_step_quiet [of l s i] quiet_step_inv [OF assms(1)] assms(2) in
      \<open>cases "stream_step i s l"; simp add: s_def [symmetric] l_def [symmetric]\<close>)+
qed

definition world_ok :: "world \<Rightarrow> bool" where
  "world_ok w \<longleftrightarrow> world_inv w \<and> rate_ok (w_sender w)"

lemma on_sender_ok:
  assumes "world_ok w" "same_stream (w_sender w) (f (w_sender w))"
  shows "world_ok (on_sender f w)"
  using assms same_stream_backlog [OF assms(2)] same_stream_rate [OF assms(2)]
  by (simp add: world_ok_def world_inv_def on_sender_def same_stream_def)

lemma loop_rate: "rate_ok (w_sender w) \<Longrightarrow> rate_ok (w_sender (world_step (Loop i) w))"
proof -
  have "sd_format (fst (stream_step i s l)) = sd_format s" for s l
  proof (cases "loop_pc l")
    case (Send p e)
    then show ?thesis
      by (simp add: stream_step.simps Let_def)
  next
    case (Advance e)
    then show ?thesis
      by (simp add: stream_step.simps Let_def)
  next
    case Check_Flush
    have "sd_format (rebase_pacing n (snd (flush n io (s\<lparr>flush_requested := b\<rparr>)))) = sd_format s" for n io b
      using same_stream_rebased(2) [of s n io b] by (simp only: same_stream_def)
    then show ?thesis
      using Check_Flush by (simp add: stream_step.simps take_flush_request_def)
  qed (auto simp: stream_step.simps rebase_pacing_def pace_step_def Let_def split: select_case.split option.split)
  then show "rate_ok (w_sender w) \<Longrightarrow> rate_ok (w_sender (world_step (Loop i) w))"
    by (simp add: rate_ok_def split: prod.split) (metis fst_conv)
qed

interpretation streaming: machine world_step world_ok
proof unfold_locales
  fix w and a
  assume ok: "world_ok w"
  show "world_ok (world_step a w)"
  proof (cases a)
    case (Loop i)
    then show ?thesis
      using ok loop_step_inv loop_rate by (simp add: world_ok_def del: world_step.simps)
  next
    case (Swap pcm)
    then show ?thesis
      using ok by (simp add: world_ok_def world_inv_def)
  qed (use ok in \<open>simp_all add: on_sender_ok\<close>)
qed

definition startable :: "sender \<Rightarrow> bool" where
  "startable s \<longleftrightarrow> fresh_sender s \<and> rate_ok s"

lemma new_world_ok [simp]: "startable s \<Longrightarrow> world_ok (new_world s pcm)"
  by (simp add: startable_def world_ok_def world_inv_def new_world_def initial_loop_def fresh_sender_def)

lemma run_ok: "startable s \<Longrightarrow> world_ok (fold world_step es (new_world s pcm))"
  by (rule streaming.run_inv) simp

text \<open>
  C8: Whatever the application does while a stream runs (any interleaving of the loop with pauses,
  resumes, flushes, seeks, volume changes and a close), the k-th audio datagram carries sequence
  number k, so the receiver sees neither a gap nor a repetition that the network did not cause, and
  no operation ever closes a channel twice.
\<close>

lemma datagrams_numbered_in_order:
  assumes "startable s" "w = fold world_step es (new_world s pcm)"
  shows "(\<forall>k < length (audio_packets (w_out w)). get_be16 (audio_packets (w_out w) ! k) 2 = of_nat k)
       \<and> \<not> sd_panicked (w_sender w)"
  using run_ok [OF assms(1), of es pcm] assms(2)
  by (simp add: world_ok_def world_inv_def channel_inv_def)

text \<open>
  At any moment of any run, a retransmission request for packets among the last thousand the
  stream sent is answered with exactly those packets, in order and byte for byte, each behind its
  reply header.
\<close>

lemma retransmits_what_was_sent:
  assumes "startable s" "w = fold world_step es (new_world s pcm)"
    and "ps = data_packets (w_out w)" "length ps \<le> a + 1000" "a + c \<le> length ps" "c \<le> 128"
    and "8 \<le> length buf" "buf ! 1 AND 0x7F = 0x55" "get_be16 buf 4 = of_nat a" "get_be16 buf 6 = of_nat c"
  shows "serve_control buf (w_sender w) = map retransmit_reply (take c (drop a ps))"
proof -
  have holds: "backlog_holds 0 ps (w_sender w)"
    using run_ok [OF assms(1), of es pcm] assms(2,3) by (simp add: world_ok_def world_inv_def)
  have "unat (get_be16 buf 6) = c"
    using assms(6,10) by (simp add: unsigned_of_nat take_bit_nat_eq_self_iff)
  then show ?thesis
    using assms(4-9) by (intro serve_control_window [OF holds]) (simp_all add: window_start_def backlog_size_def)
qed

text \<open>A sender and inputs for the examples.\<close>

definition demo_sender :: sender where
  "demo_sender =
     (initial_sender living_room \<lparr>sample_rate = 44100, channels = 1, bit_depth = 16\<rparr>
        \<lparr>cseq = 0, session_id = 9, dacp_id = [], active_remote = 0, local_ip = [], remote_ip = [],
         pending_request = [], unread = []\<rparr> unix_epoch unix_epoch)
       \<lparr>audio_ready := True, sockets_open := True\<rparr>"

lemma demo_startable [simp]: "startable demo_sender"
  by (simp add: startable_def demo_sender_def initial_fresh)
     (simp add: rate_ok_def initial_sender_def validate_def Let_def)

definition smooth :: stream_input where
  "smooth = \<lparr>in_now = unix_epoch, in_cancelled = False, in_select = Case_Event, in_read_error = None,
     in_write_ok = True, in_io = (False, True, [])\<rparr>"

lemma datagrams_numbered_in_order_witness:
  "\<not> sd_panicked (w_sender (fold world_step [Loop smooth, Pause, Pause, Resume 5, Resume 6] (new_world demo_sender [])))"
  using datagrams_numbered_in_order [OF demo_startable refl, of "[Loop smooth, Pause, Pause, Resume 5, Resume 6]" "[]"]
  by blast

lemma demo_fields:
  "audio_ready demo_sender" "sockets_open demo_sender" "\<not> stop_closed demo_sender" "closed_chs demo_sender = []"
  "\<not> flush_requested demo_sender" "sd_format demo_sender = \<lparr>sample_rate = 44100, channels = 1, bit_depth = 16\<rparr>"
  by (simp_all add: demo_sender_def initial_sender_def Let_def)

lemma demo_packet_bytes [simp]:
  "sd_format s = \<lparr>sample_rate = 44100, channels = 1, bit_depth = 16\<rparr> \<Longrightarrow> packet_bytes s = 704"
  by (simp add: packet_bytes_def packet_size_def frame_size_def frames_per_packet_def)

lemma demo_run:
  "\<exists>p. data_packets (w_out (fold world_step (replicate 6 (Loop smooth)) (new_world demo_sender [1, 2]))) = [p]"
proof -
  have six: "replicate 6 x = [x, x, x, x, x, x]" for x :: event
    by (simp add: numeral_eq_Suc)
  show ?thesis
    unfolding six new_world_def initial_loop_def
    by (simp add: stream_step.simps goto_def smooth_def demo_fields rebase_pacing_def take_flush_request_def
        set_sender_state_def Let_def)
qed

lemma retransmits_what_was_sent_witness:
  "length (serve_control [0x80, 0xD5, 0, 1, 0, 0, 0, 1]
     (w_sender (fold world_step (replicate 6 (Loop smooth)) (new_world demo_sender [1, 2])))) = 1"
proof -
  obtain p where p: "data_packets (w_out (fold world_step (replicate 6 (Loop smooth)) (new_world demo_sender [1, 2]))) = [p]"
    using demo_run by blast
  have "serve_control [0x80, 0xD5, 0, 1, 0, 0, 0, 1]
     (w_sender (fold world_step (replicate 6 (Loop smooth)) (new_world demo_sender [1, 2])))
     = map retransmit_reply (take 1 (drop 0 [p]))"
    by (rule retransmits_what_was_sent [OF demo_startable refl p [symmetric]])
       (simp_all add: get_be16_def)
  then show ?thesis
    by simp
qed

subsection \<open>Every sample of the source is delivered in order\<close>

text \<open>
  What the packets sent so far, the packet in hand and the rest of the source add up to, by the
  place of the loop; \<open>z\<close> zeros pad the last packet.
\<close>

fun stage_ok :: "nat \<Rightarrow> byte list \<Rightarrow> byte list \<Rightarrow> byte list \<Rightarrow> pc \<Rightarrow> bool" where
  "stage_ok z pcm sent left (Send p e) \<longleftrightarrow>
     sent @ p @ left = pcm @ replicate z 0 \<and> (if e then left = [] else z = 0)"
| "stage_ok z pcm sent left (Advance e) \<longleftrightarrow>
     sent @ left = pcm @ replicate z 0 \<and> (if e then left = [] else z = 0)"
| "stage_ok z pcm sent left (Report e) \<longleftrightarrow>
     sent @ left = pcm @ replicate z 0 \<and> (if e then left = [] else z = 0)"
| "stage_ok z pcm sent left (Returned (Some err)) \<longleftrightarrow> prefix sent (pcm @ replicate z 0)"
| "stage_ok z pcm sent left Start_Drain \<longleftrightarrow> sent = pcm @ replicate z 0 \<and> left = []"
| "stage_ok z pcm sent left (Drain n) \<longleftrightarrow> sent = pcm @ replicate z 0 \<and> left = []"
| "stage_ok z pcm sent left (Drain_Advance n) \<longleftrightarrow> sent = pcm @ replicate z 0 \<and> left = []"
| "stage_ok z pcm sent left (Drain_Pace n) \<longleftrightarrow> sent = pcm @ replicate z 0 \<and> left = []"
| "stage_ok z pcm sent left (Returned None) \<longleftrightarrow> sent = pcm @ replicate z 0 \<and> left = []"
| "stage_ok z pcm sent left _ \<longleftrightarrow> sent @ left = pcm \<and> z = 0"

definition sent_pcm :: "emission list \<Rightarrow> byte list" where
  "sent_pcm out = concat (map (drop 12) (data_packets out))"

lemma sent_pcm_simps [simp]:
  "sent_pcm (a @ b) = sent_pcm a @ sent_pcm b" "sent_pcm [] = []" "sent_pcm [Data_Packet p] = drop 12 p"
  "sent_pcm [Drain_Packet p] = []"
  by (simp_all add: sent_pcm_def)

definition payload_inv :: "byte list \<Rightarrow> world \<Rightarrow> bool" where
  "payload_inv pcm w \<longleftrightarrow>
     (\<exists>z. (z = 0 \<or> z < packet_bytes (w_sender w))
          \<and> stage_ok z pcm (sent_pcm (w_out w)) (pcm_left (w_loop w)) (loop_pc (w_loop w)))"

lemma stage_prefix: "stage_ok z pcm sent left p \<Longrightarrow> prefix sent (pcm @ replicate z 0)"
  by (cases "(z, pcm, sent, left, p)" rule: stage_ok.cases) (auto simp: prefix_def, metis+)

lemma packet_bytes_pos: "rate_ok s \<Longrightarrow> 0 < packet_bytes s"
  using packet_size_valid [of "sd_format s"] by (simp add: rate_ok_def packet_bytes_def)

lemma same_stream_bytes: "same_stream s t \<Longrightarrow> packet_bytes t = packet_bytes s"
  by (simp add: same_stream_def packet_bytes_def)

lemma advance_bytes [simp]: "packet_bytes (advance_counters s) = packet_bytes s"
  by (simp add: packet_bytes_def)

lemma remember_bytes [simp]: "packet_bytes (remember_packet n p s) = packet_bytes s"
  by (simp add: packet_bytes_def)

lemma quiet_sent: "quiet_step s l (s', l', out) \<Longrightarrow> sent_pcm out = [] \<and> packet_bytes s' = packet_bytes s"
  using same_stream_bytes by (auto simp: quiet_step_def sent_pcm_def)

text \<open>Steps that neither read nor send: the place changes, the source does not.\<close>

definition plain_step :: "nat \<Rightarrow> byte list \<Rightarrow> byte list \<Rightarrow> stream_loop \<Rightarrow> sender \<times> stream_loop \<times> emission list \<Rightarrow> bool" where
  "plain_step z pcm sent l r \<longleftrightarrow>
     pcm_left (fst (snd r)) = pcm_left l \<and> stage_ok z pcm sent (pcm_left l) (loop_pc (fst (snd r)))"

lemma plain_stage:
  assumes "stage_ok z pcm sent (pcm_left l) (loop_pc l)" "loop_pc l \<noteq> Read" "\<And>p e. loop_pc l \<noteq> Send p e"
  shows "plain_step z pcm sent l (stream_step i s l)"
proof -
  note pre = stage_prefix [OF assms(1)]
  have pace: "plain_step z pcm sent l (pace_step i n s l)" if "stage_ok z pcm sent (pcm_left l) n" for n
    using that pre assms(1) by (auto simp: plain_step_def pace_step_def split: select_case.split)
  show ?thesis
  proof (cases "loop_pc l")
    case Pace
    then show ?thesis
      using pace [of Top] assms(1) by (simp add: stream_step.simps)
  next
    case (Drain_Pace n)
    then show ?thesis
      using pace [of "Drain n"] assms(1) by (simp add: stream_step.simps)
  next
    case (Report e)
    then show ?thesis
      using assms(1) by (cases e) (auto simp: stream_step.simps plain_step_def Let_def)
  next
    case (Drain n)
    then show ?thesis
      using pre assms(1) by (auto simp: stream_step.simps plain_step_def split: select_case.split)
  next
    case (Parked ch)
    then show ?thesis
      using pre assms(1) by (auto simp: stream_step.simps plain_step_def split: select_case.split)
  qed (use pre assms in \<open>auto simp: stream_step.simps plain_step_def take_flush_request_def Let_def\<close>)
qed

lemma payload_read:
  assumes "stage_ok z pcm sent (pcm_left l) Read" "loop_pc l = Read" "0 < packet_bytes s"
  shows "\<exists>z'. (z' = 0 \<or> z' < packet_bytes s)
    \<and> stage_ok z' pcm sent (pcm_left (fst (snd (stream_step i s l)))) (loop_pc (fst (snd (stream_step i s l))))"
proof (cases "in_read_error i")
  case (Some e)
  then show ?thesis
    using assms by (intro exI [of _ 0]) (auto simp: stream_step.simps)
next
  case None
  define n where "n = packet_bytes s"
  define data where "data = take n (pcm_left l)"
  have split: "data @ drop n (pcm_left l) = pcm_left l" and sum: "sent @ pcm_left l = pcm"
    using assms(1) by (simp_all add: data_def)
  show ?thesis
  proof (cases "length data < n")
    case True
    then have "drop n (pcm_left l) = []" "data = pcm_left l"
      by (simp_all add: data_def)
    then show ?thesis
      using True None assms(2) sum
      by (intro exI [of _ "if data = [] then 0 else n - length data"])
        (auto simp: stream_step.simps Let_def n_def [symmetric] data_def [symmetric] pad_packet_def)
  next
    case False
    then have "length data = n" "data \<noteq> []"
      using assms(3) by (auto simp: data_def n_def)
    then show ?thesis
      using None assms(2) sum split
      by (intro exI [of _ 0]) (simp add: stream_step.simps Let_def n_def [symmetric] data_def [symmetric] pad_packet_def)
  qed
qed

lemma step_bytes [simp]: "packet_bytes (fst (stream_step i s l)) = packet_bytes s"
proof -
  define w where "w = \<lparr>w_sender = s, w_loop = l, w_out = []\<rparr>"
  have "sd_format (fst (stream_step i s l)) = sd_format s"
  proof (cases "loop_pc l")
    case (Send p e)
    then show ?thesis
      by (simp add: stream_step.simps Let_def)
  next
    case (Advance e)
    then show ?thesis
      by (simp add: stream_step.simps Let_def)
  next
    case Check_Flush
    have "sd_format (rebase_pacing n (snd (flush n io (s\<lparr>flush_requested := b\<rparr>)))) = sd_format s" for n io b
      using same_stream_rebased(2) [of s n io b] by (simp only: same_stream_def)
    then show ?thesis
      using Check_Flush by (simp add: stream_step.simps take_flush_request_def)
  qed (auto simp: stream_step.simps rebase_pacing_def pace_step_def Let_def split: select_case.split option.split)
  then show ?thesis
    by (simp add: packet_bytes_def)
qed

lemma loop_payload:
  assumes "payload_inv pcm w" "rate_ok (w_sender w)"
  shows "payload_inv pcm (world_step (Loop i) w)"
proof -
  define s l where "s = w_sender w" and "l = w_loop w"
  obtain z where z: "z = 0 \<or> z < packet_bytes s" and ok: "stage_ok z pcm (sent_pcm (w_out w)) (pcm_left l) (loop_pc l)"
    using assms(1) by (auto simp: payload_inv_def s_def l_def)
  obtain s' l' out where st: "stream_step i s l = (s', l', out)"
    by (metis prod_cases3)
  have w': "world_step (Loop i) w = \<lparr>w_sender = s', w_loop = l', w_out = w_out w @ out\<rparr>"
    using st by (simp add: s_def l_def)
  have bytes: "packet_bytes s' = packet_bytes s"
    using step_bytes [of i s l] by (simp add: st)
  have goal: "payload_inv pcm (world_step (Loop i) w)"
    if "z' = 0 \<or> z' < packet_bytes s" "stage_ok z' pcm (sent_pcm (w_out w) @ sent_pcm out) (pcm_left l') (loop_pc l')" for z'
    using that unfolding w' payload_inv_def by (auto simp: bytes)
  have quiet: "sent_pcm out = []" if "quiet_step s l (stream_step i s l)"
    using quiet_sent that st by simp
  have easy: "payload_inv pcm (world_step (Loop i) w)" if "quiet_pc (loop_pc l)" "loop_pc l \<noteq> Read"
  proof -
    have "sent_pcm out = []"
      using that(1) assms(2) by (intro quiet stream_step_quiet) (simp_all add: s_def)
    moreover have "plain_step z pcm (sent_pcm (w_out w)) l (stream_step i s l)"
      by (rule plain_stage [OF ok that(2)]) (use that(1) in auto)
    ultimately show ?thesis
      using goal [OF z] by (simp add: plain_step_def st del: world_step.simps)
  qed
  have pos: "0 < packet_bytes s"
    using packet_bytes_pos assms(2) by (simp add: s_def)
  show ?thesis
  proof (cases "loop_pc l")
    case Read
    obtain z' where "z' = 0 \<or> z' < packet_bytes s" "stage_ok z' pcm (sent_pcm (w_out w)) (pcm_left l') (loop_pc l')"
      using payload_read [OF ok [unfolded Read] Read pos, of i] by (auto simp: st)
    moreover have "sent_pcm out = []"
      using Read assms(2) by (intro quiet stream_step_quiet) (simp_all add: s_def)
    ultimately show ?thesis
      using goal [of z'] by simp
  next
    case (Send p e)
    show ?thesis
    proof (cases "sockets_open s \<and> in_write_ok i")
      case True
      then have "pcm_left l' = pcm_left l" "loop_pc l' = Advance e" "sent_pcm out = p"
        using st Send by (auto simp: stream_step.simps goto_def Let_def)
      then show ?thesis
        using goal [OF z] ok Send by simp
    next
      case False
      then have "pcm_left l' = pcm_left l" "loop_pc l' = Returned (Some Err_Send)" "sent_pcm out = []"
        using st Send by (auto simp: stream_step.simps goto_def Let_def)
      then show ?thesis
        using goal [OF z] stage_prefix [OF ok] by simp
    qed
  next
    case (Advance e)
    then have "sent_pcm out = []"
      using st by (auto simp: stream_step.simps goto_def Let_def)
    then show ?thesis
      using goal [OF z] plain_stage [OF ok, of i s] Advance by (simp add: plain_step_def st)
  next
    case (Drain n)
    then have "sent_pcm out = []"
      using st by (auto simp: stream_step.simps goto_def split: if_splits select_case.splits)
    then show ?thesis
      using goal [OF z] plain_stage [OF ok, of i s] Drain by (simp add: plain_step_def st)
  next
    case (Drain_Advance n)
    then have "sent_pcm out = []"
      using st by (auto simp: stream_step.simps goto_def Let_def)
    then show ?thesis
      using goal [OF z] plain_stage [OF ok, of i s] Drain_Advance by (simp add: plain_step_def st)
  qed (rule easy; simp)+
qed

fun swaps :: "event \<Rightarrow> bool" where
  "swaps (Swap pcm) = True"
| "swaps _ = False"

lemma on_sender_payload:
  assumes "payload_inv pcm w" "same_stream (w_sender w) (f (w_sender w))"
  shows "payload_inv pcm (on_sender f w)"
  using assms same_stream_bytes [OF assms(2)] by (auto simp: payload_inv_def on_sender_def)

lemma run_payload:
  assumes "\<forall>e \<in> set es. \<not> swaps e" "world_ok w" "payload_inv pcm w"
  shows "payload_inv pcm (fold world_step es w)"
  using assms
proof (induction es arbitrary: w)
  case (Cons e es)
  have "payload_inv pcm (world_step e w)"
  proof (cases e)
    case (Loop i)
    then show ?thesis
      using loop_payload Cons.prems by (simp add: world_ok_def del: world_step.simps)
  next
    case (Swap p)
    with Cons.prems show ?thesis
      by simp
  qed (use Cons.prems in \<open>simp_all add: on_sender_payload\<close>)
  then show ?case
    using Cons streaming.step_inv by (simp del: world_step.simps)
qed simp

text \<open>
  C3: The receiver is sent the source and nothing else.  In every interleaving of the loop with
  pauses, resumes, flushes, volume changes and a close (no seek), the audio sent so far is a prefix
  of the PCM stream followed by less than one packet of zeros; when the loop has returned without
  an error it is the whole stream.
\<close>

lemma stream_delivers_source:
  assumes "startable s" "\<forall>e \<in> set es. \<not> swaps e" "w = fold world_step es (new_world s pcm)"
  shows "\<exists>z. (z = 0 \<or> z < packet_bytes (w_sender w))
           \<and> prefix (sent_pcm (w_out w)) (pcm @ replicate z 0)
           \<and> (loop_pc (w_loop w) = Returned None \<longrightarrow> sent_pcm (w_out w) = pcm @ replicate z 0)"
proof -
  have "payload_inv pcm (new_world s pcm)"
    by (auto simp: payload_inv_def new_world_def initial_loop_def sent_pcm_def)
  then obtain z where z: "z = 0 \<or> z < packet_bytes (w_sender w)"
    and ok: "stage_ok z pcm (sent_pcm (w_out w)) (pcm_left (w_loop w)) (loop_pc (w_loop w))"
    using run_payload [OF assms(2) new_world_ok [OF assms(1)]] assms(3) by (auto simp: payload_inv_def)
  have "loop_pc (w_loop w) = Returned None \<longrightarrow> sent_pcm (w_out w) = pcm @ replicate z 0"
    using ok by auto
  then show ?thesis
    using z stage_prefix [OF ok] by blast
qed

lemma stream_delivers_source_witness:
  "\<exists>z. prefix (sent_pcm (w_out (fold world_step (replicate 6 (Loop smooth)) (new_world demo_sender [1, 2]))))
      ([1, 2] @ replicate z 0)"
  using stream_delivers_source [OF demo_startable _ refl, of "replicate 6 (Loop smooth)" "[1, 2]"] by auto

subsection \<open>Pausing, resuming, closing\<close>

text \<open>The data packets the loop may still send before it meets the pause.\<close>

definition in_hand :: "world \<Rightarrow> nat" where
  "in_hand w =
     (case loop_pc (w_loop w) of
        Check_Flush \<Rightarrow> 1 | Read \<Rightarrow> 1 | Send p e \<Rightarrow> 1
      | Parked ch \<Rightarrow> if ch \<in> set (closed_chs (w_sender w)) then 1 else 0
      | _ \<Rightarrow> 0)"

definition data_count :: "world \<Rightarrow> nat" where
  "data_count w = length (data_packets (w_out w))"

fun resumes :: "event \<Rightarrow> bool" where
  "resumes (Resume n) = True"
| "resumes _ = False"

text \<open>Every operation but pause and resume leaves the channels alone.\<close>

definition same_channels :: "sender \<Rightarrow> sender \<Rightarrow> bool" where
  "same_channels s t \<longleftrightarrow>
     paused t = paused s \<and> pause_ch t = pause_ch s \<and> resume_ch t = resume_ch s \<and> closed_chs t = closed_chs s"

lemma same_channels_refl [simp]: "same_channels s s"
  by (simp add: same_channels_def)

lemma same_channels_trans: "same_channels s t \<Longrightarrow> same_channels t u \<Longrightarrow> same_channels s u"
  by (simp add: same_channels_def)

lemma same_channels_updates [simp]:
  "same_channels s (s\<lparr>sd_conn := c\<rparr>)" "same_channels s (s\<lparr>sd_conn := c, sd_volume := v\<rparr>)"
  "same_channels s (set_sender_state x e s)" "same_channels s (rebase_pacing n s)" "same_channels s (reanchor n s)"
  "same_channels s (request_flush s)" "same_channels s (s\<lparr>flush_requested := b\<rparr>)"
  "same_channels s ((set_sender_state x e s)\<lparr>sd_started := b\<rparr>)" "same_channels s (s\<lparr>sd_panicked := b\<rparr>)"
  "same_channels s (advance_counters s)" "same_channels s (remember_packet q p s)"
  by (simp_all add: same_channels_def set_sender_state_def rebase_pacing_def reanchor_def request_flush_def
      advance_counters_def remember_packet_def Let_def split: prod.split)

lemma same_channels_volume [simp]: "same_channels s (snd (set_volume io p s))"
proof -
  obtain r t where r: "request s ''SET_PARAMETER'' [] ''text/parameters'' []
      (Some (volume_body (clamp_percent p))) io = (r, t)"
    by fastforce
  from request_eqD [OF this] obtain c where "t = s\<lparr>sd_conn := c\<rparr>"
    by blast
  then show ?thesis
    by (cases r) (simp_all add: set_volume_def Let_def r)
qed

lemma same_channels_feedback [simp]: "same_channels s (feedback io s)"
proof -
  obtain c where "feedback io s = s\<lparr>sd_conn := c\<rparr>"
    unfolding feedback_def using request_other by blast
  then show ?thesis
    by simp
qed

lemma same_channels_flush [simp]: "same_channels s (snd (flush n io s))"
proof -
  obtain r t where r: "request s ''FLUSH'' [] [] (flush_headers s) None io = (r, t)"
    by fastforce
  from request_eqD [OF this] obtain c where "t = s\<lparr>sd_conn := c\<rparr>"
    by blast
  then have "same_channels s t" "same_channels s (reanchor n t)"
    using same_channels_trans [OF _ same_channels_updates(5), of s t n] by simp_all
  then show ?thesis
    by (cases r) (simp_all add: flush_def r)
qed

lemma same_channels_close [simp]: "same_channels s (sender_close io s)"
proof -
  obtain c where c: "snd (request (s\<lparr>stop_closed := True\<rparr>) ''TEARDOWN'' [] [] [session_header s] None io)
      = (s\<lparr>stop_closed := True\<rparr>)\<lparr>sd_conn := c\<rparr>"
    using request_other by blast
  show ?thesis
    unfolding sender_close_def c by (simp add: same_channels_def set_sender_state_def)
qed

lemma same_channels_rebased [simp]:
  "same_channels s (rebase_pacing n ((set_sender_state x e s)\<lparr>sd_started := b\<rparr>))"
  "same_channels s (rebase_pacing n (snd (flush n io (s\<lparr>flush_requested := b\<rparr>))))"
  by (rule same_channels_trans, rule same_channels_updates, rule same_channels_updates)
     (rule same_channels_trans, rule same_channels_updates(7), rule same_channels_trans, rule same_channels_flush,
      rule same_channels_updates)

lemma stream_step_channels: "same_channels s (fst (stream_step i s l))"
proof (cases "loop_pc l")
  case Pace
  then show ?thesis
    by (simp add: stream_step.simps pace_step_def split: select_case.split)
next
  case (Drain_Pace n)
  then show ?thesis
    by (simp add: stream_step.simps pace_step_def split: select_case.split)
qed (auto simp: stream_step.simps take_flush_request_def Let_def split: select_case.split option.split)

definition credit :: "sender \<Rightarrow> pc \<Rightarrow> nat" where
  "credit s p =
     (case p of
        Check_Flush \<Rightarrow> 1 | Read \<Rightarrow> 1 | Send p e \<Rightarrow> 1
      | Parked ch \<Rightarrow> if ch \<in> set (closed_chs s) then 1 else 0
      | _ \<Rightarrow> 0)"

lemma in_hand_credit: "in_hand w = credit (w_sender w) (loop_pc (w_loop w))"
  by (simp add: in_hand_def credit_def)

lemma credit_simps [simp]:
  "credit s Check_Flush = 1" "credit s Read = 1" "credit s (Send p e) = 1"
  "credit s (Parked ch) = (if ch \<in> set (closed_chs s) then 1 else 0)" "credit s Top = 0" "credit s Pace = 0"
  "credit s Start = 0" "credit s Check_Pause = 0" "credit s (Advance e) = 0" "credit s (Report e) = 0"
  "credit s Start_Drain = 0" "credit s (Drain n) = 0" "credit s (Drain_Advance n) = 0"
  "credit s (Drain_Pace n) = 0" "credit s (Returned r) = 0"
  by (simp_all add: credit_def)

lemma stream_step_credit:
  assumes "paused s" "channel_inv s"
  shows "length (data_packets (snd (snd (stream_step i s l)))) + credit s (loop_pc (fst (snd (stream_step i s l))))
       \<le> credit s (loop_pc l)"
proof (cases "loop_pc l")
  case Check_Pause
  then show ?thesis
    using assms by (simp add: stream_step.simps channel_inv_def)
next
  case Pace
  then show ?thesis
    by (simp add: stream_step.simps pace_step_def split: select_case.split)
next
  case (Drain_Pace n)
  then show ?thesis
    by (simp add: stream_step.simps pace_step_def split: select_case.split)
next
  case (Parked ch)
  then show ?thesis
    by (simp add: stream_step.simps split: select_case.split)
qed (auto simp: stream_step.simps take_flush_request_def Let_def split: select_case.split option.split)

lemma credit_channels: "same_channels s t \<Longrightarrow> credit t p = credit s p"
  by (simp add: credit_def same_channels_def split: pc.split)

lemma on_sender_credit:
  assumes "same_channels (w_sender w) (f (w_sender w))"
  shows "paused (w_sender (on_sender f w)) = paused (w_sender w)" "in_hand (on_sender f w) = in_hand w"
    "data_count (on_sender f w) = data_count w"
  using assms credit_channels [OF assms] by (simp_all add: on_sender_def same_channels_def in_hand_credit data_count_def)

lemma paused_step:
  assumes "paused (w_sender w)" "world_ok w" "\<not> resumes e"
  shows "paused (w_sender (world_step e w)) \<and>
    data_count (world_step e w) + in_hand (world_step e w) \<le> data_count w + in_hand w"
proof (cases e)
  case (Loop i)
  have ch: "channel_inv (w_sender w)"
    using assms(2) by (simp add: world_ok_def world_inv_def)
  have same: "same_channels (w_sender w) (fst (stream_step i (w_sender w) (w_loop w)))"
    by (rule stream_step_channels)
  have w': "world_step e w = \<lparr>w_sender = fst (stream_step i (w_sender w) (w_loop w)),
      w_loop = fst (snd (stream_step i (w_sender w) (w_loop w))),
      w_out = w_out w @ snd (snd (stream_step i (w_sender w) (w_loop w)))\<rparr>"
    by (simp add: Loop split: prod.split)
  show ?thesis
    unfolding w' using stream_step_credit [OF assms(1) ch, of i "w_loop w"] same assms(1)
    by (simp add: in_hand_credit data_count_def credit_channels [OF same]) (simp add: same_channels_def)
next
  case Pause
  have "same_channels (w_sender w) (pause (w_sender w))"
    using assms(1) by (simp add: pause_def)
  then show ?thesis
    using Pause assms(1) by (simp add: on_sender_credit)
next
  case (Resume n)
  with assms(3) show ?thesis
    by simp
next
  case (Swap p)
  with assms(1) show ?thesis
    by (simp add: in_hand_credit data_count_def)
qed (use assms(1) in \<open>simp_all add: on_sender_credit\<close>)

lemma paused_run:
  assumes "\<forall>e \<in> set es. \<not> resumes e" "paused (w_sender w)" "world_ok w"
  shows "data_count (fold world_step es w) \<le> data_count w + in_hand w"
  using assms
proof (induction es arbitrary: w)
  case (Cons e es)
  note step = paused_step [OF Cons.prems(2,3), of e]
  have "data_count (fold world_step es (world_step e w)) \<le> data_count (world_step e w) + in_hand (world_step e w)"
    using Cons streaming.step_inv step by (simp del: world_step.simps)
  with step Cons.prems(1) show ?case
    by simp
qed simp

text \<open>
  C20: A pause takes effect within one packet: from the moment it is called, whatever the loop and
  the other operations do until a resume, at most one more packet of the source leaves the sender.
\<close>

lemma pause_stops_delivery:
  assumes "startable s" "w = fold world_step es (new_world s pcm)" "\<forall>e \<in> set fs. \<not> resumes e"
  shows "length (data_packets (w_out (fold world_step (Pause # fs) w))) \<le> length (data_packets (w_out w)) + 1"
proof -
  have ok: "world_ok w"
    using run_ok [OF assms(1)] assms(2) by simp
  have "paused (w_sender (world_step Pause w))"
    using pause_inv(2) ok by (simp add: on_sender_def world_ok_def world_inv_def)
  moreover have "world_ok (world_step Pause w)"
    by (rule streaming.step_inv [OF ok])
  ultimately have "data_count (fold world_step fs (world_step Pause w))
      \<le> data_count (world_step Pause w) + in_hand (world_step Pause w)"
    using paused_run assms(3) by blast
  moreover have "in_hand (world_step Pause w) \<le> 1" "data_count (world_step Pause w) = data_count w"
    by (auto simp: in_hand_def data_count_def on_sender_def split: pc.split)
  ultimately show ?thesis
    by (simp add: data_count_def)
qed

lemma pause_stops_delivery_witness:
  "length (data_packets (w_out (fold world_step (Pause # replicate 50 (Loop smooth))
      (fold world_step (replicate 5 (Loop smooth)) (new_world demo_sender (replicate 5000 7)))))) 
   \<le> length (data_packets (w_out (fold world_step (replicate 5 (Loop smooth)) (new_world demo_sender (replicate 5000 7))))) + 1"
  by (rule pause_stops_delivery [OF demo_startable refl]) simp

definition park_ok :: "world \<Rightarrow> bool" where
  "park_ok w \<longleftrightarrow>
     (\<forall>ch. loop_pc (w_loop w) = Parked ch \<longrightarrow>
        ch \<in> set (closed_chs (w_sender w)) \<or> paused (w_sender w) \<and> ch = resume_ch (w_sender w))"

lemma on_sender_park: "park_ok w \<Longrightarrow> same_channels (w_sender w) (f (w_sender w)) \<Longrightarrow> park_ok (on_sender f w)"
  by (simp add: park_ok_def on_sender_def same_channels_def)

lemma park_step:
  assumes "park_ok w" "world_ok w"
  shows "park_ok (world_step e w)"
proof (cases e)
  case (Loop i)
  define s l where "s = w_sender w" and "l = w_loop w"
  have ch: "channel_inv s"
    using assms(2) by (simp add: world_ok_def world_inv_def s_def)
  have same: "same_channels s (fst (stream_step i s l))"
    by (rule stream_step_channels)
  have "c \<in> set (closed_chs s) \<or> paused s \<and> c = resume_ch s"
    if "loop_pc (fst (snd (stream_step i s l))) = Parked c" for c
  proof (cases "loop_pc l")
    case Check_Pause
    then show ?thesis
      using that ch by (auto simp: stream_step.simps channel_inv_def split: if_splits)
  next
    case (Parked d)
    then show ?thesis
      using that assms(1) by (auto simp: stream_step.simps park_ok_def s_def l_def split: if_splits select_case.splits)
  qed (use that in \<open>auto simp: stream_step.simps pace_step_def take_flush_request_def Let_def
        split: if_splits select_case.splits option.splits\<close>)
  then show ?thesis
    using same by (auto simp: Loop park_ok_def s_def [symmetric] l_def [symmetric] same_channels_def split: prod.split)
next
  case Pause
  then show ?thesis
    using assms by (auto simp: park_ok_def on_sender_def pause_def close_ch_def)
next
  case (Resume n)
  then show ?thesis
    using assms by (auto simp: park_ok_def on_sender_def resume_def close_ch_def)
next
  case (Swap p)
  then show ?thesis
    using assms(1) by (simp add: park_ok_def)
qed (use assms(1) in \<open>simp_all add: on_sender_park\<close>)

lemma park_run: "world_ok w \<Longrightarrow> park_ok w \<Longrightarrow> park_ok (fold world_step es w)"
proof (induction es arbitrary: w)
  case (Cons e es)
  then show ?case
    using park_step streaming.step_inv by (simp del: world_step.simps)
qed simp



text \<open>Whether the sender is stopped, and whether its sockets are open.\<close>

definition wires :: "sender \<Rightarrow> bool \<times> bool" where
  "wires s = (stop_closed s, sockets_open s)"

lemma request_wires: "wires (snd (request s m u ct hs b io)) = wires s"
  using request_other [of s m u ct hs b io] by (auto simp: wires_def)

lemma wires_updates [simp]:
  "wires (set_sender_state x e s) = wires s" "wires (reanchor n s) = wires s" "wires (rebase_pacing n s) = wires s"
  "wires (advance_counters s) = wires s" "wires (remember_packet q p s) = wires s"
  "wires (s\<lparr>flush_requested := b\<rparr>) = wires s" "wires (s\<lparr>sd_started := b\<rparr>) = wires s"
  "wires (s\<lparr>sd_panicked := b\<rparr>) = wires s" "wires (request_flush s) = wires s" "wires (s\<lparr>sd_volume := v\<rparr>) = wires s"
  by (simp_all add: wires_def rebase_pacing_def advance_counters_def remember_packet_def request_flush_def
      Let_def split: prod.split)

lemma wires_ops [simp]:
  "wires (pause s) = wires s" "wires (resume n s) = wires s" "wires (feedback io s) = wires s"
  "wires (snd (flush n io s)) = wires s" "wires (snd (set_volume io p s)) = wires s"
proof -
  show "wires (pause s) = wires s" "wires (resume n s) = wires s"
    by (simp_all add: pause_def resume_def close_ch_def wires_def)
  show "wires (feedback io s) = wires s"
    by (simp add: feedback_def request_wires)
  have split: "wires (snd (case r of (Inl e, t) \<Rightarrow> f e t | (Inr x, t) \<Rightarrow> g x t)) = wires s"
    if "wires (snd r) = wires s" "\<And>e t. wires (snd (f e t)) = wires t" "\<And>x t. wires (snd (g x t)) = wires t"
    for r :: "(rtsp_error + response) \<times> sender" and f g
    using that by (cases r; cases "fst r") auto
  show "wires (snd (flush n io s)) = wires s"
    unfolding flush_def by (rule split) (auto simp: request_wires)
  show "wires (snd (set_volume io p s)) = wires s"
    unfolding set_volume_def Let_def by (rule split) (auto simp: request_wires)
qed

lemma stream_step_wires: "wires (fst (stream_step i s l)) = wires s"
proof (cases "loop_pc l")
  case Pace
  then show ?thesis
    by (simp add: stream_step.simps pace_step_def split: select_case.split)
next
  case (Drain_Pace n)
  then show ?thesis
    by (simp add: stream_step.simps pace_step_def split: select_case.split)
qed (auto simp: stream_step.simps take_flush_request_def Let_def split: select_case.split option.split)

lemma silent_emits:
  assumes "wires s = (True, False)"
  shows "audio_packets (snd (snd (stream_step i s l))) = []"
proof (cases "loop_pc l")
  case Pace
  then show ?thesis
    by (simp add: stream_step.simps pace_step_def split: select_case.split)
next
  case (Drain_Pace n)
  then show ?thesis
    by (simp add: stream_step.simps pace_step_def split: select_case.split)
qed (use assms in \<open>auto simp: stream_step.simps take_flush_request_def Let_def wires_def
      split: select_case.split option.split\<close>)

definition close_ok :: "world \<Rightarrow> bool" where
  "close_ok w \<longleftrightarrow> wires (w_sender w) \<noteq> (True, True)"

lemma wires_close: "wires (sender_close io s) = (if stop_closed s then wires s else (True, False))"
proof (cases "stop_closed s")
  case False
  then show ?thesis
    using sender_close_closed(1) [of io s] sender_close_closed(2) [OF False, of io] by (simp add: wires_def)
qed (simp add: sender_close_def)

lemma world_wires:
  "wires (w_sender (world_step e w)) =
     (case e of Close io \<Rightarrow> if stop_closed (w_sender w) then wires (w_sender w) else (True, False)
      | _ \<Rightarrow> wires (w_sender w))"
proof (cases e)
  case (Loop i)
  then show ?thesis
    using stream_step_wires [of i "w_sender w" "w_loop w"] by (auto split: prod.split)
qed (simp_all add: on_sender_def wires_close)

interpretation closing: machine world_step close_ok
proof unfold_locales
  fix w e
  show "close_ok w \<Longrightarrow> close_ok (world_step e w)"
    by (simp add: close_ok_def world_wires split: event.split)
qed

lemma silent_run:
  "wires (w_sender w) = (True, False) \<Longrightarrow> audio_packets (w_out (fold world_step es w)) = audio_packets (w_out w)"
proof (induction es arbitrary: w)
  case (Cons e es)
  have "wires (w_sender (world_step e w)) = (True, False)"
    unfolding world_wires using Cons.prems by (simp split: event.split)
  moreover have "audio_packets (w_out (world_step e w)) = audio_packets (w_out w)"
  proof (cases e)
    case (Loop i)
    then show ?thesis
      using silent_emits [OF Cons.prems, of i "w_loop w"] by (auto split: prod.split)
  qed (simp_all add: on_sender_def)
  ultimately show ?case
    using Cons.IH by (simp del: world_step.simps)
qed simp

text \<open>
  C23: After a close not a single audio datagram leaves the sender, whatever the loop and the other
  operations still do, and a second close changes nothing (no second TEARDOWN is sent).
\<close>

lemma close_silences_sender:
  assumes "startable s" "w = fold world_step es (new_world s pcm)"
  shows "audio_packets (w_out (fold world_step (Close io # fs) w)) = audio_packets (w_out w)
       \<and> sender_close io' (sender_close io (w_sender w)) = sender_close io (w_sender w)"
proof -
  have "close_ok (new_world s pcm)"
    using assms(1) by (simp add: close_ok_def new_world_def startable_def fresh_sender_def wires_def)
  then have "close_ok w"
    unfolding assms(2) by (rule closing.run_inv)
  then have "wires (w_sender (world_step (Close io) w)) = (True, False)"
    unfolding world_wires close_ok_def by (auto simp: wires_def)
  then have "audio_packets (w_out (fold world_step fs (world_step (Close io) w))) = audio_packets (w_out (world_step (Close io) w))"
    by (rule silent_run)
  then have "audio_packets (w_out (fold world_step (Close io # fs) w)) = audio_packets (w_out w)"
    by (simp add: on_sender_def)
  moreover have "sender_close io' t = t" if "stop_closed t" for t
    using that by (simp add: sender_close_def)
  ultimately show ?thesis
    using sender_close_closed(1) by blast
qed

lemma close_silences_sender_witness:
  "audio_packets (w_out (fold world_step (Close (False, True, []) # replicate 50 (Loop smooth))
      (fold world_step (replicate 5 (Loop smooth)) (new_world demo_sender (replicate 5000 7)))))
   = audio_packets (w_out (fold world_step (replicate 5 (Loop smooth)) (new_world demo_sender (replicate 5000 7))))"
  by (rule conjunct1 [OF close_silences_sender [OF demo_startable refl]])

subsection \<open>The RTP timeline\<close>

definition clockless :: "sender \<Rightarrow> u32 \<times> u32 \<times> bool \<times> u32" where
  "clockless s = (start_ts s, head_ts s, flush_requested s, sd_ssrc s)"

lemma clockless_updates [simp]:
  "clockless (set_sender_state x e s) = clockless s" "clockless (rebase_pacing n s) = clockless s"
  "clockless (remember_packet q p s) = clockless s" "clockless (s\<lparr>sd_started := b\<rparr>) = clockless s"
  "clockless (s\<lparr>sd_panicked := b\<rparr>) = clockless s" "clockless (pause s) = clockless s"
  by (simp_all add: clockless_def rebase_pacing_def remember_packet_def set_sender_state_def pause_def close_ch_def
      Let_def split: prod.split)

lemma clockless_request: "clockless (snd (request s m u ct hs b io)) = clockless s"
  using request_other [of s m u ct hs b io] by (auto simp: clockless_def)

lemma clockless_ops [simp]:
  "clockless (snd (set_volume io p s)) = clockless s" "clockless (feedback io s) = clockless s"
  "clockless (sender_close io s) = clockless s"
proof -
  show "clockless (feedback io s) = clockless s"
    by (simp add: feedback_def clockless_request)
  obtain c where c: "snd (request (s\<lparr>stop_closed := True\<rparr>) ''TEARDOWN'' [] [] [session_header s] None io)
      = (s\<lparr>stop_closed := True\<rparr>)\<lparr>sd_conn := c\<rparr>"
    using request_other by blast
  show "clockless (sender_close io s) = clockless s"
    unfolding sender_close_def c by (simp add: clockless_def set_sender_state_def)
  obtain r t where r: "request s ''SET_PARAMETER'' [] ''text/parameters'' []
      (Some (volume_body (clamp_percent p))) io = (r, t)"
    by fastforce
  from request_eqD [OF this] obtain c where "t = s\<lparr>sd_conn := c\<rparr>"
    by blast
  then show "clockless (snd (set_volume io p s)) = clockless s"
    by (cases r) (simp_all add: set_volume_def Let_def r clockless_def)
qed

definition timestamp :: "nat \<Rightarrow> u32" where
  "timestamp k = word_of_int (latency_frames + frames_per_packet * int k)"

definition timeline_inv :: "world \<Rightarrow> bool" where
  "timeline_inv w \<longleftrightarrow>
     \<not> flush_requested (w_sender w)
     \<and> sent_not_counted (loop_pc (w_loop w)) \<le> length (audio_packets (w_out w))
     \<and> rtptime (w_sender w) = timestamp (length (audio_packets (w_out w)) - sent_not_counted (loop_pc (w_loop w)))
     \<and> (loop_pc (w_loop w) = Start \<longrightarrow> data_packets (w_out w) = [])
     \<and> (data_phase (loop_pc (w_loop w)) \<longrightarrow> (first_packet (w_loop w) \<longleftrightarrow> data_packets (w_out w) = []))
     \<and> (\<forall>k < length (data_packets (w_out w)). \<exists>payload.
          data_packets (w_out w) ! k = audio_packet (of_nat k) (timestamp k) (sd_ssrc (w_sender w)) (k = 0) payload)"

fun moves_clock :: "event \<Rightarrow> bool" where
  "moves_clock (Resume n) = True"
| "moves_clock Request_Flush = True"
| "moves_clock _ = False"

lemma rtptime_clockless: "clockless s = clockless t \<Longrightarrow> rtptime s = rtptime t"
  by (simp add: clockless_def rtptime_def)

lemma on_sender_timeline:
  assumes "timeline_inv w" "clockless (f (w_sender w)) = clockless (w_sender w)"
  shows "timeline_inv (on_sender f w)"
  using assms rtptime_clockless [OF assms(2)] by (simp add: timeline_inv_def on_sender_def clockless_def)

text \<open>A step that neither sends nor counts.\<close>

definition still_step :: "sender \<Rightarrow> stream_loop \<Rightarrow> sender \<times> stream_loop \<times> emission list \<Rightarrow> bool" where
  "still_step s l r \<longleftrightarrow>
     clockless (fst r) = clockless s \<and> audio_packets (snd (snd r)) = [] \<and> data_packets (snd (snd r)) = []
     \<and> sent_not_counted (loop_pc (fst (snd r))) = 0 \<and> (loop_pc (fst (snd r)) = Start \<longrightarrow> loop_pc l = Start)
     \<and> (data_phase (loop_pc (fst (snd r))) \<longrightarrow> data_phase (loop_pc l)
        \<and> (first_packet (fst (snd r)) = first_packet l \<or> loop_pc l = Start \<and> first_packet (fst (snd r))))"

lemma still_timeline:
  assumes "timeline_inv w" "still_step (w_sender w) (w_loop w) (s, l, out)" "sent_not_counted (loop_pc (w_loop w)) = 0"
  shows "timeline_inv \<lparr>w_sender = s, w_loop = l, w_out = w_out w @ out\<rparr>"
proof -
  have "clockless s = clockless (w_sender w)"
    using assms(2) by (simp add: still_step_def)
  then show ?thesis
    using assms rtptime_clockless [of s "w_sender w"]
    by (auto simp: timeline_inv_def still_step_def clockless_def)
qed

lemma stream_step_still:
  assumes "\<not> flush_requested s" "quiet_pc (loop_pc l)"
  shows "still_step s l (stream_step i s l)"
proof (cases "loop_pc l")
  case Pace
  then show ?thesis
    by (auto simp: stream_step.simps still_step_def pace_step_def split: select_case.split)
next
  case (Drain_Pace n)
  then show ?thesis
    by (auto simp: stream_step.simps still_step_def pace_step_def split: select_case.split)
next
  case Check_Flush
  have "clockless (s\<lparr>flush_requested := False\<rparr>) = clockless s"
    using assms(1) by (simp add: clockless_def)
  then show ?thesis
    using Check_Flush assms(1) by (simp add: stream_step.simps still_step_def take_flush_request_def)
qed (use assms in \<open>auto simp: stream_step.simps still_step_def Let_def split: select_case.split option.split\<close>)

lemma rtptime_advance: "rtptime s = timestamp k \<Longrightarrow> rtptime (advance_counters s) = timestamp (Suc k)"
proof -
  assume "rtptime s = timestamp k"
  moreover have "rtptime (advance_counters s) = rtptime s + word_of_int frames_per_packet"
    by (simp add: rtptime_def advance_counters_def)
  moreover have "timestamp (Suc k) = timestamp k + word_of_int frames_per_packet"
    by (simp add: timestamp_def algebra_simps)
  ultimately show ?thesis
    by simp
qed

lemma advance_other [simp]:
  "flush_requested (advance_counters s) = flush_requested s" "sd_ssrc (advance_counters s) = sd_ssrc s"
  by (simp_all add: advance_counters_def)

lemma loop_timeline:
  assumes "timeline_inv w" "world_ok w"
  shows "timeline_inv (world_step (Loop i) w)"
proof -
  define s l where "s = w_sender w" and "l = w_loop w"
  obtain s' l' out where st: "stream_step i s l = (s', l', out)"
    by (metis prod_cases3)
  have w': "world_step (Loop i) w = \<lparr>w_sender = s', w_loop = l', w_out = w_out w @ out\<rparr>"
    using st by (simp add: s_def l_def)
  have still: "timeline_inv (world_step (Loop i) w)"
    if "still_step s l (s', l', out)" "sent_not_counted (loop_pc l) = 0"
    unfolding w' by (rule still_timeline [OF assms(1)]) (use that in \<open>simp_all add: s_def l_def\<close>)
  have nf: "\<not> flush_requested s"
    using assms(1) by (simp add: timeline_inv_def s_def)
  have count: "timeline_inv (world_step (Loop i) w)"
    if "s' = advance_counters s" "sent_not_counted (loop_pc l) = 1" "sent_not_counted (loop_pc l') = 0" "out = []"
      "loop_pc l' \<noteq> Start" "data_phase (loop_pc l') = data_phase (loop_pc l)" "first_packet l' = first_packet l"
  proof -
    have "1 \<le> length (audio_packets (w_out w))"
      using assms(1) that(2) by (simp add: timeline_inv_def l_def)
    then obtain n where n: "length (audio_packets (w_out w)) = Suc n"
      by (cases "length (audio_packets (w_out w))") simp_all
    show ?thesis
      unfolding w' using assms(1) that rtptime_advance [of s n] n by (simp add: timeline_inv_def s_def l_def)
  qed
  have seq: "seqno s = of_nat (length (data_packets (w_out w)))"
    and same: "audio_packets (w_out w) = data_packets (w_out w)"
    if "data_phase (loop_pc l)" "sent_not_counted (loop_pc l) = 0"
    using assms(2) that by (auto simp: world_ok_def world_inv_def s_def l_def)
  have easy: "timeline_inv (world_step (Loop i) w)" if "quiet_pc (loop_pc l)"
    using stream_step_still [OF nf that, of i] that st by (intro still) (cases "loop_pc l"; simp)+
  show ?thesis
  proof (cases "loop_pc l")
    case (Send payload e)
    show ?thesis
    proof (cases "sockets_open s \<and> in_write_ok i")
      case True
      define p where "p = build_audio_packet payload (first_packet l) s"
      have "s' = remember_packet (seqno s) p s" "l' = l\<lparr>first_packet := False, loop_pc := Advance e\<rparr>"
        "out = [Data_Packet p]"
        using True Send st by (auto simp: stream_step.simps goto_def Let_def p_def)
      moreover have "p = audio_packet (of_nat k) (timestamp k) (sd_ssrc s) (k = 0) payload"
        if "k = length (data_packets (w_out w))" for k
        using that seq same Send assms(1)
        by (simp add: p_def build_audio_packet_def timeline_inv_def s_def l_def)
      moreover have "rtptime s' = rtptime s" "clockless s' = clockless s"
        using calculation(1) by simp_all
      ultimately show ?thesis
        unfolding w' using assms(1) Send same nf
        by (auto simp: timeline_inv_def s_def l_def nth_append less_Suc_eq clockless_def)
    next
      case False
      then show ?thesis
        using Send st by (intro still) (auto simp: stream_step.simps goto_def Let_def still_step_def)
    qed
  next
    case (Advance e)
    then show ?thesis
      using st by (intro count) (auto simp: stream_step.simps goto_def Let_def)
  next
    case (Drain_Advance n)
    then show ?thesis
      using st by (intro count) (auto simp: stream_step.simps goto_def Let_def)
  next
    case (Drain n)
    show ?thesis
    proof (cases "\<exists>p. out = [Drain_Packet p]")
      case True
      then have "s' = s" "loop_pc l' = Drain_Advance n"
        using st Drain by (auto simp: stream_step.simps goto_def split: if_splits select_case.splits)
      then show ?thesis
        unfolding w' using True assms(1) Drain by (auto simp: timeline_inv_def s_def l_def)
    next
      case False
      then have "still_step s l (s', l', out)"
        using st Drain by (auto simp: stream_step.simps goto_def still_step_def split: if_splits select_case.splits)
      then show ?thesis
        using Drain by (intro still) simp_all
    qed
  qed (rule easy; simp)+
qed

lemma run_timeline:
  assumes "\<forall>e \<in> set es. \<not> moves_clock e" "world_ok w" "timeline_inv w"
  shows "timeline_inv (fold world_step es w)"
  using assms
proof (induction es arbitrary: w)
  case (Cons e es)
  have "timeline_inv (world_step e w)"
  proof (cases e)
    case (Loop i)
    then show ?thesis
      using loop_timeline Cons.prems by (simp del: world_step.simps)
  next
    case (Swap p)
    with Cons.prems show ?thesis
      by (simp add: timeline_inv_def)
  qed (use Cons.prems in \<open>simp_all add: on_sender_timeline\<close>)
  then show ?case
    using Cons streaming.step_inv by (simp del: world_step.simps)
qed simp

text \<open>
  C19: As long as the stream is neither resumed nor flushed, the k-th datagram is exactly the RTP
  packet with sequence number k, time stamp 66150 + 352 k (in 32 bits), the session's SSRC, and the
  marker bit on the first one only: the receiver's clock advances by one packet per packet.
\<close>

lemma rtp_timeline_exact:
  assumes "startable s" "\<forall>e \<in> set es. \<not> moves_clock e" "w = fold world_step es (new_world s pcm)"
    and "k < length (data_packets (w_out w))"
  shows "\<exists>payload. data_packets (w_out w) ! k
           = audio_packet (of_nat k) (word_of_int (66150 + 352 * int k)) (sd_ssrc (w_sender w)) (k = 0) payload"
proof -
  have "timeline_inv (new_world s pcm)"
    using assms(1)
    by (simp add: timeline_inv_def new_world_def initial_loop_def startable_def fresh_sender_def rtptime_def timestamp_def)
  then have "timeline_inv w"
    unfolding assms(3) by (rule run_timeline [OF assms(2) new_world_ok [OF assms(1)]])
  then show ?thesis
    using assms(4) by (auto simp: timeline_inv_def timestamp_def latency_frames_def rtp_time_scale_def frames_per_packet_def)
qed

lemma rtp_timeline_exact_witness:
  "\<exists>payload. data_packets (w_out (fold world_step (replicate 6 (Loop smooth)) (new_world demo_sender [1, 2]))) ! 0
     = audio_packet 0 66150 (sd_ssrc (w_sender (fold world_step (replicate 6 (Loop smooth)) (new_world demo_sender [1, 2]))))
         True payload"
proof -
  have "0 < length (data_packets (w_out (fold world_step (replicate 6 (Loop smooth)) (new_world demo_sender [1, 2]))))"
    using demo_run by auto
  from rtp_timeline_exact [OF demo_startable _ refl this] show ?thesis
    by simp
qed

subsection \<open>The stream comes to its end\<close>

definition smooth_input :: "stream_input \<Rightarrow> bool" where
  "smooth_input i \<longleftrightarrow>
     \<not> in_cancelled i \<and> in_select i = Case_Event \<and> in_read_error i = None \<and> in_write_ok i"

definition running :: "sender \<Rightarrow> bool" where
  "running s \<longleftrightarrow> \<not> stop_closed s \<and> sockets_open s \<and> audio_ready s \<and> pause_ch s \<notin> set (closed_chs s) \<and> rate_ok s"

definition drain_steps :: "int \<Rightarrow> nat" where
  "drain_steps n = nat ((n + 351) div 352)"

definition packets_left :: "nat \<Rightarrow> nat \<Rightarrow> nat" where
  "packets_left n k = (k + n - 1) div n"

text \<open>An upper bound on the steps to the end, for packets of \<open>n\<close> bytes and \<open>k\<close> bytes left to read.\<close>

fun work :: "nat \<Rightarrow> nat \<Rightarrow> pc \<Rightarrow> nat" where
  "work n k Start = 8 * packets_left n k + 571"
| "work n k Top = 8 * packets_left n k + 570"
| "work n k Check_Pause = 8 * packets_left n k + 569"
| "work n k (Parked ch) = 8 * packets_left n k + 569"
| "work n k Check_Flush = 8 * packets_left n k + 568"
| "work n k Read = 8 * packets_left n k + 567"
| "work n k (Send p e) = (if e then 569 else 8 * packets_left n k + 574)"
| "work n k (Advance e) = (if e then 568 else 8 * packets_left n k + 573)"
| "work n k (Report e) = (if e then 567 else 8 * packets_left n k + 572)"
| "work n k Pace = 8 * packets_left n k + 571"
| "work n k Start_Drain = 566"
| "work n k (Drain d) = 3 * drain_steps d + 1"
| "work n k (Drain_Advance d) = 3 * drain_steps (d - 352) + 3"
| "work n k (Drain_Pace d) = 3 * drain_steps d + 2"
| "work n k (Returned r) = 0"

lemma drain_steps_pos: "0 < d \<Longrightarrow> drain_steps d = Suc (drain_steps (d - 352))"
proof -
  assume "0 < d"
  then have "0 \<le> (d - 1) div 352"
    by simp
  moreover have "(d + 351) div 352 = (d - 1) div 352 + 1"
    using div_add_self1 [of 352 "d - 1"] by (simp add: add.commute)
  moreover have "(d - 352 + 351) div 352 = (d - 1) div 352"
    by simp
  ultimately show ?thesis
    by (simp add: drain_steps_def nat_add_distrib)
qed

lemma packets_left_drop:
  assumes "0 < n" "n \<le> k"
  shows "packets_left n k = Suc (packets_left n (k - n))"
proof -
  have "k + n - 1 = n + (k - 1)"
    using assms by simp
  moreover have "(n + (k - 1)) div n = Suc ((k - 1) div n)"
    using assms(1) div_add_self1 [of n "k - 1"] by simp
  ultimately have "(k + n - 1) div n = Suc ((k - 1) div n)"
    by (simp only:)
  moreover have "k - n + n - 1 = k - 1"
    using assms by simp
  ultimately show ?thesis
    by (simp add: packets_left_def)
qed

lemma packets_left_pos: "0 < n \<Longrightarrow> 0 < k \<Longrightarrow> 0 < packets_left n k"
  by (simp add: packets_left_def div_greater_zero_iff)

definition going :: "pc \<Rightarrow> bool" where
  "going p \<longleftrightarrow> (\<forall>r. p \<noteq> Returned (Some r)) \<and> (\<forall>ch. p \<noteq> Parked ch)"

definition good_step :: "sender \<Rightarrow> stream_loop \<Rightarrow> sender \<times> stream_loop \<times> emission list \<Rightarrow> bool" where
  "good_step s l r \<longleftrightarrow>
     going (loop_pc (fst (snd r)))
     \<and> (loop_pc l \<noteq> Returned None \<longrightarrow>
          work (packet_bytes s) (length (pcm_left (fst (snd r)))) (loop_pc (fst (snd r)))
          < work (packet_bytes s) (length (pcm_left l)) (loop_pc l))"

lemma good_read:
  assumes "smooth_input i" "running s" "loop_pc l = Read"
  shows "good_step s l (stream_step i s l)"
proof -
  define n where "n = packet_bytes s"
  have n: "0 < n"
    using assms(2) packet_bytes_pos by (simp add: running_def n_def)
  consider "pcm_left l = []" | "pcm_left l \<noteq> []" "length (pcm_left l) < n" | "n \<le> length (pcm_left l)"
    by linarith
  then show ?thesis
  proof cases
    case 1
    then show ?thesis
      using assms n by (simp add: stream_step.simps smooth_input_def good_step_def going_def n_def [symmetric])
  next
    case 2
    then have "0 < packets_left n (length (pcm_left l))"
      by (intro packets_left_pos n) simp
    then show ?thesis
      using assms 2 by (simp add: stream_step.simps smooth_input_def good_step_def going_def n_def [symmetric])
  next
    case 3
    then have "take n (pcm_left l) \<noteq> []"
      using n by auto
    then show ?thesis
      using assms 3 packets_left_drop [OF n 3]
      by (simp add: stream_step.simps smooth_input_def good_step_def going_def n_def [symmetric])
  qed
qed

lemma good_smooth:
  assumes "smooth_input i" "running s" "going (loop_pc l)"
  shows "good_step s l (stream_step i s l)"
proof (cases "loop_pc l")
  case Read
  then show ?thesis
    by (rule good_read [OF assms(1,2)])
next
  case (Drain d)
  then show ?thesis
    using assms drain_steps_pos [of d]
    by (auto simp: stream_step.simps smooth_input_def running_def good_step_def going_def)
next
  case (Drain_Advance d)
  then show ?thesis
    by (simp add: stream_step.simps good_step_def going_def Let_def frames_per_packet_def)
next
  case Start_Drain
  have "drain_steps latency_frames = 188"
    by (simp add: drain_steps_def latency_frames_def rtp_time_scale_def)
  with Start_Drain show ?thesis
    by (simp add: stream_step.simps good_step_def going_def)
next
  case Pace
  then show ?thesis
    using assms by (simp add: stream_step.simps pace_step_def smooth_input_def good_step_def going_def)
next
  case (Drain_Pace d)
  then show ?thesis
    using assms by (simp add: stream_step.simps pace_step_def smooth_input_def good_step_def going_def)
qed (use assms in \<open>auto simp: stream_step.simps smooth_input_def running_def good_step_def going_def
      take_flush_request_def Let_def\<close>)

lemma audio_ready_request: "audio_ready (snd (request s m u ct hs b io)) = audio_ready s"
  using request_other [of s m u ct hs b io] by auto

lemma audio_ready_flush [simp]: "audio_ready (snd (flush n io s)) = audio_ready s"
proof -
  obtain r t where r: "request s ''FLUSH'' [] [] (flush_headers s) None io = (r, t)"
    by fastforce
  then have "audio_ready t = audio_ready s"
    using audio_ready_request [of s "''FLUSH''" "[]" "[]" "flush_headers s" None io] by simp
  then show ?thesis
    by (cases r) (simp_all add: flush_def r)
qed

lemma step_audio_ready: "audio_ready (fst (stream_step i s l)) = audio_ready s"
proof (cases "loop_pc l")
  case Pace
  then show ?thesis
    by (simp add: stream_step.simps pace_step_def split: select_case.split)
next
  case (Drain_Pace n)
  then show ?thesis
    by (simp add: stream_step.simps pace_step_def split: select_case.split)
qed (auto simp: stream_step.simps take_flush_request_def rebase_pacing_def advance_counters_def remember_packet_def
      Let_def split: select_case.split option.split prod.split)

lemma running_step:
  assumes "running s"
  shows "running (fst (stream_step i s l))"
proof -
  have "rate_ok (w_sender (world_step (Loop i) \<lparr>w_sender = s, w_loop = l, w_out = []\<rparr>))"
    by (rule loop_rate) (use assms in \<open>simp add: running_def\<close>)
  then have "rate_ok (fst (stream_step i s l))"
    by (simp split: prod.splits)
  then show ?thesis
    using assms stream_step_wires [of i s l] stream_step_channels [of s i l] step_audio_ready [of i s l]
    by (simp add: running_def wires_def same_channels_def)
qed

lemma smooth_run:
  assumes "\<forall>i \<in> set ins. smooth_input i" "running (w_sender w)" "going (loop_pc (w_loop w))"
    and "work (packet_bytes (w_sender w)) (length (pcm_left (w_loop w))) (loop_pc (w_loop w)) \<le> length ins"
  shows "loop_pc (w_loop (fold world_step (map Loop ins) w)) = Returned None"
  using assms
proof (induction ins arbitrary: w)
  case Nil
  then show ?case
    by (cases "loop_pc (w_loop w)") (auto simp: going_def split: if_splits option.splits)
next
  case (Cons i ins)
  define s l where "s = w_sender w" and "l = w_loop w"
  define r where "r = stream_step i s l"
  have w': "world_step (Loop i) w = \<lparr>w_sender = fst r, w_loop = fst (snd r), w_out = w_out w @ snd (snd r)\<rparr>"
    by (simp add: r_def s_def l_def split: prod.split)
  have good: "good_step s l r"
    using Cons.prems good_smooth [of i s l] by (simp add: r_def s_def l_def)
  have bytes: "packet_bytes (fst r) = packet_bytes s"
    by (simp add: r_def)
  have "work (packet_bytes s) (length (pcm_left (fst (snd r)))) (loop_pc (fst (snd r))) \<le> length ins"
  proof (cases "loop_pc l = Returned None")
    case True
    then show ?thesis
      by (simp add: r_def stream_step.simps)
  next
    case False
    then show ?thesis
      using good Cons.prems(4) by (simp add: good_step_def s_def l_def)
  qed
  moreover have "running (fst r)"
    using Cons.prems(2) running_step by (simp add: r_def s_def)
  ultimately show ?case
    using Cons.IH [of "world_step (Loop i) w"] Cons.prems(1) good
    by (simp add: w' good_step_def bytes del: world_step.simps)
qed

text \<open>
  C13: A stream that nothing disturbs ends, and within a known number of steps: whatever the clock
  reads, after 8 steps per packet of the source and 571 more the loop has returned without an error,
  and the receiver was sent the whole source, padded with less than one packet of zeros.
\<close>

lemma stream_terminates:
  assumes "startable s" "audio_ready s" "sockets_open s" "\<forall>i \<in> set ins. smooth_input i"
    and "8 * packets_left (packet_bytes s) (length pcm) + 571 \<le> length ins"
    and "w = fold world_step (map Loop ins) (new_world s pcm)"
  shows "loop_pc (w_loop w) = Returned None
       \<and> (\<exists>z. (z = 0 \<or> z < packet_bytes (w_sender w)) \<and> sent_pcm (w_out w) = pcm @ replicate z 0)"
proof -
  have "running s"
    using assms(1-3) by (simp add: startable_def running_def fresh_sender_def channel_inv_def)
  then have end_pc: "loop_pc (w_loop w) = Returned None"
    unfolding assms(6) by (intro smooth_run) (use assms(4,5) in \<open>simp_all add: new_world_def initial_loop_def going_def\<close>)
  have "payload_inv pcm (new_world s pcm)"
    by (auto simp: payload_inv_def new_world_def initial_loop_def sent_pcm_def)
  then have "payload_inv pcm w"
    unfolding assms(6) by (intro run_payload new_world_ok assms(1)) auto
  then show ?thesis
    using end_pc by (auto simp: payload_inv_def)
qed

lemma stream_terminates_witness:
  "loop_pc (w_loop (fold world_step (map Loop (replicate 600 smooth)) (new_world demo_sender [1, 2]))) = Returned None"
proof -
  have sf: "\<forall>i \<in> set (replicate 600 smooth). smooth_input i"
    by (simp add: smooth_input_def smooth_def)
  have "packet_bytes demo_sender = 704"
    by (rule demo_packet_bytes) (simp add: demo_fields)
  then have "8 * packets_left (packet_bytes demo_sender) (length [1 :: byte, 2]) + 571 \<le> length (replicate 600 smooth)"
    by (simp add: packets_left_def)
  from stream_terminates [OF demo_startable demo_fields(1,2) sf this refl] show ?thesis
    by blast
qed

subsection \<open>Pacing\<close>

text \<open>
  Pacing follows the wall clock exactly: the slot of a frame is the anchor plus its playing time
  rounded down to a nanosecond, as long as fewer than 9223372036 frames (58 hours at 44.1 kHz)
  follow the anchor; the next frame wraps the product negative and its slot lies before the anchor.
\<close>

lemma pacing_slot:
  assumes "anchor_wall s \<noteq> 0" "rate_ok s" "d = uint (frames - anchor_frames s)"
  shows "(d \<le> 9223372036 \<longrightarrow>
            pacing_target now frames s = anchor_wall s + d * 1000000000 div sample_rate (sd_format s))
       \<and> (d = 9223372037 \<longrightarrow> pacing_target now frames s \<le> anchor_wall s)"
proof -
  have rate: "0 < sample_rate (sd_format s)"
    using assms(2) by (simp add: rate_ok_def validate_None)
  have d: "0 \<le> d"
    by (simp add: assms(3))
  have target: "pacing_target now frames s = anchor_wall s + go_div (int64 (int64 d * second)) (sample_rate (sd_format s))"
    using assms(1,3) by (simp add: pacing_target_def)
  have "pacing_target now frames s = anchor_wall s + d * 1000000000 div sample_rate (sd_format s)" if "d \<le> 9223372036"
  proof -
    have "in_int64 d" "in_int64 (d * 1000000000)"
      using that d by (simp_all add: in_int64_def)
    then show ?thesis
      using d rate by (simp add: target second_def)
  qed
  moreover have "pacing_target now frames s \<le> anchor_wall s" if "d = 9223372037"
  proof -
    have "int64 d = d"
      using that by (simp add: in_int64_def)
    moreover have "int64 (9223372037 * 1000000000) = -9223372036709551616"
      by (simp add: int64_def signed_take_bit_eq_take_bit_shift take_bit_eq_mod)
    ultimately have "pacing_target now frames s
        = anchor_wall s + go_div (- 9223372036709551616) (sample_rate (sd_format s))"
      using that by (simp add: target second_def)
    moreover have "go_div (- 9223372036709551616) r \<le> 0" if "0 < r" for r :: int
      using that by (simp add: go_div_def pos_imp_zdiv_nonneg_iff)
    ultimately show ?thesis
      using rate by simp
  qed
  ultimately show ?thesis
    by blast
qed

lemma pacing_slot_witness:
  "pacing_target 0 704 (demo_sender\<lparr>anchor_wall := 5\<rparr>) = 5 + 704 * 1000000000 div 44100"
proof -
  have a: "anchor_wall (demo_sender\<lparr>anchor_wall := 5\<rparr>) \<noteq> 0" "rate_ok (demo_sender\<lparr>anchor_wall := 5\<rparr>)"
    by (simp_all add: rate_ok_def demo_fields validate_def)
  have "anchor_frames (demo_sender\<lparr>anchor_wall := 5\<rparr>) = 0"
    by (simp add: demo_sender_def initial_sender_def Let_def)
  then show ?thesis
    using pacing_slot [OF a refl, of 704 0] by (simp add: demo_fields)
qed

end
