(* ===== verification/Engine.thy ===== *)
theory Engine
  imports Session Sender Target Audio
begin

text \<open>
  What the kernels share beside their session base: the errors they return, the control actions of
  the REST contract (internal/engine/types.go), and starting a decoder.  Starting ffmpeg is an input:
  \<open>spawn\<close> gives the source that delivers its output, or \<open>None\<close> when the process cannot be started.
\<close>

datatype engine_error =
    Not_Supported string
  | No_Session
  | No_Session_For string
  | Already_Active string
  | Alac_Only string "int list"
  | Device_Not_Found string
  | Registry_Unavailable
  | Binary_Not_Found string
  | Pipe_Unavailable
  | Pipe_Not_Ready
  | Pipe_Not_Attached
  | Pipe_Write_Failed
  | Decoder_Failed
  | Seek_Decoder_Failed
  | Process_Start_Failed
  | Process_Exited string
  | Kernel_Status string
  | Raop_Error sender_error

definition action_pause :: string where "action_pause = ''pause''"
definition action_resume :: string where "action_resume = ''resume''"
definition action_stop :: string where "action_stop = ''stop''"
definition action_seek :: string where "action_seek = ''seek''"

lemmas action_defs = action_pause_def action_resume_def action_stop_def action_seek_def

type_synonym spawner = "string \<times> string list \<Rightarrow> source option"

definition start_decoder :: "spawner \<Rightarrow> decoder_options \<Rightarrow> string \<Rightarrow> source option" where
  "start_decoder spawn opts url = Option.bind (decoder_command opts url) spawn"

lemma start_decoder_blank: "trim_space url = [] \<Longrightarrow> start_decoder spawn opts url = None"
  by (simp add: start_decoder_def decoder_command_def)

lemma closed_switchable [simp]: "sw_closed (switchable_close r)"
  by (simp add: switchable_close_def close_source_def split: option.split)

lemma closed_switchable_empty: "reader_inv r \<Longrightarrow> held (switchable_close r) = {#}"
  using reader.step_inv [of r Close_Reader] by (simp add: reader_inv_def)

end
