(* ===== verification/Native.thy ===== *)
theory Native
  imports Engine Sender_Loop
begin

text \<open>
  The built-in kernel, internal/engine/native.go: a session base, a decoder behind a switchable
  reader, and a RAOP sender.  The goroutine of \<open>stream\<close> appears by its two effects on the session,
  the progress callback and its end; what the sender does meanwhile is theory Sender_Loop.
  \<open>nt_context\<close> is the stream context: \<open>None\<close> before Start, then whether it is cancelled; \<open>nt_done\<close>
  is whether the channel of the goroutine is closed.
\<close>

record native_options =
  nv_ffmpeg :: string
  nv_rate :: int
  nv_channels :: int
  nv_iface :: string
  nv_headers :: "(string \<times> string) list"

record native =
  nt_base :: "engine_error session_base"
  nt_target :: target
  nt_opts :: native_options
  nt_context :: "bool option"
  nt_source :: "switchable option"
  nt_sender :: "sender option"
  nt_done :: "bool option"

definition native_kind :: string where "native_kind = ''native''"

definition new_native :: "time \<Rightarrow> target \<Rightarrow> int \<Rightarrow> native_options \<Rightarrow> native" where
  "new_native now t volume opts =
     (let b = new_session_base now native_kind (tg_id t) (tg_name t)
      in \<lparr>nt_base = b\<lparr>sb_request := (sb_request b)\<lparr>req_volume := volume\<rparr>\<rparr>, nt_target = t,
          nt_opts = opts\<lparr>nv_rate := (if nv_rate opts \<le> 0 then 44100 else nv_rate opts),
                         nv_channels := (if nv_channels opts \<le> 0 then 2 else nv_channels opts)\<rparr>,
          nt_context = None, nt_source = None, nt_sender = None, nt_done = None\<rparr>)"

definition native_decoder_options :: "native \<Rightarrow> int \<Rightarrow> decoder_options" where
  "native_decoder_options n start =
     \<lparr>ffmpeg_path = nv_ffmpeg (nt_opts n),
      opt_format = \<lparr>pf_rate = nv_rate (nt_opts n), pf_channels = nv_channels (nt_opts n), pf_depth = 16,
                    pf_big_endian = True\<rparr>,
      start_position_ms = start, opt_headers = nv_headers (nt_opts n)\<rparr>"

definition native_config :: "native \<Rightarrow> int \<Rightarrow> config" where
  "native_config n volume =
     \<lparr>cf_address = tg_address (nt_target n), cf_port = tg_port (nt_target n),
      cf_format = \<lparr>sample_rate = nv_rate (nt_opts n), channels = nv_channels (nt_opts n), bit_depth = 16\<rparr>,
      cf_local_ip = nv_iface (nt_opts n), cf_volume = volume\<rparr>"

text \<open>What Start meets outside: the decoder, the receiver during the handshake and afterwards.\<close>

record native_env =
  nv_now :: time
  nv_spawn :: spawner
  nv_dial :: dial_env
  nv_volume_io :: rtsp_io
  nv_record_io :: rtsp_io
  nv_teardown_io :: rtsp_io

definition cancel_native :: "native \<Rightarrow> native" where
  "cancel_native n = n\<lparr>nt_context := map_option (\<lambda>_. True) (nt_context n)\<rparr>"

definition close_native_source :: "native \<Rightarrow> native" where
  "close_native_source n = n\<lparr>nt_source := map_option switchable_close (nt_source n)\<rparr>"

definition close_native_sender :: "rtsp_io \<Rightarrow> native \<Rightarrow> native" where
  "close_native_sender io n = n\<lparr>nt_sender := map_option (sender_close io) (nt_sender n)\<rparr>"

definition on_base :: "(engine_error session_base \<Rightarrow> engine_error session_base) \<Rightarrow> native \<Rightarrow> native" where
  "on_base f n = n\<lparr>nt_base := f (nt_base n)\<rparr>"

text \<open>The request Start keeps: a volume out of range becomes 60.\<close>

definition kept_request :: "play_request \<Rightarrow> play_request" where
  "kept_request r = (if req_volume r < 0 \<or> req_volume r > 100 then r\<lparr>req_volume := 60\<rparr> else r)"

definition native_prepared :: "play_request \<Rightarrow> native \<Rightarrow> native" where
  "native_prepared req n =
     (on_base (\<lambda>b. b\<lparr>sb_request := req, sb_state := Buffering\<rparr>) n)\<lparr>nt_context := Some False\<rparr>"

definition initial_volume :: "native_env \<Rightarrow> play_request \<Rightarrow> sender \<Rightarrow> sender" where
  "initial_volume env req s =
     (if req_volume req > 0 then snd (set_volume (nv_volume_io env) (req_volume req) s) else s)"

text \<open>The part of Start that talks to the receiver, with the decoder running.\<close>

definition native_connect :: "native_env \<Rightarrow> play_request \<Rightarrow> native \<Rightarrow> native \<times> engine_error option" where
  "native_connect env req n =
     (case dial (native_config n (req_volume req)) (nv_dial env) of
        Inl (e, _) \<Rightarrow>
          (on_base (set_error (nv_now env) (Some (Raop_Error e))) (cancel_native (close_native_source n)),
           Some (Raop_Error e))
      | Inr s \<Rightarrow>
          (case record_request (nv_record_io env) (initial_volume env req s) of
             (Some e, s2) \<Rightarrow>
               (on_base (set_error (nv_now env) (Some (Raop_Error e)))
                  (cancel_native (close_native_source
                    (close_native_sender (nv_teardown_io env) (n\<lparr>nt_sender := Some s2\<rparr>)))),
                Some (Raop_Error e))
           | (None, s2) \<Rightarrow>
               (on_base (\<lambda>b. begin_playback_clock (nv_now env) (set_state (nv_now env) Buffering b))
                  (n\<lparr>nt_sender := Some s2, nt_done := Some False\<rparr>),
                None)))"

definition native_start :: "native_env \<Rightarrow> play_request \<Rightarrow> native \<Rightarrow> native \<times> engine_error option" where
  "native_start env req0 n0 =
     (if \<not> accepts_pcm (nt_target n0)
      then (n0, Some (Alac_Only (tg_name (nt_target n0)) (target_codecs (nt_target n0))))
      else
        (let req = kept_request req0; n = native_prepared req n0
         in case start_decoder (nv_spawn env) (native_decoder_options n (start_ms req)) (stream_url req) of
              None \<Rightarrow> (on_base (set_error (nv_now env) (Some Decoder_Failed)) (cancel_native n), Some Decoder_Failed)
            | Some src \<Rightarrow> native_connect env req (n\<lparr>nt_source := Some (new_switchable src)\<rparr>)))"

text \<open>The progress callback of the sender, and the end of the streaming goroutine.\<close>

definition native_progress :: "time \<Rightarrow> native \<Rightarrow> native" where
  "native_progress now n =
     (if sb_state (nt_base n) = Buffering then on_base (set_state now Playing) n else n)"

definition native_stream_end :: "time \<Rightarrow> rtsp_io \<Rightarrow> sender_error option \<Rightarrow> native \<Rightarrow> native" where
  "native_stream_end now io err n =
     (let n = (case err of
                 None \<Rightarrow> on_base (mark_finished now) n
               | Some e \<Rightarrow> if nt_context n = Some True then n
                            else on_base (set_error now (Some (Raop_Error e))) n)
      in (close_native_source (close_native_sender io n))\<lparr>nt_done := Some True\<rparr>)"

definition native_close :: "time \<Rightarrow> rtsp_io \<Rightarrow> native \<Rightarrow> native" where
  "native_close now io n =
     close_native_source (close_native_sender io (cancel_native (on_base (set_state now Stopped) n)))"

definition native_seek :: "time \<Rightarrow> spawner \<Rightarrow> int \<Rightarrow> native \<Rightarrow> native \<times> engine_error option" where
  "native_seek now spawn position0 n =
     (case (nt_sender n, nt_source n) of
        (Some s, Some r) \<Rightarrow>
          (let pos = (if position0 < 0 then 0 else position0)
           in case start_decoder spawn (native_decoder_options n pos) (stream_url (sb_request (nt_base n))) of
                None \<Rightarrow> (n, Some Seek_Decoder_Failed)
              | Some src \<Rightarrow>
                  (on_base (reset_position now pos)
                     (n\<lparr>nt_source := Some (swap_source r src), nt_sender := Some (request_flush s)\<rparr>), None))
      | _ \<Rightarrow> (n, Some No_Session))"

definition native_control ::
  "time \<Rightarrow> spawner \<Rightarrow> rtsp_io \<Rightarrow> string \<Rightarrow> int \<Rightarrow> native \<Rightarrow> native \<times> engine_error option" where
  "native_control now spawn io action pos n =
     (if action = action_pause then
        (case nt_sender n of None \<Rightarrow> (n, Some No_Session) | Some s \<Rightarrow> (n\<lparr>nt_sender := Some (pause s)\<rparr>, None))
      else if action = action_resume then
        (case nt_sender n of None \<Rightarrow> (n, Some No_Session) | Some s \<Rightarrow> (n\<lparr>nt_sender := Some (resume now s)\<rparr>, None))
      else if action = action_stop then (native_close now io n, None)
      else if action = action_seek then native_seek now spawn pos n
      else (n, Some (Not_Supported action)))"

definition native_set_volume :: "rtsp_io \<Rightarrow> int \<Rightarrow> native \<Rightarrow> native \<times> engine_error option" where
  "native_set_volume io percent0 n0 =
     (let percent = clamp_percent percent0;
          n = on_base (\<lambda>b. b\<lparr>sb_request := (sb_request b)\<lparr>req_volume := percent\<rparr>\<rparr>) n0
      in case nt_sender n of
           None \<Rightarrow> (n, None)
         | Some s \<Rightarrow>
             (case set_volume io percent s of
                (err, s') \<Rightarrow> (n\<lparr>nt_sender := Some s'\<rparr>, map_option Raop_Error err)))"

definition native_status :: "time \<Rightarrow> native \<Rightarrow> engine_error status" where
  "native_status now n =
     (let st = snapshot now (nt_base n)
      in case nt_sender n of
           None \<Rightarrow> st
         | Some s \<Rightarrow>
             if sd_last_err s \<noteq> None then st
             else (case sd_state s of
                     S_Paused \<Rightarrow> st\<lparr>st_state := Paused\<rparr>
                   | S_Stopped \<Rightarrow> if st_state st \<noteq> Failed then st\<lparr>st_state := Stopped\<rparr> else st
                   | _ \<Rightarrow> st))"

subsection \<open>Starting\<close>

lemma on_base_fields [simp]:
  "nt_base (on_base f n) = f (nt_base n)" "nt_target (on_base f n) = nt_target n" "nt_opts (on_base f n) = nt_opts n"
  "nt_context (on_base f n) = nt_context n" "nt_source (on_base f n) = nt_source n"
  "nt_sender (on_base f n) = nt_sender n" "nt_done (on_base f n) = nt_done n"
  by (simp_all add: on_base_def)

lemma release_fields [simp]:
  "nt_base (cancel_native n) = nt_base n" "nt_source (cancel_native n) = nt_source n"
  "nt_sender (cancel_native n) = nt_sender n" "nt_done (cancel_native n) = nt_done n"
  "nt_context (cancel_native n) = map_option (\<lambda>_. True) (nt_context n)"
  "nt_base (close_native_source n) = nt_base n" "nt_sender (close_native_source n) = nt_sender n"
  "nt_context (close_native_source n) = nt_context n" "nt_done (close_native_source n) = nt_done n"
  "nt_source (close_native_source n) = map_option switchable_close (nt_source n)"
  "nt_base (close_native_sender io n) = nt_base n" "nt_source (close_native_sender io n) = nt_source n"
  "nt_context (close_native_sender io n) = nt_context n" "nt_done (close_native_sender io n) = nt_done n"
  "nt_sender (close_native_sender io n) = map_option (sender_close io) (nt_sender n)"
  by (simp_all add: cancel_native_def close_native_source_def close_native_sender_def)

lemma wires_record [simp]: "wires (snd (record_request io s)) = wires s"
proof -
  obtain r t where r: "request s ''RECORD'' [] [] [] None io = (r, t)"
    by fastforce
  then have "wires t = wires s"
    using request_wires [of s "''RECORD''" "[]" "[]" "[]" None io] by simp
  then show ?thesis
    by (cases r) (simp_all add: record_request_def r)
qed

text \<open>The kernel holds no running process, connection or socket any more.\<close>

definition native_released :: "native \<Rightarrow> bool" where
  "native_released n \<longleftrightarrow>
     nt_context n \<noteq> Some False
     \<and> (\<forall>r. nt_source n = Some r \<longrightarrow> sw_closed r \<and> held r = {#})
     \<and> (\<forall>s. nt_sender n = Some s \<longrightarrow> wires s = (True, False))"

lemma wires_closed: "wires s \<noteq> (True, True) \<Longrightarrow> wires (sender_close io s) = (True, False)"
  using wires_close [of io s] by (auto simp: wires_def split: if_splits)

lemma fresh_reader [simp]: "reader_inv (new_switchable src)"
  by (simp add: reader_inv_def new_switchable_def)

lemma held_closed_new [simp]: "held (switchable_close (new_switchable src)) = {#}"
  by (rule closed_switchable_empty) simp

lemma dial_wires:
  assumes "dial cfg env = Inr s"
  shows "wires s = (False, True)"
proof -
  from assms obtain c a b where v: "validate (dial_format (cf_format cfg)) = None"
    and h: "handshake (de_cancelled env) (de_options env) (de_announce env) (de_control env) (de_timing env)
        (de_audio env) (de_setup env) (initial_sender cfg (dial_format (cf_format cfg)) c a b) = (None, s)"
    by (auto simp: dial_def Let_def split: option.splits sum.splits prod.splits)
  from handshake_core [OF h] show ?thesis
    by (simp add: wires_def same_core_def) (simp add: initial_sender_def Let_def)
qed

lemma native_connect_cases:
  assumes "native_connect env req n0 = (n, res)"
  obtains (dial) e where
      "n = on_base (set_error (nv_now env) (Some (Raop_Error e))) (cancel_native (close_native_source n0))"
      "res = Some (Raop_Error e)"
  | (rec) s e s2 where
      "dial (native_config n0 (req_volume req)) (nv_dial env) = Inr s"
      "record_request (nv_record_io env) (initial_volume env req s) = (Some e, s2)"
      "n = on_base (set_error (nv_now env) (Some (Raop_Error e)))
        (cancel_native (close_native_source (close_native_sender (nv_teardown_io env) (n0\<lparr>nt_sender := Some s2\<rparr>))))"
      "res = Some (Raop_Error e)"
  | (ok) s s2 where
      "dial (native_config n0 (req_volume req)) (nv_dial env) = Inr s"
      "record_request (nv_record_io env) (initial_volume env req s) = (None, s2)"
      "n = on_base (\<lambda>b. begin_playback_clock (nv_now env) (set_state (nv_now env) Buffering b))
        (n0\<lparr>nt_sender := Some s2, nt_done := Some False\<rparr>)"
      "res = None"
proof (cases "dial (native_config n0 (req_volume req)) (nv_dial env)")
  case (Inl x)
  with assms dial show ?thesis
    by (cases x) (auto simp: native_connect_def)
next
  case (Inr s)
  obtain err s2 where re: "record_request (nv_record_io env) (initial_volume env req s) = (err, s2)"
    by fastforce
  show ?thesis
  proof (cases err)
    case None
    with Inr re assms ok show ?thesis
      by (simp add: native_connect_def)
  next
    case (Some e)
    with Inr re assms rec show ?thesis
      by (auto simp: native_connect_def)
  qed
qed

lemma wires_initial_volume [simp]: "wires (initial_volume env req s) = wires s"
  by (simp add: initial_volume_def)

lemma connect_failure_released:
  assumes "native_connect env req n0 = (n, Some e)"
    and "nt_context n0 = Some False" "nt_source n0 = Some (new_switchable src)" "nt_sender n0 = None"
  shows "native_released n \<and> sb_state (nt_base n) = Failed \<and> sb_err (nt_base n) = Some e
       \<and> (\<forall>s. nt_sender n = Some s \<longrightarrow> sd_state s = S_Stopped)"
  using assms(1)
proof (cases rule: native_connect_cases)
  case (dial e)
  then show ?thesis
    using assms by (simp add: native_released_def set_error_def)
next
  case (rec s e s2)
  have "wires s2 = (False, True)"
    using dial_wires [OF rec(1)] wires_record [of "nv_record_io env" "initial_volume env req s"] rec(2) by simp
  moreover from this have "\<not> stop_closed s2"
    by (simp add: wires_def)
  ultimately have "wires (sender_close io s2) = (True, False)" "sd_state (sender_close io s2) = S_Stopped" for io
    by (simp add: wires_closed, simp add: sender_close_def)
  then show ?thesis
    using rec assms by (simp add: native_released_def set_error_def)
qed (use assms(1) in simp)

lemma native_failure_released:
  assumes "native_start env req (new_native now0 t v opts) = (n, Some e)"
  shows "native_released n
       \<and> (accepts_pcm t \<longrightarrow>
            st_state (native_status now n) = Failed \<and> st_error (native_status now n) = Some e
            \<and> \<not> st_active (native_status now n))"
proof -
  define n0 where "n0 = new_native now0 t v opts"
  have n0: "nt_target n0 = t" "nt_source n0 = None" "nt_sender n0 = None" "nt_context n0 = None"
    by (simp_all add: n0_def new_native_def Let_def)
  define p where "p = native_prepared (kept_request req) n0"
  have p: "nt_source p = None" "nt_sender p = None" "nt_context p = Some False"
    using n0 by (simp_all add: p_def native_prepared_def)
  have status: "st_state (native_status now m) = Failed \<and> st_error (native_status now m) = Some x
      \<and> \<not> st_active (native_status now m)"
    if "sb_state (nt_base m) = Failed" "sb_err (nt_base m) = Some x"
      "\<forall>s. nt_sender m = Some s \<longrightarrow> sd_state s = S_Stopped" for m x
    using that by (simp add: native_status_def Let_def split: option.split sender_state.split)
  show ?thesis
  proof (cases "accepts_pcm t")
    case False
    with assms n0 show ?thesis
      by (simp add: native_start_def n0_def [symmetric]) (auto simp: native_released_def)
  next
    case True
    show ?thesis
    proof (cases "start_decoder (nv_spawn env) (native_decoder_options p (start_ms (kept_request req)))
        (stream_url (kept_request req))")
      case None
      then have "n = on_base (set_error (nv_now env) (Some Decoder_Failed)) (cancel_native p)" "e = Decoder_Failed"
        using assms True n0 by (simp_all add: native_start_def n0_def [symmetric] p_def Let_def)
      then show ?thesis
        using p status [of n e] by (simp add: native_released_def set_error_def)
    next
      case (Some src)
      then have "native_connect env (kept_request req) (p\<lparr>nt_source := Some (new_switchable src)\<rparr>) = (n, Some e)"
        using assms True n0 by (simp add: native_start_def n0_def [symmetric] p_def Let_def)
      from connect_failure_released [OF this] show ?thesis
        using p status [of n e] by simp
    qed
  qed
qed


definition idle_native :: native where
  "idle_native = new_native 1
     \<lparr>tg_id = ''k'', tg_name = ''Kitchen'', tg_address = ''10.0.0.9'', tg_port = 7000, tg_protocol = ''raop'',
      tg_requires_password = False, tg_txt = Map.empty\<rparr> 60
     \<lparr>nv_ffmpeg = [], nv_rate = 44100, nv_channels = 2, nv_iface = [], nv_headers = []\<rparr>"

definition silent_env :: native_env where
  "silent_env =
     \<lparr>nv_now = 5, nv_spawn = (\<lambda>cmd. Some 0), nv_dial = silent_peer, nv_volume_io = (False, True, []),
      nv_record_io = (False, True, []), nv_teardown_io = (False, True, [])\<rparr>"


lemma native_start_opened:
  assumes "native_start env req (new_native now0 t v opts) = (n, None)"
    and "vol = req_volume (kept_request req)"
  shows "\<exists>s0 cfg. dial cfg (nv_dial env) = Inr s0 \<and> cf_address cfg = tg_address t \<and> cf_port cfg = tg_port t
       \<and> nt_sender n = Some (snd (record_request (nv_record_io env)
            (if vol = 0 then s0 else snd (set_volume (nv_volume_io env) vol s0))))
       \<and> sb_state (nt_base n) = Buffering \<and> nt_context n = Some False
       \<and> (\<exists>src. nt_source n = Some (new_switchable src)) \<and> req_volume (sb_request (nt_base n)) = vol"
proof -
  define n0 where "n0 = new_native now0 t v opts"
  define p where "p = native_prepared (kept_request req) n0"
  have t: "nt_target p = t" "nt_target n0 = t"
    by (simp_all add: p_def native_prepared_def n0_def new_native_def Let_def)
  have acc: "accepts_pcm t"
    using assms(1) t by (auto simp: native_start_def n0_def [symmetric] split: if_splits)
  then obtain src where "native_connect env (kept_request req) (p\<lparr>nt_source := Some (new_switchable src)\<rparr>) = (n, None)"
    using assms(1) t by (auto simp: native_start_def n0_def [symmetric] p_def [symmetric] Let_def split: option.splits)
  then show ?thesis
  proof (cases rule: native_connect_cases)
    case (ok s s2)
    have "0 \<le> vol"
      by (simp add: assms(2) kept_request_def)
    then have init: "initial_volume env (kept_request req) s
        = (if vol = 0 then s else snd (set_volume (nv_volume_io env) vol s))"
      by (simp add: initial_volume_def assms(2))
    have base: "sb_state (nt_base n) = Buffering" "req_volume (sb_request (nt_base n)) = vol" "nt_context n = Some False"
      "nt_source n = Some (new_switchable src)"
      using ok(3) by (simp_all add: begin_playback_clock_def p_def native_prepared_def assms(2))
    have "nt_sender n = Some s2"
      using ok(3) by simp
    then show ?thesis
      using ok(1,2) init base t
      by (intro exI [of _ s] exI [of _ "native_config (p\<lparr>nt_source := Some (new_switchable src)\<rparr>) vol"])
         (auto simp: native_config_def assms(2))
  qed simp_all
qed

text \<open>
  What a successful start sends.  The sender streams with the handshake of \<open>Dial\<close>, then one
  volume request unless the volume is 0, then RECORD; the session buffers, with its source open and
  its clock running.  In particular a request for volume 0, which the manager passes on as a mute,
  never reaches the receiver.
\<close>

lemma native_start_requests:
  assumes "native_start env req (new_native now0 t v opts) = (n, None)"
    and "vol = req_volume (kept_request req)"
  shows "\<exists>s0 cfg. dial cfg (nv_dial env) = Inr s0 \<and> cf_address cfg = tg_address t \<and> cf_port cfg = tg_port t
       \<and> nt_sender n = Some (snd (record_request (nv_record_io env)
            (if vol = 0 then s0 else snd (set_volume (nv_volume_io env) vol s0))))
       \<and> sb_state (nt_base n) = Buffering \<and> nt_context n = Some False
       \<and> (\<exists>src. nt_source n = Some (new_switchable src)) \<and> req_volume (sb_request (nt_base n)) = vol"
  using native_start_opened [OF assms] .

text \<open>A receiver that accepts everything; its replies carry no CSeq, which the client tolerates.\<close>

definition ok_reply :: reply where
  "ok_reply = (200, ''OK'', [], [])"

definition setup_reply :: reply where
  "setup_reply = (200, ''OK'', [(''Transport'', ''server_port=6000'')], [])"

lemma reply_wf_ok: "reply_wf ok_reply"
  by (simp add: reply_wf_def ok_reply_def reply_ok_def in_int64_def lf_def)

lemma transport_low: "to_lower ''Transport'' = ''transport''"
  by (simp add: to_lower_def lower_char_def is_upper_def)

lemma reply_wf_setup: "reply_wf setup_reply"
proof -
  have "header_ok (''Transport'', ''server_port=6000'')"
    by (rule header_ok_eval) (simp_all add: edge_byte_def space_runes_def lf_def)
  then show ?thesis
    by (simp add: reply_wf_def setup_reply_def reply_ok_def in_int64_def lf_def store_header_def transport_low)
qed

lemma atoi_Nil [simp]: "atoi [] = None"
  by (simp add: atoi_def)

lemma conn_do_reply:
  assumes "reply_wf p" "reply_headers p ''cseq'' = None" "unread c = []"
  shows "\<exists>c'. conn_do c m u ct hs b True (render_reply p) = (Inr (reply_response p), c') \<and> unread c' = []"
  using read_response_render [OF assms(1), of "cseq c" "[]"] assms(2,3)
  by (simp add: conn_do_def get_or_empty_def Let_def)

lemma request_reply:
  assumes "reply_wf p" "reply_headers p ''cseq'' = None" "unread (sd_conn s) = []"
  shows "\<exists>c. request s m u ct hs b (f, True, render_reply p) = (Inr (reply_response p), s\<lparr>sd_conn := c\<rparr>) \<and> unread c = []"
  using conn_do_reply [OF assms, of m u ct "ordered (f, True, render_reply p) hs" b]
  by (auto simp: request_def)

lemma no_cseq: "reply_headers ok_reply ''cseq'' = None" "reply_headers setup_reply ''cseq'' = None"
  by (simp_all add: reply_headers_def ok_reply_def setup_reply_def store_header_def transport_low)

lemma codes [simp]: "rs_code (reply_response ok_reply) = 200" "rs_code (reply_response setup_reply) = 200"
  by (simp_all add: reply_response_def ok_reply_def setup_reply_def)

definition ok_io :: rtsp_io where
  "ok_io = (False, True, render_reply ok_reply)"

definition willing_peer :: dial_env where
  "willing_peer = silent_peer\<lparr>de_options := ok_io, de_announce := ok_io, de_control := Some 6001,
     de_timing := Some 6002, de_audio := True, de_setup := (False, True, render_reply setup_reply)\<rparr>"

lemma setup_ports: "use_transport (reply_response setup_reply) s
    = (None, s\<lparr>server_port := 6000, control_port := control_port s, timing_port := timing_port s, audio_ready := True\<rparr>)"
proof -
  have "trim_space ''server_port=6000'' = ''server_port=6000''" "trim_space ''server_port'' = ''server_port''"
    "trim_space ''6000'' = ''6000''"
    by (rule trim_space_id; simp add: edge_byte_def space_runes_def)+
  moreover have "header (Some (reply_response setup_reply)) ''Transport'' = ''server_port=6000''"
    by (simp add: header_def reply_response_def setup_reply_def reply_headers_def store_header_def transport_low
        get_or_empty_def)
  moreover have "atoi ''6000'' = Some 6000"
    by (simp add: atoi_def is_digit_def digits_val_def digit_val_def in_int64_def)
  ultimately show ?thesis
    by (simp add: use_transport_def parse_transport_def get_or_empty_def option_port_def Let_def)
qed

lemma dial_willing:
  assumes "validate (cf_format cfg) = None"
  shows "\<exists>s. dial cfg willing_peer = Inr s \<and> unread (sd_conn s) = []"
proof -
  have f: "dial_format (cf_format cfg) = cf_format cfg"
    using assms by (auto simp: dial_format_def validate_None)
  obtain c where c: "new_rtsp_conn (Some [1, 2, 3, 4]) (Some [5, 6, 7, 8]) (Some [9, 9, 9, 9, 9, 9, 9, 9])
      (if cf_local_ip cfg = [] then ''10.0.0.2'' else cf_local_ip cfg) (cf_address cfg) = Inr c" "unread c = []"
    by (simp add: new_rtsp_conn_def random_uint32_def random_hex_def)
  define s0 where "s0 = initial_sender cfg (cf_format cfg) c unix_epoch unix_epoch"
  have "unread (sd_conn s0) = []"
    using c(2) by (simp add: s0_def initial_sender_def Let_def)
  from request_reply [OF reply_wf_ok no_cseq(1) this] obtain c1 where
    r1: "request s0 ''OPTIONS'' ''*'' [] [] None ok_io = (Inr (reply_response ok_reply), s0\<lparr>sd_conn := c1\<rparr>)" "unread c1 = []"
    unfolding ok_io_def by blast
  define s1 where "s1 = s0\<lparr>sd_conn := c1\<rparr>"
  define sdp where "sdp = build_sdp (session_id c1) (local_ip c1) (remote_ip c1) (sd_format s0)"
  from r1(2) have "unread (sd_conn s1) = []"
    by (simp add: s1_def)
  from request_reply [OF reply_wf_ok no_cseq(1) this] obtain c2 where
    r2: "request s1 ''ANNOUNCE'' [] ''application/sdp'' [] (Some sdp) ok_io
      = (Inr (reply_response ok_reply), s1\<lparr>sd_conn := c2\<rparr>)" "unread c2 = []"
    unfolding ok_io_def by blast
  define s2 where "s2 = s1\<lparr>sd_conn := c2, control_port := 6001, timing_port := 6002, sockets_open := True\<rparr>"
  have o2: "open_udp_sockets (Some 6001) (Some 6002) True (s1\<lparr>sd_conn := c2\<rparr>) = (None, s2)"
    by (simp add: open_udp_sockets_def s2_def)
  from r2(2) have "unread (sd_conn s2) = []"
    by (simp add: s2_def)
  from request_reply [OF reply_wf_setup no_cseq(2) this] obtain c3 where
    r3: "request s2 ''SETUP'' [] [] [(''Transport'', transport_request (control_port s2) (timing_port s2))] None
        (False, True, render_reply setup_reply)
      = (Inr (reply_response setup_reply), s2\<lparr>sd_conn := c3\<rparr>)" "unread c3 = []"
    by blast
  define s3 where "s3 = (s2\<lparr>sd_conn := c3\<rparr>)\<lparr>server_port := 6000, control_port := control_port s2,
      timing_port := timing_port s2, audio_ready := True\<rparr>"
  have u3: "use_transport (reply_response setup_reply) (s2\<lparr>sd_conn := c3\<rparr>) = (None, s3)"
    by (simp add: setup_ports s3_def)
  have "handshake False ok_io ok_io (Some 6001) (Some 6002) True (False, True, render_reply setup_reply) s0 = (None, s3)"
    using r1(1) r2(1) r3(1) o2 u3 by (simp add: handshake_def s1_def [symmetric] sdp_def [symmetric])
      (simp add: s1_def sdp_def)
  moreover have "unread (sd_conn s3) = []"
    using r3(2) by (simp add: s3_def)
  ultimately show ?thesis
    using assms c(1) f
    by (cases "cf_local_ip cfg = []")
       (simp_all add: dial_def willing_peer_def silent_peer_def s0_def [symmetric] Let_def)
qed

definition playable_track :: play_request where
  "playable_track = no_request\<lparr>stream_url := ''u''\<rparr>"

definition willing_env :: native_env where
  "willing_env = silent_env\<lparr>nv_dial := willing_peer, nv_volume_io := ok_io, nv_record_io := ok_io\<rparr>"

lemma native_start_willing: "snd (native_start willing_env playable_track idle_native) = None"
proof -
  have u: "trim_space ''u'' = ''u''"
    by (rule trim_space_id) (simp_all add: edge_byte_def space_runes_def)
  have dec: "start_decoder (nv_spawn willing_env) opts ''u'' = Some 0" for opts
    by (simp add: start_decoder_def decoder_command_def u willing_env_def silent_env_def)
  have kept: "kept_request playable_track = playable_track" "stream_url playable_track = ''u''"
    "req_volume playable_track = 0"
    by (simp_all add: kept_request_def playable_track_def no_request_def)
  have acc: "accepts_pcm (nt_target idle_native)"
    by (simp add: idle_native_def new_native_def accepts_pcm_def target_codecs_def txt_get_def Let_def)
  define p where "p = (native_prepared playable_track idle_native)\<lparr>nt_source := Some (new_switchable 0)\<rparr>"
  have "validate (cf_format (native_config p 0)) = None"
    by (simp add: native_config_def p_def native_prepared_def idle_native_def new_native_def validate_def Let_def)
  then obtain s where s: "dial (native_config p 0) willing_peer = Inr s" "unread (sd_conn s) = []"
    using dial_willing by blast
  from request_reply [OF reply_wf_ok no_cseq(1) s(2)] obtain c where
    "request s ''RECORD'' [] [] [] None ok_io = (Inr (reply_response ok_reply), s\<lparr>sd_conn := c\<rparr>)"
    unfolding ok_io_def by blast
  then have "record_request ok_io s = (None, s\<lparr>sd_conn := c\<rparr>)"
    by (simp add: record_request_def)
  moreover have "nv_dial willing_env = willing_peer" "nv_record_io willing_env = ok_io"
    by (simp_all add: willing_env_def)
  ultimately have "snd (native_connect willing_env playable_track p) = None"
    using s(1) by (simp add: native_connect_def initial_volume_def kept)
  then show ?thesis
    by (simp add: native_start_def acc kept dec p_def Let_def)
qed

lemma native_start_requests_witness:
  "\<exists>s0. nt_sender (fst (native_start willing_env playable_track idle_native))
       = Some (snd (record_request ok_io s0))"
proof -
  have "native_start willing_env playable_track idle_native
      = (fst (native_start willing_env playable_track idle_native), None)"
    using native_start_willing by (metis prod.collapse)
  from native_start_requests [OF this [unfolded idle_native_def] refl] show ?thesis
    by (auto simp: kept_request_def playable_track_def no_request_def idle_native_def willing_env_def)
qed

subsection \<open>Pausing\<close>

text \<open>
  Pausing the built-in kernel pauses the sender only.  The status reports \<open>paused\<close>, but the
  session base does not notice: a session that was playing goes on counting, and its reported
  position keeps moving while it is paused.
\<close>

lemma native_pause_keeps_counting:
  assumes "nt_sender n = Some s" "sd_last_err s = None" "sb_state (nt_base n) = Playing" "playing_since (nt_base n) \<noteq> 0"
    and "n' = fst (native_control now spawn io action_pause p n)"
  shows "st_state (native_status t n') = Paused
       \<and> elapsed (t + d) (nt_base n') = elapsed t (nt_base n') + d
       \<and> st_position_ms (native_status t n') = position t (nt_base n)"
proof -
  have n': "n' = n\<lparr>nt_sender := Some (pause s)\<rparr>"
    using assms(1,5) by (simp add: native_control_def)
  have "sd_state (pause s) = S_Paused" "sd_last_err (pause s) = None"
    using assms(2) by (simp_all add: pause_def set_sender_state_def close_ch_def)
  then show ?thesis
    using assms(3,4) by (simp add: n' native_status_def elapsed_def)
qed

lemma native_pause_keeps_counting_witness:
  "elapsed (9 + 4) (nt_base (fst (native_control 8 (\<lambda>c. None) ok_io action_pause 0
       (idle_native\<lparr>nt_sender := Some demo_sender, nt_base := set_state 5 Playing (nt_base idle_native)\<rparr>)))) = 8"
proof -
  let ?n = "idle_native\<lparr>nt_sender := Some demo_sender, nt_base := set_state 5 Playing (nt_base idle_native)\<rparr>"
  have b: "sb_state (nt_base ?n) = Playing" "playing_since (nt_base ?n) = 5" "accumulated (nt_base ?n) = 0"
    by (simp_all add: set_state_def idle_native_def new_native_def new_session_base_def Let_def)
  have e: "sd_last_err demo_sender = None"
    by (simp add: demo_sender_def initial_sender_def Let_def)
  have "elapsed (9 + 4) (nt_base (fst (native_control 8 (\<lambda>c. None) ok_io action_pause 0 ?n)))
      = elapsed 9 (nt_base (fst (native_control 8 (\<lambda>c. None) ok_io action_pause 0 ?n))) + 4"
    using native_pause_keeps_counting [OF _ e _ _ refl, where n = ?n and now = 8 and spawn = "\<lambda>c. None"
        and io = ok_io and p = 0 and t = 9 and d = 4] b by simp
  also have "elapsed 9 (nt_base (fst (native_control 8 (\<lambda>c. None) ok_io action_pause 0 ?n))) = 4"
    using b by (simp add: native_control_def elapsed_def)
  finally show ?thesis
    by simp
qed

text \<open>
  Pausing a finished session makes it look unfinished.  After the stream has ended, a pause
  turns the reported state from \<open>stopped\<close> to \<open>paused\<close>, and closing the session again does not change
  it back, although the session is no longer active.
\<close>

lemma native_pause_revives_finished:
  assumes "nt_sender n = Some s" "sd_last_err s = None" "\<not> stop_closed s"
    and "n1 = native_stream_end now io None n" "n2 = fst (native_control now2 spawn io2 action_pause p n1)"
  shows "st_state (native_status t n1) = Stopped
       \<and> st_state (native_status t n2) = Paused \<and> \<not> st_active (native_status t n2)
       \<and> st_state (native_status t (native_close now3 io3 n2)) = Paused"
proof -
  define c where "c = sender_close io s"
  have c: "stop_closed c" "sd_state c = S_Stopped" "sd_last_err c = None"
    using assms(2,3) sender_close_closed(1) [of io s] request_other [of "s\<lparr>stop_closed := True\<rparr>" "''TEARDOWN''" "[]" "[]"
        "[session_header s]" None io]
    by (auto simp: c_def sender_close_def set_sender_state_def)
  have n1: "nt_sender n1 = Some c" "sb_state (nt_base n1) = Stopped"
    using assms(1,4) by (simp_all add: native_stream_end_def c_def mark_finished_def)
  have n2: "n2 = n1\<lparr>nt_sender := Some (pause c)\<rparr>"
    using n1 assms(5) by (simp add: native_control_def)
  have pc: "sd_state (pause c) = S_Paused" "sd_last_err (pause c) = None" "stop_closed (pause c)"
    using c by (simp_all add: pause_def set_sender_state_def close_ch_def)
  then have "nt_sender (native_close now3 io3 n2) = Some (pause c)"
    by (simp add: native_close_def n2 sender_close_def)
  then show ?thesis
    using n1 c pc by (simp add: native_status_def n2 native_close_def)
qed

lemma native_pause_revives_finished_witness:
  "st_state (native_status 9 (fst (native_control 8 (\<lambda>c. None) ok_io action_pause 0
      (native_stream_end 7 ok_io None (idle_native\<lparr>nt_sender := Some demo_sender\<rparr>))))) = Paused"
proof -
  have "sd_last_err demo_sender = None" "\<not> stop_closed demo_sender"
    by (simp_all add: demo_sender_def initial_sender_def Let_def)
  from native_pause_revives_finished [OF _ this refl refl, of "idle_native\<lparr>nt_sender := Some demo_sender\<rparr>" 9 7 ok_io]
  show ?thesis
    by simp
qed

end
