(* ===== verification/Cli.thy ===== *)
theory Cli
  imports Engine
begin

text \<open>
  The external kernel, internal/engine/cliairplay.go and cmdpipe_unix.go: the command line, the
  command pipe, the parser of the kernel's status lines, and the lifecycle.  The process is an
  input; what the engine writes to the pipe is kept.  The pipe file is \<open>None\<close> until the goroutine of
  \<open>attachPipe\<close> has opened it, then whether it is open; on Windows the pipe cannot be opened.
\<close>

subsection \<open>The output of the process\<close>

record tail_buffer =
  tb_data :: string
  tb_max :: nat

definition new_tail_buffer :: "nat \<Rightarrow> tail_buffer" where
  "new_tail_buffer m = \<lparr>tb_data = [], tb_max = m\<rparr>"

text \<open>\<open>extractLines\<close>: the complete lines, and what is left in the buffer.\<close>

function extract_lines :: "string \<Rightarrow> string list \<times> string" where
  "extract_lines data =
     (case cut lf data of (line, rest, found) \<Rightarrow>
        if \<not> found then ([], data)
        else (case extract_lines rest of (lines, tail) \<Rightarrow> (trim_space line # lines, tail)))"
  by pat_completeness auto
termination
  by (relation "measure length") (auto dest!: cut_found sym [of _ "cut _ _"])

declare extract_lines.simps [simp del]

definition tail_write :: "tail_buffer \<Rightarrow> string \<Rightarrow> tail_buffer \<times> string list" where
  "tail_write b p =
     (let d = tb_data b @ p;
          d = (if length d > tb_max b then drop (length d - tb_max b) d else d)
      in case extract_lines d of (lines, tail) \<Rightarrow> (b\<lparr>tb_data := tail\<rparr>, lines))"

subsection \<open>The kernel\<close>

record cmd_pipe =
  cp_file :: "bool option"
  cp_text :: string
  cp_removed :: bool

definition pipe_write :: "bool \<Rightarrow> string \<Rightarrow> cmd_pipe \<Rightarrow> cmd_pipe \<times> engine_error option" where
  "pipe_write ok txt p =
     (case cp_file p of
        None \<Rightarrow> (p, Some Pipe_Not_Attached)
      | Some is_open \<Rightarrow>
          if is_open \<and> ok then (p\<lparr>cp_text := cp_text p @ txt\<rparr>, None) else (p, Some Pipe_Write_Failed))"

definition pipe_attach :: "cmd_pipe \<Rightarrow> cmd_pipe" where
  "pipe_attach p = p\<lparr>cp_file := Some True\<rparr>"

definition pipe_close :: "cmd_pipe \<Rightarrow> cmd_pipe" where
  "pipe_close p = p\<lparr>cp_file := map_option (\<lambda>_. False) (cp_file p), cp_removed := True\<rparr>"

record cli_options =
  co_binary :: string
  co_ffmpeg :: string
  co_rate :: int
  co_channels :: int
  co_depth :: int
  co_latency :: int
  co_iface :: string
  co_protocol :: string
  co_publish :: string
  co_headers :: "(string \<times> string) list"

record cli =
  cl_base :: "engine_error session_base"
  cl_target :: target
  cl_opts :: cli_options
  cl_context :: "bool option"
  cl_cmd :: bool
  cl_pipe :: "cmd_pipe option"
  cl_source :: "switchable option"
  cl_stdout :: "tail_buffer option"
  cl_stderr :: "tail_buffer option"

definition cli_kind :: string where "cli_kind = ''cliairplay''"

definition cli_defaults :: "cli_options \<Rightarrow> cli_options" where
  "cli_defaults opts =
     opts\<lparr>co_rate := (if co_rate opts \<le> 0 then 44100 else co_rate opts),
       co_channels := (if co_channels opts \<le> 0 then 2 else co_channels opts),
       co_depth := (if co_depth opts = 0 then 16 else co_depth opts),
       co_latency := (if co_latency opts \<le> 0 then 600 else co_latency opts),
       co_protocol := (if trim_space (co_protocol opts) = [] then ''auto'' else co_protocol opts)\<rparr>"

definition new_cli :: "time \<Rightarrow> target \<Rightarrow> int \<Rightarrow> cli_options \<Rightarrow> cli" where
  "new_cli now t volume opts =
     (let b = new_session_base now cli_kind (tg_id t) (tg_name t)
      in \<lparr>cl_base = b\<lparr>sb_request := (sb_request b)\<lparr>req_volume := volume\<rparr>\<rparr>, cl_target = t,
          cl_opts = cli_defaults opts, cl_context = None, cl_cmd = False, cl_pipe = None, cl_source = None,
          cl_stdout = None, cl_stderr = None\<rparr>)"

text \<open>
  \<open>Available\<close>: \<open>is_file\<close> is what \<open>os.Stat\<close> says of a path (exists and is no directory), \<open>on_path\<close> what
  \<open>exec.LookPath\<close> says of a bare name.
\<close>

definition cli_available :: "(string \<Rightarrow> bool) \<Rightarrow> (string \<Rightarrow> bool) \<Rightarrow> string \<Rightarrow> bool" where
  "cli_available is_file on_path binary \<longleftrightarrow>
     (let path = trim_space binary
      in if path = [] then False
         else if CHR ''/'' \<in> set path \<or> CHR 0x5C \<in> set path then is_file path
         else on_path path)"

text \<open>\<open>ord\<close> is the order in which the TXT map is ranged over; the keys are sorted afterwards.\<close>

definition txt_args :: "string list \<Rightarrow> (string \<rightharpoonup> string) \<Rightarrow> string list" where
  "txt_args ord m =
     map (\<lambda>key. key @ ''='' @ txt_get m key)
       (filter (\<lambda>key. trim_space (txt_get m key) \<noteq> []) (sort ord))"

definition build_args :: "string list \<Rightarrow> string \<Rightarrow> cli \<Rightarrow> string list" where
  "build_args ord pipe_path c =
     [''--protocol'', co_protocol (cl_opts c), ''--port'', itoa (tg_port (cl_target c)),
      ''--volume'', itoa (req_volume (sb_request (cl_base c))), ''--samplerate'', itoa (co_rate (cl_opts c)),
      ''--bitdepth'', itoa (co_depth (cl_opts c)), ''--channels'', itoa (co_channels (cl_opts c)),
      ''--latency'', itoa (co_latency (cl_opts c)), ''--cmdpipe'', pipe_path]
     @ (if co_iface (cl_opts c) \<noteq> [] then [''--if'', co_iface (cl_opts c)] else [])
     @ (if co_publish (cl_opts c) \<noteq> [] then [''--publish-ip'', co_publish (cl_opts c)] else [])
     @ (if tg_name (cl_target c) \<noteq> []
        then [''--name'', tg_name (cl_target c), ''--udn'', tg_name (cl_target c)] else [])
     @ (if txt_args ord (tg_txt (cl_target c)) \<noteq> []
        then ''--txt'' # txt_args ord (tg_txt (cl_target c)) else [])
     @ [tg_address (cl_target c)]"

definition cli_decoder_options :: "cli \<Rightarrow> int \<Rightarrow> decoder_options" where
  "cli_decoder_options c start =
     \<lparr>ffmpeg_path = co_ffmpeg (cl_opts c),
      opt_format = \<lparr>pf_rate = co_rate (cl_opts c), pf_channels = co_channels (cl_opts c),
                    pf_depth = co_depth (cl_opts c), pf_big_endian = False\<rparr>,
      start_position_ms = start, opt_headers = co_headers (cl_opts c)\<rparr>"

definition on_cli_base :: "(engine_error session_base \<Rightarrow> engine_error session_base) \<Rightarrow> cli \<Rightarrow> cli" where
  "on_cli_base f c = c\<lparr>cl_base := f (cl_base c)\<rparr>"

text \<open>\<open>ok\<close> is whether a write to the open pipe succeeds.\<close>

definition cli_command :: "bool \<Rightarrow> string \<Rightarrow> cli \<Rightarrow> cli \<times> engine_error option" where
  "cli_command ok txt c =
     (case cl_pipe c of
        None \<Rightarrow> (c, Some Pipe_Not_Ready)
      | Some p \<Rightarrow> (case pipe_write ok txt p of (p', err) \<Rightarrow> (c\<lparr>cl_pipe := Some p'\<rparr>, err)))"

definition cmd_line :: "string \<Rightarrow> string" where
  "cmd_line s = s @ [lf]"

definition start_command :: "int \<Rightarrow> string" where
  "start_command unix_ms = cmd_line (''START_UNIX_MS='' @ itoa unix_ms) @ cmd_line ''ACTION=START''"

definition volume_command :: "int \<Rightarrow> string" where
  "volume_command v = cmd_line (''VOLUME='' @ itoa v)"

definition metadata_fields :: "play_request \<Rightarrow> string list" where
  "metadata_fields r =
     (if req_title r \<noteq> [] then [''TITLE='' @ req_title r] else [])
     @ (if req_artist r \<noteq> [] then [''ARTIST='' @ req_artist r] else [])
     @ (if req_album r \<noteq> [] then [''ALBUM='' @ req_album r] else [])
     @ (if duration_ms r > 0 then [''DURATION='' @ itoa (go_div (duration_ms r) 1000)] else [])
     @ (if track_id r > 0 then [''ITEMID='' @ itoa (track_id r)] else [])"

definition metadata_text :: "play_request \<Rightarrow> string" where
  "metadata_text r =
     (if metadata_fields r = [] then []
      else concat (map cmd_line (metadata_fields r)) @ cmd_line ''ACTION=SENDMETA'')"

definition send_metadata :: "bool \<Rightarrow> play_request \<Rightarrow> cli \<Rightarrow> cli" where
  "send_metadata ok r c = (if metadata_text r = [] then c else fst (cli_command ok (metadata_text r) c))"

text \<open>The attach goroutine: it opens the pipe once the process reads from it.\<close>

definition cli_attach :: "bool \<Rightarrow> cli \<Rightarrow> cli" where
  "cli_attach reader_ready c = (if reader_ready then c\<lparr>cl_pipe := map_option pipe_attach (cl_pipe c)\<rparr> else c)"

text \<open>
  What Start meets: whether the binary is there, whether the pipe can be created, the decoder,
  whether the process starts, whether the reader has attached before each of the three writes, and
  whether these succeed.
\<close>

record cli_env =
  ce_now :: time
  ce_unix_ms :: int
  ce_available :: bool
  ce_pipe :: bool
  ce_spawn :: spawner
  ce_process :: bool
  ce_attach :: "bool \<times> bool \<times> bool"
  ce_write :: bool

definition cancel_cli :: "cli \<Rightarrow> cli" where
  "cancel_cli c = c\<lparr>cl_context := map_option (\<lambda>_. True) (cl_context c)\<rparr>"

definition close_cli_pipe :: "cli \<Rightarrow> cli" where
  "close_cli_pipe c = c\<lparr>cl_pipe := map_option pipe_close (cl_pipe c)\<rparr>"

definition close_cli_source :: "cli \<Rightarrow> cli" where
  "close_cli_source c = c\<lparr>cl_source := map_option switchable_close (cl_source c)\<rparr>"

definition cli_start :: "cli_env \<Rightarrow> play_request \<Rightarrow> cli \<Rightarrow> cli \<times> engine_error option" where
  "cli_start env req c0 =
     (let now = ce_now env
      in if \<not> ce_available env then (c0, Some (Binary_Not_Found (co_binary (cl_opts c0))))
         else
           (let c = on_cli_base (\<lambda>b. b\<lparr>sb_request := req, sb_state := Buffering\<rparr>) c0
            in if \<not> ce_pipe env
               then (on_cli_base (set_error now (Some Pipe_Unavailable)) c, Some Pipe_Unavailable)
               else
                 (let c = c\<lparr>cl_pipe := Some \<lparr>cp_file = None, cp_text = [], cp_removed = False\<rparr>,
                            cl_context := Some False\<rparr>
                  in case start_decoder (ce_spawn env) (cli_decoder_options c (start_ms req)) (stream_url req) of
                       None \<Rightarrow>
                         (on_cli_base (set_error now (Some Decoder_Failed)) (cancel_cli (close_cli_pipe c)),
                          Some Decoder_Failed)
                     | Some src \<Rightarrow>
                         (let c = c\<lparr>cl_source := Some (new_switchable src),
                                    cl_stdout := Some (new_tail_buffer (16 * 1024)),
                                    cl_stderr := Some (new_tail_buffer (32 * 1024))\<rparr>
                          in if \<not> ce_process env
                             then (on_cli_base (set_error now (Some Process_Start_Failed))
                                     (cancel_cli (close_cli_pipe (close_cli_source c))),
                                   Some Process_Start_Failed)
                             else
                               (let c = c\<lparr>cl_cmd := True\<rparr>;
                                    (a1, a2, a3) = ce_attach env;
                                    ok = ce_write env;
                                    c = fst (cli_command ok (volume_command (req_volume req)) (cli_attach a1 c));
                                    c = fst (cli_command ok (start_command (ce_unix_ms env)) (cli_attach a2 c));
                                    c = send_metadata ok req (cli_attach a3 c)
                                in (on_cli_base (set_state now Playing) c, None))))))"

text \<open>The end of the process, with the text of its error and of its diagnostics, if any.\<close>

definition cli_watch :: "time \<Rightarrow> string option \<Rightarrow> cli \<Rightarrow> cli" where
  "cli_watch now err c =
     (if cl_context c = Some True then on_cli_base (set_state now Stopped) c
      else (case err of
              Some e \<Rightarrow> on_cli_base (set_error now (Some (Process_Exited e))) c
            | None \<Rightarrow> on_cli_base (mark_finished now) c))"

definition status_tag :: string where "status_tag = ''[STATUS]''"

definition handle_status_line :: "time \<Rightarrow> string \<Rightarrow> cli \<Rightarrow> cli" where
  "handle_status_line now s c =
     (if \<not> prefix status_tag s then c
      else (case go_fields (trim_prefix s status_tag) of
              [] \<Rightarrow> c
            | word # _ \<Rightarrow>
                if word \<in> {''started'', ''playing''} then on_cli_base (set_state now Playing) c
                else if word \<in> {''paused'', ''standby''} then on_cli_base (set_state now Paused) c
                else if word = ''flushed'' then on_cli_base (set_state now Buffering) c
                else if word \<in> {''stopped'', ''eof''} then on_cli_base (mark_finished now) c
                else if word \<in> {''error'', ''failed''} then on_cli_base (set_error now (Some (Kernel_Status s))) c
                else c))"

text \<open>A chunk of the process's standard error (or output) reaches its buffer, then the parser.\<close>

definition cli_stderr_chunk :: "time \<Rightarrow> string \<Rightarrow> cli \<Rightarrow> cli" where
  "cli_stderr_chunk now chunk c =
     (case cl_stderr c of
        None \<Rightarrow> c
      | Some b \<Rightarrow> (case tail_write b chunk of (b', lines) \<Rightarrow>
                     fold (handle_status_line now) lines (c\<lparr>cl_stderr := Some b'\<rparr>)))"

definition cli_stdout_chunk :: "time \<Rightarrow> string \<Rightarrow> cli \<Rightarrow> cli" where
  "cli_stdout_chunk now chunk c =
     (case cl_stdout c of
        None \<Rightarrow> c
      | Some b \<Rightarrow> (case tail_write b chunk of (b', lines) \<Rightarrow>
                     fold (handle_status_line now) lines (c\<lparr>cl_stdout := Some b'\<rparr>)))"

definition cli_diagnostics :: "cli \<Rightarrow> string" where
  "cli_diagnostics c =
     (let txt = (\<lambda>b. case b of None \<Rightarrow> [] | Some b \<Rightarrow> trim_space (tb_data b))
      in join '' | '' (filter (\<lambda>s. s \<noteq> []) [txt (cl_stderr c), txt (cl_stdout c)]))"

definition cli_close :: "time \<Rightarrow> bool \<Rightarrow> cli \<Rightarrow> cli" where
  "cli_close now ok c =
     close_cli_source (close_cli_pipe (cancel_cli
       (on_cli_base (set_state now Stopped) (fst (cli_command ok (cmd_line ''ACTION=STOP'') c)))))"

definition cli_seek :: "time \<Rightarrow> int \<Rightarrow> spawner \<Rightarrow> bool \<Rightarrow> int \<Rightarrow> cli \<Rightarrow> cli \<times> engine_error option" where
  "cli_seek now unix_ms spawn ok position0 c =
     (let pos = (if position0 < 0 then 0 else position0)
      in case cl_source c of
           None \<Rightarrow> (c, Some No_Session)
         | Some r \<Rightarrow>
             (case start_decoder spawn (cli_decoder_options c pos) (stream_url (sb_request (cl_base c))) of
                None \<Rightarrow> (c, Some Seek_Decoder_Failed)
              | Some src \<Rightarrow>
                  (let c = c\<lparr>cl_source := Some (swap_source r src)\<rparr>
                   in case cli_command ok (cmd_line ''ACTION=FLUSH'') c of
                        (c, Some e) \<Rightarrow> (c, Some e)
                      | (c, None) \<Rightarrow>
                          (case cli_command ok (start_command unix_ms) c of
                             (c, Some e) \<Rightarrow> (c, Some e)
                           | (c, None) \<Rightarrow>
                               (let c = (if duration_ms (sb_request (cl_base c)) > 0
                                         then fst (cli_command ok (cmd_line (''PROGRESS='' @ itoa (go_div pos 1000))) c)
                                         else c)
                                in (on_cli_base (reset_position now pos) c, None))))))"

definition cli_control ::
  "time \<Rightarrow> int \<Rightarrow> spawner \<Rightarrow> bool \<Rightarrow> string \<Rightarrow> int \<Rightarrow> cli \<Rightarrow> cli \<times> engine_error option" where
  "cli_control now unix_ms spawn ok action pos c =
     (if \<not> cl_cmd c then (c, Some No_Session)
      else if action = action_pause then
        (case cli_command ok (cmd_line ''ACTION=PAUSE'') c of
           (c, Some e) \<Rightarrow> (c, Some e)
         | (c, None) \<Rightarrow> (on_cli_base (set_state now Paused) c, None))
      else if action = action_resume then
        (case cli_command ok (cmd_line ''ACTION=PLAY'') c of
           (c, Some e) \<Rightarrow> (c, Some e)
         | (c, None) \<Rightarrow> (on_cli_base (set_state now Playing) c, None))
      else if action = action_stop then (cli_close now ok c, None)
      else if action = action_seek then cli_seek now unix_ms spawn ok pos c
      else (c, Some (Not_Supported action)))"

definition cli_set_volume :: "bool \<Rightarrow> int \<Rightarrow> cli \<Rightarrow> cli \<times> engine_error option" where
  "cli_set_volume ok percent0 c0 =
     (let percent = clamp_percent percent0;
          c = on_cli_base (\<lambda>b. b\<lparr>sb_request := (sb_request b)\<lparr>req_volume := percent\<rparr>\<rparr>) c0
      in if \<not> cl_cmd c then (c, None) else cli_command ok (volume_command percent) c)"

definition cli_status :: "time \<Rightarrow> cli \<Rightarrow> engine_error status" where
  "cli_status now c = snapshot now (cl_base c)"

subsection \<open>Lines of the process's output\<close>

lemma split_on_app:
  "split_on sep (a @ b) = butlast (split_on sep a) @ (case split_on sep b of p # ps \<Rightarrow> (last (split_on sep a) @ p) # ps)"
proof (induction a)
  case Nil
  show ?case by (cases "split_on sep b") auto
next
  case (Cons c a)
  obtain p ps where p: "split_on sep a = p # ps"
    by (cases "split_on sep a") auto
  show ?case
    using Cons by (cases "ps = []") (auto simp: p split: list.splits)
qed

lemma extract_lines_split:
  "extract_lines d = (map trim_space (butlast (split_on lf d)), last (split_on lf d))"
proof (induction d rule: extract_lines.induct)
  case (1 d)
  obtain s rest found where c: "cut lf d = (s, rest, found)"
    by (metis prod_cases3)
  show ?case
  proof (cases found)
    case True
    then have d: "d = s @ lf # rest" "lf \<notin> set s"
      using cut_found c by auto
    from 1 [OF c [symmetric] refl] True show ?thesis
      by (subst extract_lines.simps) (simp add: c d split_on_append cut_append)
  next
    case False
    have "lf \<notin> set d"
    proof
      assume "lf \<in> set d"
      then obtain a b where "d = a @ lf # b" "lf \<notin> set a"
        by (metis split_list_first)
      with c False show False
        by (simp add: cut_append)
    qed
    then show ?thesis
      using False by (subst extract_lines.simps) (simp add: c split_on_notin)
  qed
qed

lemma handle_status_other:
  "handle_status_line now s (c\<lparr>cl_stderr := b\<rparr>) = (handle_status_line now s c)\<lparr>cl_stderr := b\<rparr>"
  "cl_stderr (handle_status_line now s c) = cl_stderr c"
  unfolding handle_status_line_def on_cli_base_def by (simp_all split: list.split)

lemma handle_lines_other:
  "fold (handle_status_line now) ss (c\<lparr>cl_stderr := b\<rparr>) = (fold (handle_status_line now) ss c)\<lparr>cl_stderr := b\<rparr>"
  "cl_stderr (fold (handle_status_line now) ss c) = cl_stderr c"
  by (induction ss arbitrary: c) (simp_all add: handle_status_other)

lemma stderr_chunk:
  assumes "tail_write b ch = (b', ss)"
  shows "cli_stderr_chunk now ch (c\<lparr>cl_stderr := Some b\<rparr>) = (fold (handle_status_line now) ss c)\<lparr>cl_stderr := Some b'\<rparr>"
  by (simp add: cli_stderr_chunk_def assms handle_lines_other)

lemma split_on_two:
  assumes "split_on c b = p # ps"
  shows "split_on c (a @ b) = butlast (split_on c a) @ (last (split_on c a) @ p) # ps"
    and "split_on c (last (split_on c a) @ b) = (last (split_on c a) @ p) # ps"
proof -
  show "split_on c (a @ b) = butlast (split_on c a) @ (last (split_on c a) @ p) # ps"
    by (simp add: split_on_app assms)
  have "c \<notin> set (last (split_on c a))"
    using split_on_parts [of "last (split_on c a)" c a] by simp
  then show "split_on c (last (split_on c a) @ b) = (last (split_on c a) @ p) # ps"
    by (simp add: split_on_app [of c "last (split_on c a)"] assms split_on_notin)
qed

lemma in_butlast_or_last: "xs \<noteq> [] \<Longrightarrow> x \<in> set xs \<Longrightarrow> x \<in> set (butlast xs) \<or> x = last xs"
  by (metis append_butlast_last_id in_set_conv_decomp_first rotate1.simps(2) set_ConsD set_rotate1)

text \<open>Splitting text that arrives in pieces needs the last, unfinished line only.\<close>

lemma split_on_incremental:
  "butlast (split_on c (a @ b)) = butlast (split_on c a) @ butlast (split_on c (last (split_on c a) @ b))"
  "last (split_on c (a @ b)) = last (split_on c (last (split_on c a) @ b))"
proof -
  obtain p ps where "split_on c b = p # ps"
    by (cases "split_on c b") auto
  note two = split_on_two [OF this, of a]
  show "butlast (split_on c (a @ b)) = butlast (split_on c a) @ butlast (split_on c (last (split_on c a) @ b))"
    "last (split_on c (a @ b)) = last (split_on c (last (split_on c a) @ b))"
    unfolding two by (simp_all add: butlast_append)
qed

lemma lines_bounded_prefix:
  assumes "\<forall>p \<in> set (split_on c (a @ b)). length p + k \<le> m" "x \<in> set (split_on c a)"
  shows "length x + k \<le> m"
proof -
  obtain p ps where "split_on c b = p # ps"
    by (cases "split_on c b") auto
  note two = split_on_two [OF this, of a]
  have "x \<in> set (butlast (split_on c a)) \<or> x = last (split_on c a)"
    using in_butlast_or_last [OF split_on_nonempty assms(2)] .
  then show ?thesis
    using assms(1) unfolding two by auto
qed

text \<open>
  C30: The status lines of the external kernel do not depend on how its output arrives.  As long as
  no line exceeds what the buffer has left beside one chunk, feeding the chunks one by one has the
  effect of handling the complete lines of the whole text in order, each trimmed, and keeps the
  incomplete last line for the next chunk.
\<close>

lemma status_lines_any_chunking:
  assumes "cl_stderr c = Some \<lparr>tb_data = [], tb_max = m\<rparr>"
    and "\<forall>ch \<in> set chunks. length ch \<le> k"
    and "\<forall>p \<in> set (split_on lf (concat chunks)). length p + k \<le> m"
  shows "fold (cli_stderr_chunk now) chunks c
       = (fold (handle_status_line now) (map trim_space (butlast (split_on lf (concat chunks)))) c)
           \<lparr>cl_stderr := Some \<lparr>tb_data = last (split_on lf (concat chunks)), tb_max = m\<rparr>\<rparr>"
  using assms(2,3)
proof (induction chunks rule: rev_induct)
  case Nil
  have "c = c\<lparr>cl_stderr := Some \<lparr>tb_data = [], tb_max = m\<rparr>\<rparr>"
    using assms(1) by simp
  then show ?case by simp
next
  case (snoc ch chunks)
  let ?t = "concat chunks" and ?tail = "last (split_on lf (concat chunks))"
  have old: "\<forall>x \<in> set (split_on lf ?t). length x + k \<le> m"
    using lines_bounded_prefix [of lf ?t ch k m] snoc.prems(2) by simp
  then have "length (?tail @ ch) \<le> m"
    using snoc.prems(1) last_in_set [OF split_on_nonempty, of lf ?t] by fastforce
  then have w: "tail_write \<lparr>tb_data = ?tail, tb_max = m\<rparr> ch
      = (\<lparr>tb_data = last (split_on lf (?tail @ ch)), tb_max = m\<rparr>, map trim_space (butlast (split_on lf (?tail @ ch))))"
    by (simp add: tail_write_def extract_lines_split Let_def)
  have IH: "fold (cli_stderr_chunk now) chunks c
      = (fold (handle_status_line now) (map trim_space (butlast (split_on lf ?t))) c)
          \<lparr>cl_stderr := Some \<lparr>tb_data = ?tail, tb_max = m\<rparr>\<rparr>"
    using snoc.IH snoc.prems(1) old by simp
  show ?case
    by (simp add: IH stderr_chunk [OF w] split_on_incremental [of lf ?t])
qed

text \<open>A kernel whose process is running and whose pipe has a reader.\<close>

definition running_cli :: "cli \<Rightarrow> cli" where
  "running_cli c =
     on_cli_base (set_state 5 Playing)
       (c\<lparr>cl_context := Some False, cl_cmd := True, cl_pipe := Some \<lparr>cp_file = Some True, cp_text = [], cp_removed = False\<rparr>,
          cl_stderr := Some (new_tail_buffer 64)\<rparr>)"

definition demo_cli :: cli where
  "demo_cli =
     new_cli 1 \<lparr>tg_id = ''d'', tg_name = ''Kitchen'', tg_address = ''10.0.0.9'', tg_port = 7000, tg_protocol = ''raop'',
         tg_requires_password = False, tg_txt = Map.empty\<rparr> 50
       \<lparr>co_binary = ''cliairplay'', co_ffmpeg = ''ffmpeg'', co_rate = 0, co_channels = 0, co_depth = 0, co_latency = 0,
         co_iface = [], co_protocol = [], co_publish = [], co_headers = []\<rparr>"

lemma status_lines_any_chunking_witness:
  "let c = fold (cli_stderr_chunk 9) [''[STATUS] pau'', ''sed'' @ [lf] @ ''[STA''] (running_cli demo_cli)
   in sb_state (cl_base c) = Paused \<and> cl_stderr c = Some \<lparr>tb_data = ''[STA'', tb_max = 64\<rparr>"
proof -
  have sp: "split_on lf (concat [''[STATUS] pau'', ''sed'' @ [lf] @ ''[STA'']) = [''[STATUS] paused'', ''[STA'']"
    by (simp add: lf_def)
  have f: "go_fields '' paused'' = [''paused'']"
    by code_simp
  have t: "trim_space ''[STATUS] paused'' = ''[STATUS] paused''"
    by (rule trim_space_id) (simp_all add: edge_byte_def space_runes_def)
  have c: "cl_stderr (running_cli demo_cli) = Some \<lparr>tb_data = [], tb_max = 64\<rparr>"
    by (simp add: running_cli_def on_cli_base_def new_tail_buffer_def)
  have h: "sb_state (cl_base (handle_status_line 9 ''[STATUS] paused'' d)) = Paused" for d
    by (simp add: handle_status_line_def status_tag_def trim_prefix_def f on_cli_base_def)
  show ?thesis
    using status_lines_any_chunking [OF c, where k = 20 and now = 9, of "[''[STATUS] pau'', ''sed'' @ [lf] @ ''[STA'']",
        unfolded sp]
    by (simp add: t h)
qed

subsection \<open>Commands\<close>

lemma cl_fields [simp]:
  "cl_pipe (on_cli_base f c) = cl_pipe c" "cl_base (on_cli_base f c) = f (cl_base c)"
  "cl_context (on_cli_base f c) = cl_context c" "cl_source (on_cli_base f c) = cl_source c"
  "cl_cmd (on_cli_base f c) = cl_cmd c" "cl_opts (on_cli_base f c) = cl_opts c"
  "cl_target (on_cli_base f c) = cl_target c"
  by (simp_all add: on_cli_base_def)

lemma split_on_lines:
  "\<forall>f \<in> set fs. lf \<notin> set f \<Longrightarrow> split_on lf (concat (map cmd_line fs) @ s) = fs @ split_on lf s"
  by (induction fs) (simp_all add: cmd_line_def split_on_append)

definition one_line :: "play_request \<Rightarrow> bool" where
  "one_line r \<longleftrightarrow> lf \<notin> set (req_title r) \<and> lf \<notin> set (req_artist r) \<and> lf \<notin> set (req_album r)"

lemma lf_not_in_itoa [simp]: "lf \<notin> set (itoa i)"
  by (rule not_in_itoa) (simp_all add: lf_def is_digit_def less_eq_char_simp)

lemma metadata_fields_one_line: "one_line r \<Longrightarrow> \<forall>f \<in> set (metadata_fields r). lf \<notin> set f"
  by (auto simp: metadata_fields_def one_line_def) (simp_all add: lf_def)

text \<open>
  The metadata reaches the kernel as exactly its fields.  When no text field contains a line
  break, reading the command pipe line by line gives one line for each field that is present, in
  order, then the action that applies them, and nothing else.
\<close>

lemma metadata_commands_exact:
  assumes "one_line r"
  shows "split_on lf (metadata_text r)
       = (if metadata_fields r = [] then [[]] else metadata_fields r @ [''ACTION=SENDMETA'', []])"
proof -
  have "split_on lf (cmd_line ''ACTION=SENDMETA'') = [''ACTION=SENDMETA'', []]"
    by (simp add: cmd_line_def lf_def)
  then show ?thesis
    using metadata_fields_one_line [OF assms] by (simp add: metadata_text_def split_on_lines)
qed

lemma metadata_commands_exact_witness:
  "split_on lf (metadata_text (no_request\<lparr>req_title := ''So What'', duration_ms := 545000\<rparr>))
     = [''TITLE=So What'', ''DURATION=545'', ''ACTION=SENDMETA'', []]"
proof -
  let ?r = "no_request\<lparr>req_title := ''So What'', duration_ms := 545000\<rparr>"
  have "one_line ?r"
    by (simp add: one_line_def no_request_def lf_def)
  moreover have "metadata_fields ?r = [''TITLE=So What'', ''DURATION=545'']"
    by (simp add: metadata_fields_def no_request_def itoa_def nat_str.simps digit_char_def)
  ultimately show ?thesis
    using metadata_commands_exact [of ?r] by simp
qed

text \<open>
  A line break in a metadata field is not escaped.  Whatever follows it in the title is read by
  the kernel as a command of its own, so the REST client that names a track can issue any command.
\<close>

lemma metadata_injects_commands:
  assumes "req_title r = title @ lf # command" "lf \<notin> set title" "lf \<notin> set command"
  shows "command \<in> set (split_on lf (metadata_text r))"
proof -
  obtain fs where fs: "metadata_fields r = (''TITLE='' @ title @ lf # command) # fs"
    by (simp add: metadata_fields_def assms(1))
  have "metadata_text r = (''TITLE='' @ title) @ lf # command @ lf # concat (map cmd_line fs) @ cmd_line ''ACTION=SENDMETA''"
    by (simp add: metadata_text_def fs cmd_line_def)
  moreover have "lf \<notin> set (''TITLE='' @ title)"
    using assms(2) by (simp add: lf_def)
  ultimately show ?thesis
    by (simp only: split_on_append [OF \<open>lf \<notin> set (''TITLE='' @ title)\<close>] split_on_append [OF assms(3)]) simp
qed

lemma metadata_injects_commands_witness:
  "''ACTION=STOP'' \<in> set (split_on lf (metadata_text (no_request\<lparr>req_title := ''x'' @ lf # ''ACTION=STOP''\<rparr>)))"
  using metadata_injects_commands [of "no_request\<lparr>req_title := ''x'' @ lf # ''ACTION=STOP''\<rparr>" "''x''" "''ACTION=STOP''"]
  by (simp add: lf_def)

subsection \<open>Starting\<close>

lemma command_attached:
  assumes "cl_pipe c = Some \<lparr>cp_file = (if a then Some True else None), cp_text = s, cp_removed = False\<rparr>"
  shows "fst (cli_command True t c)
      = c\<lparr>cl_pipe := Some \<lparr>cp_file = (if a then Some True else None), cp_text = (if a then s @ t else s), cp_removed = False\<rparr>\<rparr>"
  using assms by (cases c) (auto simp: cli_command_def pipe_write_def)

lemma attach_pipe:
  "cl_pipe (cli_attach a' c) =
     (case cl_pipe c of None \<Rightarrow> None | Some p \<Rightarrow> Some (if a' then p\<lparr>cp_file := Some True\<rparr> else p))"
  by (auto simp: cli_attach_def pipe_attach_def split: option.split)

lemma send_metadata_pipe:
  assumes "cl_pipe c = Some \<lparr>cp_file = (if a then Some True else None), cp_text = s, cp_removed = False\<rparr>"
  shows "cl_pipe (send_metadata True r c)
      = Some \<lparr>cp_file = (if a then Some True else None), cp_text = (if a then s @ metadata_text r else s), cp_removed = False\<rparr>"
  using assms by (simp add: send_metadata_def command_attached [OF assms])

text \<open>The kernel with its process running, before the initial commands.\<close>

definition launched :: "play_request \<Rightarrow> source \<Rightarrow> cli \<Rightarrow> cli" where
  "launched req src c0 =
     (on_cli_base (\<lambda>b. b\<lparr>sb_request := req, sb_state := Buffering\<rparr>) c0)
       \<lparr>cl_pipe := Some \<lparr>cp_file = None, cp_text = [], cp_removed = False\<rparr>, cl_context := Some False,
        cl_source := Some (new_switchable src), cl_stdout := Some (new_tail_buffer (16 * 1024)),
        cl_stderr := Some (new_tail_buffer (32 * 1024)), cl_cmd := True\<rparr>"

definition initial_commands :: "cli_env \<Rightarrow> play_request \<Rightarrow> cli \<Rightarrow> cli" where
  "initial_commands env req c =
     (case ce_attach env of (a1, a2, a3) \<Rightarrow>
        send_metadata (ce_write env) req (cli_attach a3
          (fst (cli_command (ce_write env) (start_command (ce_unix_ms env)) (cli_attach a2
            (fst (cli_command (ce_write env) (volume_command (req_volume req)) (cli_attach a1 c))))))))"

lemma decoder_options_other:
  "cli_decoder_options (on_cli_base f c) = cli_decoder_options c"
  "cli_decoder_options (c\<lparr>cl_pipe := p, cl_context := x\<rparr>) = cli_decoder_options c"
  by (simp_all add: fun_eq_iff cli_decoder_options_def)

lemma cli_start_success:
  assumes "ce_available env" "ce_pipe env" "ce_process env"
    and "start_decoder (ce_spawn env) (cli_decoder_options c0 (start_ms req)) (stream_url req) = Some src"
  shows "cli_start env req c0
      = (on_cli_base (set_state (ce_now env) Playing) (initial_commands env req (launched req src c0)), None)"
  using assms
  by (simp add: cli_start_def Let_def decoder_options_other initial_commands_def launched_def split: prod.split)

lemma initial_commands_pipe:
  assumes "ce_attach env = (a1, a2, a3)" "ce_write env"
  shows "cl_pipe (initial_commands env req (launched req src c0))
      = Some \<lparr>cp_file = (if a1 \<or> a2 \<or> a3 then Some True else None),
          cp_text = (if a1 then volume_command (req_volume req) else [])
            @ (if a1 \<or> a2 then start_command (ce_unix_ms env) else [])
            @ (if a1 \<or> a2 \<or> a3 then metadata_text req else []),
          cp_removed = False\<rparr>"
proof -
  have l: "cl_pipe (launched req src c0) = Some \<lparr>cp_file = None, cp_text = [], cp_removed = False\<rparr>"
    by (simp add: launched_def)
  show ?thesis
    using assms
    by (cases a1; cases a2; cases a3)
      (simp_all add: initial_commands_def attach_pipe l cli_command_def pipe_write_def send_metadata_def)
qed

text \<open>
  The initial commands need a reader.  Start writes the volume, the start command and the
  metadata only as far as the process has opened the pipe by then, and drops the others for good;
  it succeeds and reports \<open>playing\<close> even when nothing was written.
\<close>

lemma initial_commands_need_reader:
  assumes "ce_available env" "ce_pipe env" "ce_process env" "ce_write env"
    and "start_decoder (ce_spawn env) (cli_decoder_options c0 (start_ms req)) (stream_url req) = Some src"
    and "ce_attach env = (a1, a2, a3)"
  shows "snd (cli_start env req c0) = None
       \<and> sb_state (cl_base (fst (cli_start env req c0))) = Playing
       \<and> map_option cp_text (cl_pipe (fst (cli_start env req c0)))
           = Some ((if a1 then volume_command (req_volume req) else [])
                @ (if a1 \<or> a2 then start_command (ce_unix_ms env) else [])
                @ (if a1 \<or> a2 \<or> a3 then metadata_text req else []))"
  by (simp add: cli_start_success [OF assms(1-3,5)] initial_commands_pipe [OF assms(6,4)])

definition cli_ready_env :: "bool \<times> bool \<times> bool \<Rightarrow> cli_env" where
  "cli_ready_env attach =
     \<lparr>ce_now = 5, ce_unix_ms = 1700000000000, ce_available = True, ce_pipe = True, ce_spawn = (\<lambda>_. Some 0),
      ce_process = True, ce_attach = attach, ce_write = True\<rparr>"

lemma demo_decoder: "start_decoder (\<lambda>_. Some 0) opts ''http://10.0.0.2/1'' = Some 0"
  by (simp add: start_decoder_def decoder_command_def trim_space_id edge_byte_def space_runes_def)

lemma initial_commands_need_reader_witness:
  "map_option cp_text (cl_pipe (fst (cli_start (cli_ready_env (False, False, False))
      (no_request\<lparr>stream_url := ''http://10.0.0.2/1'', req_volume := 30\<rparr>) demo_cli))) = Some []"
  using initial_commands_need_reader [of "cli_ready_env (False, False, False)" demo_cli
      "no_request\<lparr>stream_url := ''http://10.0.0.2/1'', req_volume := 30\<rparr>" 0 False False False]
  by (simp add: cli_ready_env_def demo_decoder)

text \<open>The kernel holds no open pipe, decoder or running context any more.\<close>

definition cli_released :: "cli \<Rightarrow> bool" where
  "cli_released c \<longleftrightarrow>
     cl_context c \<noteq> Some False
     \<and> (\<forall>p. cl_pipe c = Some p \<longrightarrow> cp_file p \<noteq> Some True \<and> cp_removed p)
     \<and> (\<forall>r. cl_source c = Some r \<longrightarrow> sw_closed r \<and> held r = {#})"

lemma release_cli_fields [simp]:
  "cl_pipe (cancel_cli c) = cl_pipe c" "cl_base (cancel_cli c) = cl_base c" "cl_source (cancel_cli c) = cl_source c"
  "cl_cmd (cancel_cli c) = cl_cmd c" "cl_context (cancel_cli c) = map_option (\<lambda>_. True) (cl_context c)"
  "cl_context (close_cli_pipe c) = cl_context c" "cl_base (close_cli_pipe c) = cl_base c"
  "cl_source (close_cli_pipe c) = cl_source c" "cl_pipe (close_cli_pipe c) = map_option pipe_close (cl_pipe c)"
  "cl_cmd (close_cli_pipe c) = cl_cmd c" "cl_cmd (close_cli_source c) = cl_cmd c"
  "cl_context (close_cli_source c) = cl_context c" "cl_base (close_cli_source c) = cl_base c"
  "cl_pipe (close_cli_source c) = cl_pipe c" "cl_source (close_cli_source c) = map_option switchable_close (cl_source c)"
  by (simp_all add: cancel_cli_def close_cli_pipe_def close_cli_source_def)

lemma pipe_close_fields [simp]: "cp_file (pipe_close p) \<noteq> Some True" "cp_removed (pipe_close p)"
  by (simp_all add: pipe_close_def)

lemma set_error_failed [simp]: "sb_state (set_error now (Some e) s) = Failed"
  by (simp add: set_error_def)

lemma cli_failure_released:
  assumes "cli_start env req (new_cli t tgt v opts) = (c, Some e)"
  shows "cli_released c
       \<and> sb_state (cl_base c) = (if ce_available env then Failed else Buffering)"
proof -
  let ?c0 = "new_cli t tgt v opts"
  have n: "cl_context ?c0 = None" "cl_pipe ?c0 = None" "cl_source ?c0 = None" "sb_state (cl_base ?c0) = Buffering"
    by (simp_all add: new_cli_def new_session_base_def Let_def)
  consider "\<not> ce_available env" | "ce_available env" "\<not> ce_pipe env"
    | "ce_available env" "ce_pipe env" "start_decoder (ce_spawn env) (cli_decoder_options ?c0 (start_ms req)) (stream_url req) = None"
    | src where "ce_available env" "ce_pipe env" "\<not> ce_process env"
        "start_decoder (ce_spawn env) (cli_decoder_options ?c0 (start_ms req)) (stream_url req) = Some src"
    | src where "ce_available env" "ce_pipe env" "ce_process env"
        "start_decoder (ce_spawn env) (cli_decoder_options ?c0 (start_ms req)) (stream_url req) = Some src"
    by (cases "start_decoder (ce_spawn env) (cli_decoder_options ?c0 (start_ms req)) (stream_url req)") auto
  then show ?thesis
  proof cases
    case 1
    with assms n show ?thesis by (auto simp: cli_start_def cli_released_def)
  next
    case 2
    with assms n show ?thesis by (auto simp: cli_start_def cli_released_def Let_def)
  next
    case 3
    with assms n show ?thesis by (auto simp: cli_start_def cli_released_def Let_def decoder_options_other)
  next
    case 4
    with assms n show ?thesis
      by (auto simp: cli_start_def cli_released_def Let_def decoder_options_other closed_switchable_empty
          reader_inv_def new_switchable_def)
  next
    case 5
    with assms show ?thesis by (simp add: cli_start_success)
  qed
qed

text \<open>
  C29: A failed start leaves nothing behind.  Whatever step fails, the kernel it leaves has no open
  pipe, no decoder and no running context; and its state is \<open>failed\<close>, unless the binary was missing,
  when it is unchanged.
\<close>

lemma cli_start_failure_releases:
  assumes "cli_start env req (new_cli t tgt v opts) = (c, Some e)"
  shows "cli_released c
       \<and> sb_state (cl_base c) = (if ce_available env then Failed else Buffering)"
  using cli_failure_released [OF assms] .

lemma cli_start_failure_releases_witness:
  "cli_released (fst (cli_start ((cli_ready_env (True, True, True))\<lparr>ce_process := False\<rparr>)
      (no_request\<lparr>stream_url := ''http://10.0.0.2/1''\<rparr>) demo_cli))"
proof -
  let ?e = "(cli_ready_env (True, True, True))\<lparr>ce_process := False\<rparr>" and ?r = "no_request\<lparr>stream_url := ''http://10.0.0.2/1''\<rparr>"
  have "snd (cli_start ?e ?r demo_cli) = Some Process_Start_Failed"
    by (simp add: cli_start_def cli_ready_env_def demo_decoder Let_def)
  then have "cli_start ?e ?r demo_cli = (fst (cli_start ?e ?r demo_cli), Some Process_Start_Failed)"
    by (metis prod.collapse)
  from cli_start_failure_releases [OF this [unfolded demo_cli_def]] show ?thesis
    unfolding demo_cli_def [symmetric] by simp
qed

subsection \<open>Seeking\<close>

text \<open>
  A seek that cannot reach the kernel is half done.  While the pipe has no reader the seek
  returns an error and the position stays as it was, but the source has already been replaced: the
  session plays on from the target of the failed seek.
\<close>

lemma failed_seek_switches_source:
  assumes "cl_cmd c" "cl_source c = Some r" "cl_pipe c = Some p" "cp_file p = None"
    and "start_decoder spawn (cli_decoder_options c (max 0 pos)) (stream_url (sb_request (cl_base c))) = Some src"
  shows "cli_control now ms spawn ok action_seek pos c = (c\<lparr>cl_source := Some (swap_source r src)\<rparr>, Some Pipe_Not_Attached)"
proof -
  have "(if pos < 0 then 0 else pos) = max 0 pos"
    by simp
  then show ?thesis
    using assms by (simp add: cli_control_def cli_seek_def action_defs cli_command_def pipe_write_def)
qed

definition unread_cli :: cli where
  "unread_cli =
     demo_cli\<lparr>cl_cmd := True, cl_source := Some (new_switchable 0),
       cl_pipe := Some \<lparr>cp_file = None, cp_text = [], cp_removed = False\<rparr>,
       cl_base := (cl_base demo_cli)\<lparr>sb_request := no_request\<lparr>stream_url := ''http://10.0.0.2/1''\<rparr>\<rparr>\<rparr>"

lemma failed_seek_switches_source_witness:
  "cli_control 9 1700000000000 (\<lambda>_. Some 7) True action_seek 60000 unread_cli
   = (unread_cli\<lparr>cl_source := Some (swap_source (new_switchable 0) 7)\<rparr>, Some Pipe_Not_Attached)"
proof -
  have "start_decoder (\<lambda>_. Some 7) opts (stream_url (sb_request (cl_base unread_cli))) = Some 7" for opts
    by (simp add: unread_cli_def start_decoder_def decoder_command_def trim_space_id edge_byte_def space_runes_def)
  then show ?thesis
    by (intro failed_seek_switches_source [where p = "\<lparr>cp_file = None, cp_text = [], cp_removed = False\<rparr>"])
      (simp_all add: unread_cli_def)
qed

subsection \<open>Arguments\<close>

lemma txt_args_order:
  assumes "enumerates ord m" "enumerates ord' m"
  shows "txt_args ord m = txt_args ord' m"
proof -
  have "sort ord = sort ord'"
    using assms by (intro sorted_distinct_set_unique) (simp_all add: enumerates_def)
  then show ?thesis
    by (simp add: txt_args_def)
qed

text \<open>
  The command line is a function of the session.  However Go ranges over the TXT records, the
  kernel gets the same arguments; the last one is the address of the receiver, and every TXT
  record with a value that is not blank appears exactly once, as one argument.
\<close>

lemma command_line_deterministic:
  assumes "enumerates ord (tg_txt (cl_target c))" "enumerates ord' (tg_txt (cl_target c))"
  shows "build_args ord path c = build_args ord' path c
       \<and> last (build_args ord path c) = tg_address (cl_target c)
       \<and> mset (txt_args ord (tg_txt (cl_target c)))
          = {# key @ ''='' @ txt_get (tg_txt (cl_target c)) key.
               key \<in># {# key \<in># mset ord. trim_space (txt_get (tg_txt (cl_target c)) key) \<noteq> [] #} #}"
proof (intro conjI)
  show "build_args ord path c = build_args ord' path c"
    using txt_args_order [OF assms] by (simp add: build_args_def)
  show "last (build_args ord path c) = tg_address (cl_target c)"
    by (simp add: build_args_def)
qed (simp add: txt_args_def)

lemma command_line_deterministic_witness:
  "last (build_args [''et'', ''cn''] ''/tmp/p'' (demo_cli\<lparr>cl_target := (cl_target demo_cli)\<lparr>tg_txt := [''cn'' \<mapsto> ''0,1'', ''et'' \<mapsto> ''0'']\<rparr>\<rparr>))
     = ''10.0.0.9''"
proof -
  let ?c = "demo_cli\<lparr>cl_target := (cl_target demo_cli)\<lparr>tg_txt := [''cn'' \<mapsto> ''0,1'', ''et'' \<mapsto> ''0'']\<rparr>\<rparr>"
  have "enumerates [''et'', ''cn''] (tg_txt (cl_target ?c))"
    by (auto simp: enumerates_def)
  from command_line_deterministic [OF this this, of "''/tmp/p''"]
  have "last (build_args [''et'', ''cn''] ''/tmp/p'' ?c) = tg_address (cl_target ?c)"
    by blast
  then show ?thesis
    by (simp add: demo_cli_def new_cli_def Let_def)
qed

subsection \<open>Closing\<close>

lemma cli_command_fields [simp]:
  "cl_context (fst (cli_command ok t c)) = cl_context c" "cl_source (fst (cli_command ok t c)) = cl_source c"
  "cl_base (fst (cli_command ok t c)) = cl_base c" "cl_cmd (fst (cli_command ok t c)) = cl_cmd c"
  "cl_target (fst (cli_command ok t c)) = cl_target c"
  by (auto simp: cli_command_def split: option.split prod.split)

lemma cli_close_state [simp]: "sb_state (cl_base (cli_close now ok c)) = Stopped"
  by (simp add: cli_close_def)

lemma cli_close_releases:
  assumes "\<forall>r. cl_source c = Some r \<longrightarrow> reader_inv r"
  shows "cli_released (cli_close now ok c)"
  using assms closed_switchable_empty by (auto simp: cli_released_def cli_close_def)

text \<open>A close is final: the end of the process that follows does not turn it into an error.\<close>

lemma cli_close_then_exit:
  assumes "cl_context c = Some False"
  shows "sb_state (cl_base (cli_watch later err (cli_close now ok c))) = Stopped"
    and "sb_err (cl_base (cli_watch later err (cli_close now ok c))) = sb_err (cl_base c)"
  using assms by (simp_all add: cli_watch_def cli_close_def)

end
