(* ===== verification/Kernel.thy ===== *)
theory Kernel
  imports Native Cli
begin

text \<open>
  The two kernels behind the interface \<open>Engine\<close> of internal/engine/types.go, and the contract that
  the session manager relies on.  The locale \<open>kernel_contract\<close> states it; both kernels and their sum
  interpret it.
\<close>

subsection \<open>The interface\<close>

text \<open>What an operation meets: the clock, the decoder, the receiver's replies, the command pipe.\<close>

record kernel_io =
  ki_now :: time
  ki_unix_ms :: int
  ki_spawn :: spawner
  ki_rtsp :: rtsp_io
  ki_pipe :: bool

datatype kernel = Native_Kernel native | Cli_Kernel cli

fun engine_kind :: "kernel \<Rightarrow> string" where
  "engine_kind (Native_Kernel n) = native_kind"
| "engine_kind (Cli_Kernel c) = cli_kind"

fun kernel_control :: "kernel_io \<Rightarrow> string \<Rightarrow> int \<Rightarrow> kernel \<Rightarrow> kernel \<times> engine_error option" where
  "kernel_control io action pos (Native_Kernel n) =
     map_prod Native_Kernel id (native_control (ki_now io) (ki_spawn io) (ki_rtsp io) action pos n)"
| "kernel_control io action pos (Cli_Kernel c) =
     map_prod Cli_Kernel id (cli_control (ki_now io) (ki_unix_ms io) (ki_spawn io) (ki_pipe io) action pos c)"

fun kernel_set_volume :: "kernel_io \<Rightarrow> int \<Rightarrow> kernel \<Rightarrow> kernel \<times> engine_error option" where
  "kernel_set_volume io v (Native_Kernel n) = map_prod Native_Kernel id (native_set_volume (ki_rtsp io) v n)"
| "kernel_set_volume io v (Cli_Kernel c) = map_prod Cli_Kernel id (cli_set_volume (ki_pipe io) v c)"

fun kernel_status :: "time \<Rightarrow> kernel \<Rightarrow> engine_error status" where
  "kernel_status now (Native_Kernel n) = native_status now n"
| "kernel_status now (Cli_Kernel c) = cli_status now c"

fun kernel_close :: "kernel_io \<Rightarrow> kernel \<Rightarrow> kernel" where
  "kernel_close io (Native_Kernel n) = Native_Kernel (native_close (ki_now io) (ki_rtsp io) n)"
| "kernel_close io (Cli_Kernel c) = Cli_Kernel (cli_close (ki_now io) (ki_pipe io) c)"

text \<open>What Start meets, for either kernel.\<close>

record kernel_env =
  ke_native :: native_env
  ke_cli :: cli_env

fun kernel_start :: "kernel_env \<Rightarrow> play_request \<Rightarrow> kernel \<Rightarrow> kernel \<times> engine_error option" where
  "kernel_start env req (Native_Kernel n) = map_prod Native_Kernel id (native_start (ke_native env) req n)"
| "kernel_start env req (Cli_Kernel c) = map_prod Cli_Kernel id (cli_start (ke_cli env) req c)"

text \<open>The goroutines and the process of a kernel act on it between the calls.\<close>

datatype kernel_event =
    Ev_Progress time
  | Ev_Stream_End time rtsp_io "sender_error option"
  | Ev_Attach bool
  | Ev_Stdout time string
  | Ev_Stderr time string
  | Ev_Exit time "string option"

fun on_kernel_event :: "kernel_event \<Rightarrow> kernel \<Rightarrow> kernel" where
  "on_kernel_event (Ev_Progress t) (Native_Kernel n) = Native_Kernel (native_progress t n)"
| "on_kernel_event (Ev_Stream_End t io err) (Native_Kernel n) = Native_Kernel (native_stream_end t io err n)"
| "on_kernel_event (Ev_Attach b) (Cli_Kernel c) = Cli_Kernel (cli_attach b c)"
| "on_kernel_event (Ev_Stdout t s) (Cli_Kernel c) = Cli_Kernel (cli_stdout_chunk t s c)"
| "on_kernel_event (Ev_Stderr t s) (Cli_Kernel c) = Cli_Kernel (cli_stderr_chunk t s c)"
| "on_kernel_event (Ev_Exit t err) (Cli_Kernel c) = Cli_Kernel (cli_watch t err c)"
| "on_kernel_event _ k = k"

subsection \<open>The contract\<close>

definition control_actions :: "string set" where
  "control_actions = {action_pause, action_resume, action_stop, action_seek}"

locale kernel_contract =
  fixes control :: "kernel_io \<Rightarrow> string \<Rightarrow> int \<Rightarrow> 'k \<Rightarrow> 'k \<times> engine_error option"
    and set_vol :: "kernel_io \<Rightarrow> int \<Rightarrow> 'k \<Rightarrow> 'k \<times> engine_error option"
    and stat :: "time \<Rightarrow> 'k \<Rightarrow> engine_error status"
    and close :: "kernel_io \<Rightarrow> 'k \<Rightarrow> 'k"
    and ok :: "'k \<Rightarrow> bool"
    and released :: "'k \<Rightarrow> bool"
  assumes close_inactive: "\<not> st_active (stat t (close io k))"
    and close_released: "ok k \<Longrightarrow> released (close io k)"
    and close_ok: "ok k \<Longrightarrow> ok (close io k)"
    and control_ok: "ok k \<Longrightarrow> ok (fst (control io a p k))"
    and volume_ok: "ok k \<Longrightarrow> ok (fst (set_vol io v k))"
    and volume_kept: "st_volume (stat t (fst (set_vol io v k))) = clamp_percent v"
    and control_keeps_volume: "st_volume (stat t (fst (control io a p k))) = st_volume (stat t k)"
    and unknown_action: "a \<notin> control_actions \<Longrightarrow> fst (control io a p k) = k \<and> snd (control io a p k) \<noteq> None"
begin

lemma close_all: "\<forall>k \<in> set ks. ok k \<Longrightarrow> \<forall>k \<in> set (map (close io) ks). released k \<and> (\<forall>t. \<not> st_active (stat t k))"
  by (simp add: close_inactive close_released)

lemma volume_survives_control: "st_volume (stat t (fst (control io a p (fst (set_vol io' v k))))) = clamp_percent v"
  by (simp add: control_keeps_volume volume_kept)

lemma unknown_then_close: "a \<notin> control_actions \<Longrightarrow> close io' (fst (control io a p k)) = close io' k"
  by (simp add: unknown_action)

end

subsection \<open>The native kernel\<close>

definition source_ok :: "switchable option \<Rightarrow> bool" where
  "source_ok src \<longleftrightarrow> (\<forall>r. src = Some r \<longrightarrow> reader_inv r)"

lemma source_ok_simps [simp]:
  "source_ok None" "source_ok (Some r) \<longleftrightarrow> reader_inv r"
  by (simp_all add: source_ok_def)

lemma reader_ops [simp]:
  "reader_inv r \<Longrightarrow> reader_inv (swap_source r s)" "reader_inv r \<Longrightarrow> reader_inv (switchable_close r)"
  using reader.step_inv [of r "Swap_Source s"] reader.step_inv [of r Close_Reader] by simp_all

lemma source_ok_close [simp]: "source_ok src \<Longrightarrow> source_ok (map_option switchable_close src)"
  by (cases src) simp_all

definition native_ok :: "native \<Rightarrow> bool" where
  "native_ok n \<longleftrightarrow> source_ok (nt_source n) \<and> (\<forall>s. nt_sender n = Some s \<longrightarrow> wires s \<noteq> (True, True))"

lemma native_okI:
  "source_ok (nt_source n) \<Longrightarrow> (\<And>s. nt_sender n = Some s \<Longrightarrow> wires s \<noteq> (True, True)) \<Longrightarrow> native_ok n"
  by (simp add: native_ok_def)

lemma wires_after_close: "wires s \<noteq> (True, True) \<Longrightarrow> wires (sender_close io s) \<noteq> (True, True)"
  by (simp add: wires_closed)

lemma native_ok_close: "native_ok n \<Longrightarrow> native_ok (native_close now io n)"
  by (auto simp: native_ok_def native_close_def wires_after_close)

lemma native_ok_end: "native_ok n \<Longrightarrow> native_ok (native_stream_end now io err n)"
  by (auto simp: native_ok_def native_stream_end_def wires_after_close Let_def split: option.split)

lemma native_ok_progress: "native_ok n \<Longrightarrow> native_ok (native_progress now n)"
  by (simp add: native_ok_def native_progress_def)

lemma native_ok_seek: "native_ok n \<Longrightarrow> native_ok (fst (native_seek now spawn p n))"
  by (auto simp: native_ok_def native_seek_def Let_def split: option.split)

lemma native_ok_control: "native_ok n \<Longrightarrow> native_ok (fst (native_control now spawn io a p n))"
  using native_ok_seek [of n now spawn p] native_ok_close [of n now io]
  by (auto simp: native_control_def split: option.split) (auto simp: native_ok_def)

lemma native_ok_volume: "native_ok n \<Longrightarrow> native_ok (fst (native_set_volume io v n))"
proof -
  assume ok: "native_ok n"
  show ?thesis
  proof (cases "nt_sender n")
    case None
    with ok show ?thesis
      by (simp add: native_ok_def native_set_volume_def Let_def)
  next
    case (Some s)
    obtain e s' where s': "set_volume io (clamp_percent v) s = (e, s')"
      by fastforce
    then have "wires s' = wires s"
      using wires_ops(5) [of io "clamp_percent v" s] by simp
    with ok Some s' show ?thesis
      by (simp add: native_ok_def native_set_volume_def Let_def)
  qed
qed

lemma native_closed_released: "native_ok n \<Longrightarrow> native_released (native_close now io n)"
  by (auto simp: native_ok_def native_released_def native_close_def source_ok_def closed_switchable_empty wires_closed)

lemma native_status_base:
  "st_active (native_status t n) = st_active (snapshot t (nt_base n))"
  "st_volume (native_status t n) = req_volume (sb_request (nt_base n))"
  by (simp_all add: native_status_def Let_def split: option.split sender_state.split)

lemma reset_position_request [simp]: "req_volume (sb_request (reset_position now p s)) = req_volume (sb_request s)"
  by (simp add: reset_position_def Let_def)

lemma native_control_volume:
  "req_volume (sb_request (nt_base (fst (native_control now spawn io a p n)))) = req_volume (sb_request (nt_base n))"
  by (simp add: native_control_def native_close_def native_seek_def Let_def split: option.split)

interpretation native_kernel: kernel_contract
  "\<lambda>io. native_control (ki_now io) (ki_spawn io) (ki_rtsp io)" "\<lambda>io. native_set_volume (ki_rtsp io)" native_status
  "\<lambda>io. native_close (ki_now io) (ki_rtsp io)" native_ok native_released
proof unfold_locales
  fix t io k
  show "\<not> st_active (native_status t (native_close (ki_now io) (ki_rtsp io) k))"
    by (simp add: native_status_base native_close_def)
next
  fix t io v k
  show "st_volume (native_status t (fst (native_set_volume (ki_rtsp io) v k))) = clamp_percent v"
    by (simp add: native_status_base native_set_volume_def Let_def split: option.split prod.split)
next
  fix t io a p k
  show "st_volume (native_status t (fst (native_control (ki_now io) (ki_spawn io) (ki_rtsp io) a p k)))
      = st_volume (native_status t k)"
    by (simp add: native_status_base native_control_volume)
next
  fix a io p k
  assume "a \<notin> control_actions"
  then show "fst (native_control (ki_now io) (ki_spawn io) (ki_rtsp io) a p k) = k
      \<and> snd (native_control (ki_now io) (ki_spawn io) (ki_rtsp io) a p k) \<noteq> None"
    by (simp add: native_control_def control_actions_def)
qed (fact native_closed_released native_ok_close native_ok_control native_ok_volume)+

subsection \<open>The external kernel\<close>

definition cli_ok :: "cli \<Rightarrow> bool" where
  "cli_ok c \<longleftrightarrow> source_ok (cl_source c)"

lemma cli_command_fst:
  "cli_command ok t c = (c', e) \<Longrightarrow> cl_source c' = cl_source c \<and> cl_base c' = cl_base c \<and> cl_cmd c' = cl_cmd c"
  using cli_command_fields [of ok t c] by simp

lemma cli_seek_effect:
  assumes "cli_seek now ms spawn ok p c = (c', e)"
  shows "(cl_source c' = cl_source c \<or> (\<exists>r src. cl_source c = Some r \<and> cl_source c' = Some (swap_source r src)))
       \<and> req_volume (sb_request (cl_base c')) = req_volume (sb_request (cl_base c))"
  using assms
  by (auto simp: cli_seek_def Let_def split: option.splits prod.splits if_splits dest!: cli_command_fst)

lemma cli_ok_control: "cli_ok c \<Longrightarrow> cli_ok (fst (cli_control now ms spawn ok a p c))"
proof -
  assume c: "cli_ok c"
  have seek: "cli_ok (fst (cli_seek now ms spawn ok p c))"
    using c cli_seek_effect [of now ms spawn ok p c] by (cases "cli_seek now ms spawn ok p c") (fastforce simp: cli_ok_def)
  show ?thesis
    using c seek by (auto simp: cli_control_def cli_ok_def cli_close_def split: prod.split option.split dest!: cli_command_fst)
qed

lemma cli_control_volume:
  "req_volume (sb_request (cl_base (fst (cli_control now ms spawn ok a p c)))) = req_volume (sb_request (cl_base c))"
  using cli_seek_effect [of now ms spawn ok p c]
  by (cases "cli_seek now ms spawn ok p c")
     (auto simp: cli_control_def cli_close_def split: prod.split option.split dest!: cli_command_fst)

interpretation cli_kernel: kernel_contract
  "\<lambda>io. cli_control (ki_now io) (ki_unix_ms io) (ki_spawn io) (ki_pipe io)" "\<lambda>io. cli_set_volume (ki_pipe io)" cli_status
  "\<lambda>io. cli_close (ki_now io) (ki_pipe io)" cli_ok cli_released
proof unfold_locales
  fix t io k
  show "\<not> st_active (cli_status t (cli_close (ki_now io) (ki_pipe io) k))"
    by (simp add: cli_status_def)
next
  fix io k
  show "cli_ok k \<Longrightarrow> cli_released (cli_close (ki_now io) (ki_pipe io) k)"
    by (rule cli_close_releases) (simp add: cli_ok_def source_ok_def)
  show "cli_ok k \<Longrightarrow> cli_ok (cli_close (ki_now io) (ki_pipe io) k)"
    by (simp add: cli_ok_def cli_close_def)
next
  fix io v k
  show "cli_ok k \<Longrightarrow> cli_ok (fst (cli_set_volume (ki_pipe io) v k))"
    by (simp add: cli_ok_def cli_set_volume_def Let_def)
next
  fix t io v k
  show "st_volume (cli_status t (fst (cli_set_volume (ki_pipe io) v k))) = clamp_percent v"
    by (simp add: cli_status_def cli_set_volume_def Let_def)
next
  fix t io a p k
  show "st_volume (cli_status t (fst (cli_control (ki_now io) (ki_unix_ms io) (ki_spawn io) (ki_pipe io) a p k)))
      = st_volume (cli_status t k)"
    by (simp add: cli_status_def cli_control_volume)
next
  fix a io p k
  assume "a \<notin> control_actions"
  then show "fst (cli_control (ki_now io) (ki_unix_ms io) (ki_spawn io) (ki_pipe io) a p k) = k
      \<and> snd (cli_control (ki_now io) (ki_unix_ms io) (ki_spawn io) (ki_pipe io) a p k) \<noteq> None"
    by (simp add: cli_control_def control_actions_def)
qed (fact cli_ok_control)

subsection \<open>Both\<close>

fun kernel_ok :: "kernel \<Rightarrow> bool" where
  "kernel_ok (Native_Kernel n) = native_ok n"
| "kernel_ok (Cli_Kernel c) = cli_ok c"

fun kernel_released :: "kernel \<Rightarrow> bool" where
  "kernel_released (Native_Kernel n) = native_released n"
| "kernel_released (Cli_Kernel c) = cli_released c"

interpretation kernel: kernel_contract kernel_control kernel_set_volume kernel_status kernel_close kernel_ok kernel_released
proof unfold_locales
  fix t io k
  show "\<not> st_active (kernel_status t (kernel_close io k))"
    by (cases k) (simp_all add: native_kernel.close_inactive cli_kernel.close_inactive)
next
  fix io k
  show "kernel_ok k \<Longrightarrow> kernel_released (kernel_close io k)"
    by (cases k) (simp_all add: native_kernel.close_released cli_kernel.close_released)
  show "kernel_ok k \<Longrightarrow> kernel_ok (kernel_close io k)"
    by (cases k) (simp_all add: native_kernel.close_ok cli_kernel.close_ok)
next
  fix io a p k
  show "kernel_ok k \<Longrightarrow> kernel_ok (fst (kernel_control io a p k))"
    by (cases k) (simp_all add: native_kernel.control_ok cli_kernel.control_ok)
next
  fix io v k
  show "kernel_ok k \<Longrightarrow> kernel_ok (fst (kernel_set_volume io v k))"
    by (cases k) (simp_all add: native_kernel.volume_ok cli_kernel.volume_ok)
next
  fix t io v k
  show "st_volume (kernel_status t (fst (kernel_set_volume io v k))) = clamp_percent v"
    by (cases k) (simp_all add: native_kernel.volume_kept cli_kernel.volume_kept)
next
  fix t io a p k
  show "st_volume (kernel_status t (fst (kernel_control io a p k))) = st_volume (kernel_status t k)"
    by (cases k) (simp_all add: native_kernel.control_keeps_volume cli_kernel.control_keeps_volume)
next
  fix a io p k
  assume "a \<notin> control_actions"
  then show "fst (kernel_control io a p k) = k \<and> snd (kernel_control io a p k) \<noteq> None"
    by (cases k) (simp_all add: native_kernel.unknown_action cli_kernel.unknown_action)
qed

lemma cli_handle_ok: "cl_source (fold (handle_status_line now) ss c) = cl_source c"
proof (induction ss arbitrary: c)
  case (Cons s ss)
  have "cl_source (handle_status_line now s c) = cl_source c"
    unfolding handle_status_line_def by (simp split: list.split)
  with Cons show ?case
    by simp
qed simp

lemma kernel_event_ok: "kernel_ok k \<Longrightarrow> kernel_ok (on_kernel_event e k)"
  by (cases e; cases k)
     (auto simp: native_ok_progress native_ok_end cli_ok_def cli_attach_def cli_stdout_chunk_def cli_stderr_chunk_def
        cli_watch_def cli_handle_ok split: option.split prod.split)

text \<open>A fresh kernel that was started keeps the contract's invariant.\<close>

lemma native_start_ok:
  assumes "native_start env req (new_native now0 t v opts) = (n, None)"
  shows "native_ok n"
proof -
  obtain s0 cfg src where s0: "dial cfg (nv_dial env) = Inr s0" "nt_source n = Some (new_switchable src)"
    "nt_sender n = Some (snd (record_request (nv_record_io env)
            (if req_volume (kept_request req) = 0 then s0
             else snd (set_volume (nv_volume_io env) (req_volume (kept_request req)) s0))))"
    using native_start_opened [OF assms refl] by blast
  then show ?thesis
    using dial_wires [OF s0(1)] by (auto simp: native_ok_def)
qed

lemma cli_start_ok:
  assumes "cli_start env req (new_cli now0 t v opts) = (c, None)"
  shows "cli_ok c"
proof -
  let ?c0 = "new_cli now0 t v opts"
  obtain src where "ce_available env" "ce_pipe env" "ce_process env"
    "start_decoder (ce_spawn env) (cli_decoder_options ?c0 (start_ms req)) (stream_url req) = Some src"
    using assms by (auto simp: cli_start_def Let_def decoder_options_other split: if_splits option.splits)
  from cli_start_success [OF this] assms have "c = on_cli_base (set_state (ce_now env) Playing) (initial_commands env req (launched req src ?c0))"
    by simp
  moreover have "cl_source (initial_commands env req d) = cl_source d" for d
    by (auto simp: initial_commands_def send_metadata_def cli_attach_def split: prod.split)
  ultimately show ?thesis
    by (simp add: cli_ok_def launched_def)
qed

end
