(* ===== verification/Manager.thy ===== *)
theory Manager
  imports Kernel
begin

text \<open>
  The session manager, internal/engine/manager.go: the table of live sessions by device, the choice
  of the kernel, and the registry whose busy flags it keeps.  The mutex makes the operations on the
  table atomic; Start holds it twice, with the kernel's own start between, and appears as these three
  phases and their composition.  \<open>ord\<close> is the order in which Go ranges over the sessions, \<open>rord\<close> the
  one over the registry.
\<close>

subsection \<open>State\<close>

record manager_config =
  mc_engine :: string
  mc_cli_path :: string
  mc_ffmpeg :: string
  mc_rate :: int
  mc_channels :: int
  mc_depth :: int
  mc_latency :: int
  mc_iface :: string
  mc_publish :: string
  mc_protocol :: string
  mc_default_volume :: int
  mc_headers :: "(string \<times> string) list"

record managed_session =
  ms_engine :: kernel
  ms_target :: target
  ms_started :: time

record manager =
  mg_registry :: "registry option"
  mg_config :: manager_config
  mg_sessions :: "string \<rightharpoonup> managed_session"
  mg_resolved :: string

definition new_manager :: "registry option \<Rightarrow> manager_config \<Rightarrow> manager" where
  "new_manager reg cfg = \<lparr>mg_registry = reg, mg_config = cfg, mg_sessions = Map.empty, mg_resolved = []\<rparr>"

definition mg_busy :: "string list \<Rightarrow> string \<Rightarrow> bool \<Rightarrow> manager \<Rightarrow> manager" where
  "mg_busy rord ident busy m = m\<lparr>mg_registry := map_option (\<lambda>r. set_busy rord r ident busy) (mg_registry m)\<rparr>"

subsection \<open>The kernel\<close>

text \<open>\<open>probe\<close> says whether the external kernel can be run from a path (\<open>Available\<close>).\<close>

definition resolve_kind :: "(string \<Rightarrow> bool) \<Rightarrow> manager \<Rightarrow> string \<times> manager" where
  "resolve_kind probe m =
     (if mg_resolved m \<noteq> [] then (mg_resolved m, m)
      else (let kind = (if mc_engine (mg_config m) = ''cliairplay'' then ''cliairplay''
                        else if mc_engine (mg_config m) = ''native'' then ''native''
                        else if probe (mc_cli_path (mg_config m)) then ''cliairplay'' else ''native'')
            in (kind, m\<lparr>mg_resolved := kind\<rparr>)))"

definition engine_name :: "(string \<Rightarrow> bool) \<Rightarrow> manager \<Rightarrow> string \<times> manager" where
  "engine_name probe m = resolve_kind probe m"

definition new_kernel :: "time \<Rightarrow> manager_config \<Rightarrow> string \<Rightarrow> target \<Rightarrow> int \<Rightarrow> kernel" where
  "new_kernel now cfg kind t volume =
     (if kind = ''cliairplay''
      then Cli_Kernel (new_cli now t volume
             \<lparr>co_binary = mc_cli_path cfg, co_ffmpeg = mc_ffmpeg cfg, co_rate = mc_rate cfg,
              co_channels = mc_channels cfg, co_depth = mc_depth cfg, co_latency = mc_latency cfg,
              co_iface = mc_iface cfg, co_protocol = mc_protocol cfg, co_publish = mc_publish cfg,
              co_headers = mc_headers cfg\<rparr>)
      else Native_Kernel (new_native now t volume
             \<lparr>nv_ffmpeg = mc_ffmpeg cfg, nv_rate = mc_rate cfg, nv_channels = mc_channels cfg,
              nv_iface = mc_iface cfg, nv_headers = mc_headers cfg\<rparr>))"

subsection \<open>Starting\<close>

definition resolve_target :: "string list \<Rightarrow> string \<Rightarrow> manager \<Rightarrow> engine_error + target" where
  "resolve_target rord device_id m =
     (case mg_registry m of
        None \<Rightarrow> Inl Registry_Unavailable
      | Some r \<Rightarrow>
          (case registry_get rord r device_id of
             None \<Rightarrow> Inl (Device_Not_Found device_id)
           | Some d \<Rightarrow> Inr (target_from_device d)))"

text \<open>The first critical section: refuse a device with a live session, drop one that has ended.\<close>

definition start_check :: "time \<Rightarrow> (string \<Rightarrow> bool) \<Rightarrow> target \<Rightarrow> manager \<Rightarrow> (engine_error + string) \<times> manager" where
  "start_check now probe t m =
     (let proceed = (\<lambda>m. case resolve_kind probe m of (kind, m) \<Rightarrow> (Inr kind, m))
      in case mg_sessions m (tg_id t) of
           Some s \<Rightarrow>
             if st_state (kernel_status now (ms_engine s)) \<in> {Playing, Buffering, Paused}
             then (Inl (Already_Active (tg_name t)), m)
             else proceed (m\<lparr>mg_sessions := (mg_sessions m)(tg_id t := None)\<rparr>)
         | None \<Rightarrow> proceed m)"

definition resolve_volume :: "manager_config \<Rightarrow> play_request \<Rightarrow> play_request" where
  "resolve_volume cfg req0 =
     (let req = (if req_volume req0 < 0 then req0\<lparr>req_volume := mc_default_volume cfg\<rparr> else req0)
      in if req_volume req > 100 then req\<lparr>req_volume := 100\<rparr> else req)"

text \<open>Between the critical sections: a new kernel, started, or closed again when that fails.\<close>

definition start_kernel ::
  "kernel_io \<Rightarrow> kernel_env \<Rightarrow> manager_config \<Rightarrow> string \<Rightarrow> target \<Rightarrow> play_request
   \<Rightarrow> (engine_error \<times> kernel) + kernel" where
  "start_kernel io env cfg kind t req0 =
     (let req = resolve_volume cfg req0
      in case kernel_start env req (new_kernel (ki_now io) cfg kind t (req_volume req)) of
           (k, Some e) \<Rightarrow> Inl (e, kernel_close io k)
         | (k, None) \<Rightarrow> Inr k)"

definition start_commit :: "string list \<Rightarrow> time \<Rightarrow> target \<Rightarrow> kernel \<Rightarrow> manager \<Rightarrow> manager" where
  "start_commit rord now t k m =
     mg_busy rord (tg_id t) True
       (m\<lparr>mg_sessions := (mg_sessions m)(tg_id t \<mapsto> \<lparr>ms_engine = k, ms_target = t, ms_started = now\<rparr>)\<rparr>)"

definition manager_start ::
  "kernel_io \<Rightarrow> kernel_env \<Rightarrow> (string \<Rightarrow> bool) \<Rightarrow> string list \<Rightarrow> string \<Rightarrow> play_request \<Rightarrow> manager
   \<Rightarrow> (engine_error + engine_error status) \<times> manager" where
  "manager_start io env probe rord device_id req m =
     (case resolve_target rord device_id m of
        Inl e \<Rightarrow> (Inl e, m)
      | Inr t \<Rightarrow>
          (case start_check (ki_now io) probe t m of
             (Inl e, m) \<Rightarrow> (Inl e, m)
           | (Inr kind, m) \<Rightarrow>
               (case start_kernel io env (mg_config m) kind t req of
                  Inl (e, _) \<Rightarrow> (Inl e, m)
                | Inr k \<Rightarrow> (Inr (kernel_status (ki_now io) k), start_commit rord (ki_now io) t k m))))"

subsection \<open>Finding a session\<close>

text \<open>\<open>normalizeID\<close>, on the bytes of valid UTF-8: the separators are dropped, ASCII is lower case.\<close>

definition normalize_id :: "string \<Rightarrow> string" where
  "normalize_id v = map lower_char (filter (\<lambda>c. c \<notin> {CHR '':'', CHR ''-'', CHR '' '', CHR ''.''}) v)"

definition session_matches :: "string \<Rightarrow> string \<Rightarrow> managed_session \<Rightarrow> bool" where
  "session_matches device_id key s \<longleftrightarrow>
     normalize_id key = normalize_id device_id \<or> normalize_id (tg_name (ms_target s)) = normalize_id device_id
     \<or> tg_address (ms_target s) = device_id"

fun newest :: "(string \<rightharpoonup> managed_session) \<Rightarrow> string list \<Rightarrow> string option \<Rightarrow> string option" where
  "newest sess [] best = best"
| "newest sess (k # ks) best =
     (case (sess k, best) of
        (None, _) \<Rightarrow> newest sess ks best
      | (Some s, None) \<Rightarrow> newest sess ks (Some k)
      | (Some s, Some b) \<Rightarrow>
          newest sess ks (if ms_started s > ms_started (the (sess b)) then Some k else Some b))"

text \<open>The key of the session that \<open>session\<close>, Status and ActiveDeviceID select.\<close>

definition find_session :: "string list \<Rightarrow> string \<Rightarrow> manager \<Rightarrow> string option" where
  "find_session ord device_id m =
     (if device_id = [] then newest (mg_sessions m) ord None
      else if mg_sessions m device_id \<noteq> None then Some device_id
      else find_key (session_matches device_id) ord (mg_sessions m))"

definition session_of :: "string list \<Rightarrow> string \<Rightarrow> manager \<Rightarrow> engine_error + string \<times> managed_session" where
  "session_of ord device_id m =
     (case find_session ord device_id m of
        None \<Rightarrow> Inl (if ord = [] then No_Session else No_Session_For device_id)
      | Some k \<Rightarrow> Inr (k, the (mg_sessions m k)))"

definition manager_status :: "time \<Rightarrow> string list \<Rightarrow> string \<Rightarrow> manager \<Rightarrow> engine_error status option" where
  "manager_status now ord device_id m =
     map_option (\<lambda>k. kernel_status now (ms_engine (the (mg_sessions m k)))) (find_session ord device_id m)"

definition active_device_id :: "string list \<Rightarrow> manager \<Rightarrow> string" where
  "active_device_id ord m =
     (case newest (mg_sessions m) ord None of
        None \<Rightarrow> [] | Some k \<Rightarrow> tg_id (ms_target (the (mg_sessions m k))))"

definition session_engine :: "string \<Rightarrow> manager \<Rightarrow> string" where
  "session_engine device_id m =
     (case mg_sessions m device_id of None \<Rightarrow> [] | Some s \<Rightarrow> engine_kind (ms_engine s))"

subsection \<open>Controlling a session\<close>

definition update_engine :: "string \<Rightarrow> kernel \<Rightarrow> manager \<Rightarrow> manager" where
  "update_engine key k m =
     m\<lparr>mg_sessions := (mg_sessions m)(key := map_option (\<lambda>s. s\<lparr>ms_engine := k\<rparr>) (mg_sessions m key))\<rparr>"

definition forget :: "string list \<Rightarrow> string \<Rightarrow> manager \<Rightarrow> manager" where
  "forget rord device_id m =
     (if mg_sessions m device_id = None then m
      else mg_busy rord device_id False (m\<lparr>mg_sessions := (mg_sessions m)(device_id := None)\<rparr>))"

definition manager_control ::
  "kernel_io \<Rightarrow> string list \<Rightarrow> string list \<Rightarrow> string \<Rightarrow> string \<Rightarrow> int \<Rightarrow> manager
   \<Rightarrow> (engine_error + engine_error status) \<times> manager" where
  "manager_control io rord ord device_id action pos m =
     (case session_of ord device_id m of
        Inl e \<Rightarrow> (Inl e, m)
      | Inr (key, s) \<Rightarrow>
          (case kernel_control io action pos (ms_engine s) of
             (k, Some e) \<Rightarrow> (Inl e, update_engine key k m)
           | (k, None) \<Rightarrow>
               (Inr (kernel_status (ki_now io) k),
                if action = action_stop then forget rord (tg_id (ms_target s)) (update_engine key k m)
                else update_engine key k m)))"

definition manager_set_volume ::
  "kernel_io \<Rightarrow> string list \<Rightarrow> string \<Rightarrow> int \<Rightarrow> manager \<Rightarrow> (engine_error + engine_error status) \<times> manager" where
  "manager_set_volume io ord device_id volume m =
     (case session_of ord device_id m of
        Inl e \<Rightarrow> (Inl e, m)
      | Inr (key, s) \<Rightarrow>
          (case kernel_set_volume io volume (ms_engine s) of
             (k, Some e) \<Rightarrow> (Inl e, update_engine key k m)
           | (k, None) \<Rightarrow> (Inr (kernel_status (ki_now io) k), update_engine key k m)))"

subsection \<open>Finished sessions\<close>

definition terminal :: "time \<Rightarrow> managed_session \<Rightarrow> bool" where
  "terminal now s \<longleftrightarrow> st_state (kernel_status now (ms_engine s)) \<in> {Stopped, Failed}"

definition prune_one :: "time \<Rightarrow> (string \<Rightarrow> string list) \<Rightarrow> string \<Rightarrow> manager \<Rightarrow> manager" where
  "prune_one now rord key m =
     (case mg_sessions m key of
        None \<Rightarrow> m
      | Some s \<Rightarrow>
          if terminal now s
          then mg_busy (rord key) key False (m\<lparr>mg_sessions := (mg_sessions m)(key := None)\<rparr>)
          else m)"

definition prune :: "time \<Rightarrow> (string \<Rightarrow> string list) \<Rightarrow> string list \<Rightarrow> manager \<Rightarrow> manager" where
  "prune now rord ord m = fold (prune_one now rord) ord m"

text \<open>The kernels that a prune closes.\<close>

definition pruned_kernels :: "kernel_io \<Rightarrow> string list \<Rightarrow> manager \<Rightarrow> kernel list" where
  "pruned_kernels io ord m =
     map (\<lambda>s. kernel_close io (ms_engine s)) (filter (terminal (ki_now io)) (List.map_filter (mg_sessions m) ord))"

definition active_sessions :: "time \<Rightarrow> (string \<Rightarrow> string list) \<Rightarrow> string list \<Rightarrow> manager \<Rightarrow> nat \<times> manager" where
  "active_sessions now rord ord m = (let m = prune now rord ord m in (length (List.map_filter (mg_sessions m) ord), m))"

definition reap_interval :: "duration \<Rightarrow> duration" where
  "reap_interval interval = (if interval \<le> 0 then 10 * second else interval)"

text \<open>Shutdown: the table is emptied first, then every session closed and its device released.\<close>

definition shutdown :: "kernel_io \<Rightarrow> (string \<Rightarrow> string list) \<Rightarrow> string list \<Rightarrow> manager \<Rightarrow> manager \<times> kernel list" where
  "shutdown io rord ord m =
     (let sessions = List.map_filter (mg_sessions m) ord
      in (fold (\<lambda>s. mg_busy (rord (tg_id (ms_target s))) (tg_id (ms_target s)) False) sessions
            (m\<lparr>mg_sessions := Map.empty\<rparr>),
          map (\<lambda>s. kernel_close io (ms_engine s)) sessions))"

definition targets :: "string list \<Rightarrow> manager \<Rightarrow> target list" where
  "targets rord m =
     (case mg_registry m of
        None \<Rightarrow> []
      | Some r \<Rightarrow> sort_key tg_name (map target_from_device (registry_list rord r)))"

subsection \<open>The table\<close>

definition manager_inv :: "manager \<Rightarrow> bool" where
  "manager_inv m \<longleftrightarrow>
     finite (dom (mg_sessions m))
     \<and> (\<forall>k s. mg_sessions m k = Some s \<longrightarrow> tg_id (ms_target s) = k \<and> kernel_ok (ms_engine s))"

lemma mg_busy_other [simp]: "mg_sessions (mg_busy rord i b m) = mg_sessions m" "mg_config (mg_busy rord i b m) = mg_config m"
  by (simp_all add: mg_busy_def)

lemma manager_inv_busy [simp]: "manager_inv (mg_busy rord i b m) = manager_inv m"
  by (simp add: manager_inv_def)

lemma manager_inv_drop: "manager_inv m \<Longrightarrow> manager_inv (m\<lparr>mg_sessions := (mg_sessions m)(k := None)\<rparr>)"
  by (auto simp: manager_inv_def)

lemma resolve_kind_other: "resolve_kind probe m = (kind, m') \<Longrightarrow> mg_sessions m' = mg_sessions m \<and> mg_config m' = mg_config m \<and> mg_registry m' = mg_registry m"
  by (auto simp: resolve_kind_def Let_def split: if_splits)

lemma start_check_cases:
  assumes "start_check now probe t m = (res, m')"
  obtains (refused) s where "mg_sessions m (tg_id t) = Some s"
      "st_state (kernel_status now (ms_engine s)) \<in> {Playing, Buffering, Paused}"
      "res = Inl (Already_Active (tg_name t))" "m' = m"
  | (go) kind where "res = Inr kind" "mg_sessions m' = (mg_sessions m)(tg_id t := None)" "mg_config m' = mg_config m"
      "mg_registry m' = mg_registry m"
      "\<forall>s. mg_sessions m (tg_id t) = Some s \<longrightarrow> st_state (kernel_status now (ms_engine s)) \<in> {Stopped, Failed}"
proof (cases "mg_sessions m (tg_id t)")
  case None
  obtain kind d where k: "resolve_kind probe m = (kind, d)"
    by fastforce
  have "(mg_sessions m)(tg_id t := None) = mg_sessions m"
    using None by auto
  moreover have "res = Inr kind" "m' = d"
    using None k assms by (simp_all add: start_check_def)
  ultimately show ?thesis
    using None resolve_kind_other [OF k] by (intro go [of kind]) simp_all
next
  case (Some s)
  show ?thesis
  proof (cases "st_state (kernel_status now (ms_engine s)) \<in> {Playing, Buffering, Paused}")
    case True
    with Some assms refused show ?thesis
      by (simp add: start_check_def)
  next
    case False
    then have st: "st_state (kernel_status now (ms_engine s)) \<in> {Stopped, Failed}"
      by (cases "st_state (kernel_status now (ms_engine s))") simp_all
    obtain kind d where k: "resolve_kind probe (m\<lparr>mg_sessions := (mg_sessions m)(tg_id t := None)\<rparr>) = (kind, d)"
      by fastforce
    have "start_check now probe t m = (Inr kind, d)"
      using Some False k by (simp add: start_check_def Let_def)
    then show ?thesis
      using Some st assms resolve_kind_other [OF k] by (intro go [of kind]) simp_all
  qed
qed

lemma start_kernel_ok:
  assumes "start_kernel io env cfg kind t req = Inr k"
  shows "kernel_ok k"
proof -
  let ?r = "resolve_volume cfg req"
  have k: "kernel_start env ?r (new_kernel (ki_now io) cfg kind t (req_volume ?r)) = (k, None)"
    using assms by (simp add: start_kernel_def Let_def split: prod.splits option.splits)
  show ?thesis
  proof (cases "kind = ''cliairplay''")
    case True
    with k obtain c where "k = Cli_Kernel c" and c: "cli_start (ke_cli env) ?r (new_cli (ki_now io) t (req_volume ?r)
         \<lparr>co_binary = mc_cli_path cfg, co_ffmpeg = mc_ffmpeg cfg, co_rate = mc_rate cfg,
              co_channels = mc_channels cfg, co_depth = mc_depth cfg, co_latency = mc_latency cfg,
              co_iface = mc_iface cfg, co_protocol = mc_protocol cfg, co_publish = mc_publish cfg,
              co_headers = mc_headers cfg\<rparr>) = (c, None)"
      by (auto simp: new_kernel_def map_prod_def split: prod.splits)
    with cli_start_ok [OF c] show ?thesis
      by simp
  next
    case False
    with k obtain n where "k = Native_Kernel n" and n: "native_start (ke_native env) ?r (new_native (ki_now io) t (req_volume ?r)
         \<lparr>nv_ffmpeg = mc_ffmpeg cfg, nv_rate = mc_rate cfg, nv_channels = mc_channels cfg,
              nv_iface = mc_iface cfg, nv_headers = mc_headers cfg\<rparr>) = (n, None)"
      by (auto simp: new_kernel_def map_prod_def split: prod.splits)
    with native_start_ok [OF n] show ?thesis
      by simp
  qed
qed

lemma newest_in: "newest sess ks best = Some k \<Longrightarrow> (k \<in> set ks \<and> sess k \<noteq> None) \<or> best = Some k"
proof (induction ks arbitrary: best)
  case (Cons a ks)
  show ?case
  proof (cases "sess a")
    case None
    with Cons show ?thesis by auto
  next
    case (Some s)
    show ?thesis
    proof (cases best)
      case None
      with Cons Some show ?thesis
        by fastforce
    next
      case (Some b)
      with Cons \<open>sess a = Some s\<close> show ?thesis
        by (auto split: if_splits)
    qed
  qed
qed simp

lemma find_session_in: "find_session ord i m = Some k \<Longrightarrow> mg_sessions m k \<noteq> None"
  using newest_in [of "mg_sessions m" ord None k] find_key_Some [of "session_matches i" ord "mg_sessions m" k]
  by (auto simp: find_session_def split: if_splits)

lemma session_of_in: "session_of ord i m = Inr (k, s) \<Longrightarrow> mg_sessions m k = Some s"
  using find_session_in [of ord i m k] by (auto simp: session_of_def split: option.splits)

lemma update_engine_inv:
  "manager_inv m \<Longrightarrow> (\<And>s. mg_sessions m key = Some s \<Longrightarrow> kernel_ok k) \<Longrightarrow> manager_inv (update_engine key k m)"
  by (auto simp: manager_inv_def update_engine_def)

lemma forget_inv: "manager_inv m \<Longrightarrow> manager_inv (forget rord i m)"
  by (simp add: forget_def manager_inv_drop)

lemma prune_one_sessions:
  "mg_sessions (prune_one now rord k m) =
     (case mg_sessions m k of Some s \<Rightarrow> if terminal now s then (mg_sessions m)(k := None) else mg_sessions m
      | None \<Rightarrow> mg_sessions m)"
  by (simp add: prune_one_def split: option.split)

lemma prune_sessions:
  "mg_sessions (prune now rord ord m) =
     (\<lambda>k. case mg_sessions m k of None \<Rightarrow> None
          | Some s \<Rightarrow> if k \<in> set ord \<and> terminal now s then None else Some s)"
proof (induction ord arbitrary: m)
  case Nil
  show ?case
    by (simp add: prune_def fun_eq_iff split: option.split)
next
  case (Cons a ord)
  have "prune now rord (a # ord) m = prune now rord ord (prune_one now rord a m)"
    by (simp add: prune_def)
  then show ?case
    by (auto simp: Cons.IH prune_one_sessions fun_eq_iff split: option.split)
qed

lemma prune_inv: "manager_inv m \<Longrightarrow> manager_inv (prune now rord ord m)"
proof -
  assume m: "manager_inv m"
  have "dom (mg_sessions (prune now rord ord m)) \<subseteq> dom (mg_sessions m)"
    by (auto simp: prune_sessions split: option.splits if_splits)
  then have "finite (dom (mg_sessions (prune now rord ord m)))"
    using m finite_subset by (auto simp: manager_inv_def)
  moreover have "mg_sessions m k = Some s" if "mg_sessions (prune now rord ord m) k = Some s" for k s
    using that by (auto simp: prune_sessions split: option.splits if_splits)
  ultimately show ?thesis
    using m by (auto simp: manager_inv_def)
qed

lemma fold_busy_sessions: "mg_sessions (fold (\<lambda>s. mg_busy (f s) (g s) b) ss m) = mg_sessions m"
  by (induction ss arbitrary: m) simp_all

lemma shutdown_sessions [simp]: "mg_sessions (fst (shutdown io rord ord m)) = Map.empty"
  by (simp add: shutdown_def Let_def fold_busy_sessions)

subsection \<open>Every history\<close>

datatype manager_op =
    M_Start kernel_io kernel_env "string \<Rightarrow> bool" "string list" string play_request
  | M_Control kernel_io "string list" "string list" string string int
  | M_Volume kernel_io "string list" string int
  | M_Prune time "string \<Rightarrow> string list" "string list"
  | M_Shutdown kernel_io "string \<Rightarrow> string list" "string list"
  | M_Kernel string kernel_event
  | M_Registry registry_op

text \<open>An event of the kernel that serves a session; an operation of discovery on the shared registry.\<close>

definition session_event :: "string \<Rightarrow> kernel_event \<Rightarrow> manager \<Rightarrow> manager" where
  "session_event key e m =
     (case mg_sessions m key of
        None \<Rightarrow> m
      | Some s \<Rightarrow> update_engine key (on_kernel_event e (ms_engine s)) m)"

fun manager_step :: "manager_op \<Rightarrow> manager \<Rightarrow> manager" where
  "manager_step (M_Start io env probe rord i req) m = snd (manager_start io env probe rord i req m)"
| "manager_step (M_Control io rord ord i action pos) m = snd (manager_control io rord ord i action pos m)"
| "manager_step (M_Volume io ord i v) m = snd (manager_set_volume io ord i v m)"
| "manager_step (M_Prune now rord ord) m = prune now rord ord m"
| "manager_step (M_Shutdown io rord ord) m = fst (shutdown io rord ord m)"
| "manager_step (M_Kernel key e) m = session_event key e m"
| "manager_step (M_Registry a) m = m\<lparr>mg_registry := map_option (registry_step a) (mg_registry m)\<rparr>"

lemma manager_start_inv:
  assumes "manager_inv m"
  shows "manager_inv (snd (manager_start io env probe rord i req m))"
proof (cases "resolve_target rord i m")
  case (Inl e)
  with assms show ?thesis
    by (simp add: manager_start_def)
next
  case (Inr t)
  obtain res m1 where c: "start_check (ki_now io) probe t m = (res, m1)"
    by fastforce
  have m1: "manager_inv m1"
    using c assms by (cases rule: start_check_cases) (auto simp: manager_inv_def)
  show ?thesis
  proof (cases res)
    case (Inl e)
    with m1 Inr c show ?thesis
      by (simp add: manager_start_def)
  next
    case (Inr kind)
    show ?thesis
    proof (cases "start_kernel io env (mg_config m1) kind t req")
      case (Inl x)
      with m1 Inr c \<open>resolve_target rord i m = Inr t\<close> show ?thesis
        by (cases x) (simp add: manager_start_def)
    next
      case (Inr k)
      have "manager_inv (start_commit rord (ki_now io) t k m1)"
        using m1 start_kernel_ok [OF Inr] by (auto simp: manager_inv_def start_commit_def)
      with Inr c \<open>res = Inr kind\<close> \<open>resolve_target rord i m = Inr t\<close> show ?thesis
        by (simp add: manager_start_def)
    qed
  qed
qed

lemma manager_control_inv:
  assumes "manager_inv m"
  shows "manager_inv (snd (manager_control io rord ord i action pos m))"
proof (cases "session_of ord i m")
  case (Inl e)
  with assms show ?thesis
    by (simp add: manager_control_def)
next
  case (Inr x)
  obtain key s where x: "x = (key, s)"
    by fastforce
  obtain k err where k: "kernel_control io action pos (ms_engine s) = (k, err)"
    by fastforce
  have s: "mg_sessions m key = Some s"
    using Inr x session_of_in by simp
  then have "kernel_ok k"
    using assms kernel.control_ok [of "ms_engine s" io action pos] k by (auto simp: manager_inv_def)
  then have "manager_inv (update_engine key k m)"
    using assms by (simp add: update_engine_inv)
  then show ?thesis
    using Inr x k by (cases err) (simp_all add: manager_control_def forget_inv)
qed

lemma manager_volume_inv:
  assumes "manager_inv m"
  shows "manager_inv (snd (manager_set_volume io ord i v m))"
proof (cases "session_of ord i m")
  case (Inl e)
  with assms show ?thesis
    by (simp add: manager_set_volume_def)
next
  case (Inr x)
  obtain key s where x: "x = (key, s)"
    by fastforce
  obtain k err where k: "kernel_set_volume io v (ms_engine s) = (k, err)"
    by fastforce
  have "mg_sessions m key = Some s"
    using Inr x session_of_in by simp
  then have "kernel_ok k"
    using assms kernel.volume_ok [of "ms_engine s" io v] k by (auto simp: manager_inv_def)
  then have "manager_inv (update_engine key k m)"
    using assms by (simp add: update_engine_inv)
  then show ?thesis
    using Inr x k by (cases err) (simp_all add: manager_set_volume_def)
qed

lemma session_event_inv: "manager_inv m \<Longrightarrow> manager_inv (session_event key e m)"
  by (auto simp: session_event_def manager_inv_def update_engine_def kernel_event_ok split: option.split)

interpretation manager: machine manager_step manager_inv
proof unfold_locales
  fix m a
  show "manager_inv m \<Longrightarrow> manager_inv (manager_step a m)"
    by (cases a)
       (simp_all add: manager_start_inv manager_control_inv manager_volume_inv prune_inv session_event_inv,
        simp_all add: manager_inv_def)
qed

lemma new_manager_inv [simp]: "manager_inv (new_manager reg cfg)"
  by (simp add: manager_inv_def new_manager_def)

lemma shutdown_kernels:
  "snd (shutdown io rord ord m) = map (\<lambda>s. kernel_close io (ms_engine s)) (List.map_filter (mg_sessions m) ord)"
  by (simp add: shutdown_def Let_def)

lemma closed_kernels:
  assumes "manager_inv m"
  shows "\<forall>k \<in> set (snd (shutdown io rord ord m)). kernel_released k \<and> (\<forall>t. \<not> st_active (kernel_status t k))"
proof -
  have "\<forall>k \<in> set (map ms_engine (List.map_filter (mg_sessions m) ord)). kernel_ok k"
    using assms by (auto simp: manager_inv_def in_map_filter)
  from kernel.close_all [OF this, of io] show ?thesis
    by (simp add: shutdown_kernels)
qed


text \<open>A manager with one known receiver and no session.\<close>

definition kitchen :: device where
  "kitchen =
     empty_device\<lparr>dev_id := ''k'', dev_name := ''Kitchen'', dev_address := ''10.0.0.9'', dev_port := 7000,
       dev_source := source_mdns, last_seen := 1\<rparr>"

definition kitchen_target :: target where
  "kitchen_target = target_from_device kitchen"

definition kitchen_config :: manager_config where
  "kitchen_config =
     \<lparr>mc_engine = ''native'', mc_cli_path = [], mc_ffmpeg = [], mc_rate = 44100, mc_channels = 2, mc_depth = 16,
      mc_latency = 600, mc_iface = [], mc_publish = [], mc_protocol = [], mc_default_volume = 60, mc_headers = []\<rparr>"

definition kitchen_manager :: manager where
  "kitchen_manager = new_manager (Some \<lparr>devices = [''k'' \<mapsto> kitchen], reg_ttl = 60\<rparr>) kitchen_config"

definition kitchen_session :: managed_session where
  "kitchen_session = \<lparr>ms_engine = Native_Kernel idle_native, ms_target = kitchen_target, ms_started = 5\<rparr>"

definition busy_manager :: manager where
  "busy_manager = kitchen_manager\<lparr>mg_sessions := [''k'' \<mapsto> kitchen_session]\<rparr>"

definition demo_io :: kernel_io where
  "demo_io = \<lparr>ki_now = 9, ki_unix_ms = 0, ki_spawn = (\<lambda>_. None), ki_rtsp = (False, True, []), ki_pipe = True\<rparr>"

definition demo_env :: kernel_env where
  "demo_env = \<lparr>ke_native = silent_env, ke_cli = cli_ready_env (False, False, False)\<rparr>"

lemma kitchen_resolves:
  "resolve_target [''k''] ''k'' kitchen_manager = Inr kitchen_target"
  "resolve_target [''k''] ''k'' busy_manager = Inr kitchen_target"
  "tg_id kitchen_target = ''k''"
  by (simp_all add: resolve_target_def busy_manager_def kitchen_manager_def new_manager_def registry_get_def
      kitchen_target_def target_from_device_def kitchen_def Let_def)

lemma kitchen_sessions [simp]:
  "mg_sessions kitchen_manager = Map.empty" "mg_sessions busy_manager = [''k'' \<mapsto> kitchen_session]"
  by (simp_all add: kitchen_manager_def busy_manager_def new_manager_def)

lemma kitchen_kind:
  "resolve_kind probe kitchen_manager = (''native'', kitchen_manager\<lparr>mg_resolved := ''native''\<rparr>)"
  "mg_config kitchen_manager = kitchen_config"
  by (simp_all add: resolve_kind_def kitchen_manager_def new_manager_def kitchen_config_def Let_def)


text \<open>
  A device that is streaming is left alone.  A start for a device whose session plays, buffers
  or is paused is refused with \<open>ErrAlreadyActive\<close>, and nothing changes: neither the table nor the
  session nor the registry.
\<close>

lemma active_session_protected:
  assumes "resolve_target rord device_id m = Inr t" "mg_sessions m (tg_id t) = Some s"
    and "st_state (kernel_status (ki_now io) (ms_engine s)) \<in> {Playing, Buffering, Paused}"
  shows "manager_start io env probe rord device_id req m = (Inl (Already_Active (tg_name t)), m)"
  using assms by (simp add: manager_start_def start_check_def)

lemma active_session_protected_witness:
  "manager_start demo_io demo_env (\<lambda>_. True) [''k''] ''k'' no_request busy_manager
     = (Inl (Already_Active ''Kitchen''), busy_manager)"
proof -
  have s: "mg_sessions busy_manager (tg_id kitchen_target) = Some kitchen_session"
    by (simp add: kitchen_resolves)
  have "st_state (kernel_status (ki_now demo_io) (ms_engine kitchen_session)) \<in> {Playing, Buffering, Paused}"
    by (simp add: kitchen_session_def native_status_def idle_native_def new_native_def new_session_base_def Let_def)
  moreover have "tg_name kitchen_target = ''Kitchen''"
    by (simp add: kitchen_target_def target_from_device_def kitchen_def Let_def)
  ultimately show ?thesis
    using active_session_protected [OF kitchen_resolves(2) s] by simp
qed

lemma native_fresh_failure_ok: "native_start env req (new_native now t v opts) = (n, Some e) \<Longrightarrow> native_ok n"
  using native_failure_released [of env req now t v opts n e]
  by (auto simp: native_ok_def native_released_def source_ok_def reader_inv_def)

lemma cli_fresh_failure_ok: "cli_start env req (new_cli now t v opts) = (c, Some e) \<Longrightarrow> cli_ok c"
  using cli_failure_released [of env req now t v opts c e]
  by (auto simp: cli_ok_def cli_released_def source_ok_def reader_inv_def)

lemma start_kernel_failure:
  assumes "start_kernel io env cfg kind t req = Inl (e, k)"
  shows "kernel_released k \<and> (\<forall>now. \<not> st_active (kernel_status now k))"
proof -
  let ?r = "resolve_volume cfg req"
  obtain k0 where k0: "kernel_start env ?r (new_kernel (ki_now io) cfg kind t (req_volume ?r)) = (k0, Some e)"
    "k = kernel_close io k0"
    using assms by (auto simp: start_kernel_def Let_def split: prod.splits option.splits)
  have "kernel_ok k0"
    using k0(1) native_fresh_failure_ok cli_fresh_failure_ok
    by (cases "kind = ''cliairplay''") (auto simp: new_kernel_def map_prod_def split: prod.splits)
  then show ?thesis
    by (simp add: k0(2) kernel.close_released kernel.close_inactive)
qed

text \<open>
  C33: A failed start creates no session and disturbs no other.  Whatever fails, a kernel that was
  created has been closed and holds nothing; every session of another device is as it was, and so
  is the registry: in particular a device whose finished session was dropped on the way stays
  marked busy.
\<close>

lemma failed_start_isolated:
  assumes "resolve_target rord device_id m = Inr t"
    and "manager_start io env probe rord device_id req m = (Inl e, m')"
  shows "mg_registry m' = mg_registry m
       \<and> (\<forall>k. k \<noteq> tg_id t \<longrightarrow> mg_sessions m' k = mg_sessions m k)
       \<and> (mg_sessions m' (tg_id t) \<in> {None, mg_sessions m (tg_id t)})
       \<and> (\<forall>kind k e'. start_kernel io env (mg_config m) kind t req = Inl (e', k) \<longrightarrow>
            kernel_released k \<and> (\<forall>now. \<not> st_active (kernel_status now k)))"
proof -
  obtain res m1 where c: "start_check (ki_now io) probe t m = (res, m1)"
    by fastforce
  have m': "m' = m1"
    using assms c by (auto simp: manager_start_def split: sum.splits prod.splits)
  from c show ?thesis
    using start_kernel_failure by (cases rule: start_check_cases) (auto simp: m')
qed

lemma failed_start_isolated_witness:
  "mg_registry (snd (manager_start demo_io demo_env (\<lambda>_. True) [''k''] ''k'' no_request kitchen_manager))
     = mg_registry kitchen_manager"
proof -
  have dec: "start_decoder spawn opts [] = None" for spawn opts
    by (rule start_decoder_blank) simp
  have acc: "accepts_pcm kitchen_target"
    by (simp add: kitchen_target_def target_from_device_def kitchen_def empty_device_def accepts_pcm_def
        target_codecs_def txt_get_def Let_def)
  have "\<exists>k. start_kernel demo_io demo_env kitchen_config ''native'' kitchen_target no_request = Inl (Decoder_Failed, k)"
    using acc by (simp add: start_kernel_def new_kernel_def new_native_def native_start_def dec kept_request_def
        resolve_volume_def no_request_def Let_def)
  then obtain k where k: "start_kernel demo_io demo_env kitchen_config ''native'' kitchen_target no_request
      = Inl (Decoder_Failed, k)"
    by blast
  have "fst (manager_start demo_io demo_env (\<lambda>_. True) [''k''] ''k'' no_request kitchen_manager) = Inl Decoder_Failed"
    using k by (simp add: manager_start_def kitchen_resolves start_check_def kitchen_kind)
  then have "manager_start demo_io demo_env (\<lambda>_. True) [''k''] ''k'' no_request kitchen_manager
      = (Inl Decoder_Failed, snd (manager_start demo_io demo_env (\<lambda>_. True) [''k''] ''k'' no_request kitchen_manager))"
    by (metis prod.collapse)
  from failed_start_isolated [OF kitchen_resolves(1) this] show ?thesis
    by blast
qed

lemma start_check_idle:
  assumes "mg_sessions m (tg_id t) = None" "start_check now probe t m = (r, m')"
  shows "\<exists>kind. r = Inr kind" "mg_sessions m' = mg_sessions m"
proof -
  obtain kind where k: "resolve_kind probe m = (kind, m')" "r = Inr kind"
    using assms by (auto simp: start_check_def split: prod.splits)
  then show "\<exists>kind. r = Inr kind" "mg_sessions m' = mg_sessions m"
    using resolve_kind_other [OF k(1)] by simp_all
qed

text \<open>
  Overlapping starts leak a session.  Start looks for a session, releases the lock while the
  kernel connects, and stores the result without looking again.  When two starts of an idle device
  overlap, both pass the check and both succeed, and the table keeps the kernel stored last: no
  later shutdown closes the other one, which goes on streaming to the same receiver.
\<close>

lemma overlapping_starts_leak:
  assumes "mg_sessions m (tg_id t) = None" "tg_id t \<notin> set ord"
    and "start_check now probe t m = (r1, m1)" "start_check now' probe' t m1 = (r2, m2)"
    and "m3 = start_commit rord now'' t k1 m2" "m4 = start_commit rord' now''' t k2 m3"
  shows "(\<exists>kind. r1 = Inr kind) \<and> (\<exists>kind. r2 = Inr kind)
       \<and> map_option ms_engine (mg_sessions m4 (tg_id t)) = Some k2
       \<and> snd (shutdown io sord (tg_id t # ord) m4)
         = kernel_close io k2 # snd (shutdown io sord ord m)"
proof -
  note r1 = start_check_idle [OF assms(1,3)]
  have idle: "mg_sessions m1 (tg_id t) = None"
    using assms(1) r1(2) by simp
  have r2: "\<exists>kind. r2 = Inr kind" "mg_sessions m2 = mg_sessions m"
    using start_check_idle [OF idle assms(4)] r1(2) by simp_all
  have m4: "mg_sessions m4 = (mg_sessions m)(tg_id t \<mapsto> \<lparr>ms_engine = k2, ms_target = t, ms_started = now'''\<rparr>)"
    using r2(2) by (simp add: assms(5,6) start_commit_def)
  have "List.map_filter (mg_sessions m4) ord = List.map_filter (mg_sessions m) ord"
    using assms(2) unfolding m4 by (induction ord) (auto simp: List.map_filter_simps split: option.split)
  moreover have "List.map_filter (mg_sessions m4) (tg_id t # ord)
      = \<lparr>ms_engine = k2, ms_target = t, ms_started = now'''\<rparr> # List.map_filter (mg_sessions m4) ord"
    by (simp add: m4 List.map_filter_simps)
  ultimately show ?thesis
    using r1(1) r2(1) m4 by (simp add: shutdown_kernels)
qed

lemma overlapping_starts_leak_witness:
  "\<exists>m2. snd (start_check 3 (\<lambda>_. True) kitchen_target (snd (start_check 3 (\<lambda>_. True) kitchen_target kitchen_manager))) = m2
     \<and> snd (shutdown demo_io (\<lambda>_. []) [''k'']
          (start_commit [] 5 kitchen_target (Cli_Kernel demo_cli) (start_commit [] 4 kitchen_target (Native_Kernel idle_native) m2)))
       = [kernel_close demo_io (Cli_Kernel demo_cli)]"
proof -
  obtain r1 m1 where c1: "start_check 3 (\<lambda>_. True) kitchen_target kitchen_manager = (r1, m1)"
    by fastforce
  obtain r2 m2 where c2: "start_check 3 (\<lambda>_. True) kitchen_target m1 = (r2, m2)"
    by fastforce
  from overlapping_starts_leak [of kitchen_manager kitchen_target "[]" 3 "\<lambda>_. True" r1 m1 3 "\<lambda>_. True" r2 m2
      "start_commit [] 4 kitchen_target (Native_Kernel idle_native) m2" "[]" 4 "Native_Kernel idle_native"
      _ "[]" 5 "Cli_Kernel demo_cli" demo_io "\<lambda>_. []", OF _ _ c1 c2 refl refl]
  show ?thesis
    using c1 c2 by (simp add: kitchen_resolves(3) shutdown_kernels List.map_filter_simps)
qed

subsection \<open>Finding a session\<close>

lemma newest_max:
  assumes "newest sess ks best = Some k" "\<forall>b. best = Some b \<longrightarrow> sess b \<noteq> None"
  shows "\<exists>s. sess k = Some s
       \<and> (\<forall>j \<in> set ks \<union> set_option best. \<forall>s'. sess j = Some s' \<longrightarrow> ms_started s' \<le> ms_started s)"
  using assms
proof (induction ks arbitrary: best)
  case Nil
  then show ?case by auto
next
  case (Cons a ks)
  show ?case
  proof (cases "sess a")
    case None
    with Cons.prems have "newest sess ks best = Some k"
      by simp
    from Cons.IH [OF this Cons.prems(2)] None show ?thesis
      by auto
  next
    case sa: (Some sa)
    show ?thesis
    proof (cases best)
      case None
      with sa Cons.prems have "newest sess ks (Some a) = Some k"
        by simp
      from Cons.IH [OF this] None sa show ?thesis
        by auto
    next
      case (Some b)
      then obtain sb where sb: "sess b = Some sb"
        using Cons.prems(2) by auto
      define c where "c = (if ms_started sa > ms_started sb then a else b)"
      have c: "newest sess ks (Some c) = Some k" "sess c \<noteq> None"
        using Some sa sb Cons.prems(1) by (cases "ms_started sb < ms_started sa"; simp add: c_def)+
      from Cons.IH [OF c(1)] c(2) obtain s where s: "sess k = Some s"
        "\<forall>j \<in> set ks \<union> {c}. \<forall>s'. sess j = Some s' \<longrightarrow> ms_started s' \<le> ms_started s"
        by auto
      have "ms_started sa \<le> ms_started s" "ms_started sb \<le> ms_started s"
        using s(2) sa sb by (auto simp: c_def split: if_splits)
      then show ?thesis
        using s sa sb Some by auto
    qed
  qed
qed

lemma newest_None: "newest sess ks best = None \<longleftrightarrow> best = None \<and> (\<forall>k \<in> set ks. sess k = None)"
  by (induction sess ks best rule: newest.induct) (auto split: option.splits if_splits)

lemma find_newest:
  assumes "enumerates ord (mg_sessions m)"
  shows "find_session ord [] m = None \<longleftrightarrow> (\<forall>k. mg_sessions m k = None)"
    and "find_session ord [] m = Some k \<Longrightarrow>
      \<exists>s. mg_sessions m k = Some s \<and> (\<forall>j s'. mg_sessions m j = Some s' \<longrightarrow> ms_started s' \<le> ms_started s)"
proof -
  show "find_session ord [] m = None \<longleftrightarrow> (\<forall>k. mg_sessions m k = None)"
    using assms by (auto simp: find_session_def newest_None enumerates_def domIff)
  assume "find_session ord [] m = Some k"
  then have "newest (mg_sessions m) ord None = Some k"
    by (simp add: find_session_def)
  from newest_max [OF this] obtain s where "mg_sessions m k = Some s"
    "\<forall>j \<in> set ord. \<forall>s'. mg_sessions m j = Some s' \<longrightarrow> ms_started s' \<le> ms_started s"
    by auto
  moreover have "j \<in> set ord" if "mg_sessions m j = Some s'" for j s'
    using that assms by (auto simp: enumerates_def)
  ultimately show "\<exists>s. mg_sessions m k = Some s \<and> (\<forall>j s'. mg_sessions m j = Some s' \<longrightarrow> ms_started s' \<le> ms_started s)"
    by blast
qed

text \<open>
  C32: What an identifier selects.  Status, Control and SetVolume find a session if and only if one
  answers to the identifier: its device ID, or, up to case and separators, the ID or the name of the
  device, or its address; the empty identifier selects a session started last.  A session that
  alone answers is found whatever the order in which the table is ranged over.
\<close>

lemma session_lookup:
  assumes "enumerates ord (mg_sessions m)"
  shows "(find_session ord i m = None \<longleftrightarrow>
            (\<forall>k s. mg_sessions m k = Some s \<longrightarrow> i \<noteq> [] \<and> k \<noteq> i \<and> \<not> session_matches i k s))
       \<and> (\<forall>k. find_session ord i m = Some k \<longrightarrow>
            (\<exists>s. mg_sessions m k = Some s
                 \<and> (if i = [] then \<forall>j s'. mg_sessions m j = Some s' \<longrightarrow> ms_started s' \<le> ms_started s
                    else k = i \<or> session_matches i k s)))
       \<and> (\<forall>k s. i \<noteq> [] \<and> mg_sessions m k = Some s \<and> session_matches i k s \<and> mg_sessions m i = None
             \<and> (\<forall>j s'. mg_sessions m j = Some s' \<and> session_matches i j s' \<longrightarrow> j = k) \<longrightarrow> find_session ord i m = Some k)"
proof (cases "i = []")
  case True
  then show ?thesis
    using find_newest [OF assms] by simp
next
  case False
  have none: "find_key (session_matches i) ord (mg_sessions m) = None \<longleftrightarrow>
      (\<forall>k s. mg_sessions m k = Some s \<longrightarrow> \<not> session_matches i k s)"
    by (rule find_key_None [OF assms])
  show ?thesis
  proof (intro conjI allI impI)
    show "find_session ord i m = None \<longleftrightarrow>
            (\<forall>k s. mg_sessions m k = Some s \<longrightarrow> i \<noteq> [] \<and> k \<noteq> i \<and> \<not> session_matches i k s)"
      using False none by (cases "mg_sessions m i") (auto simp: find_session_def)
  next
    fix k assume "find_session ord i m = Some k"
    then show "\<exists>s. mg_sessions m k = Some s
                 \<and> (if i = [] then \<forall>j s'. mg_sessions m j = Some s' \<longrightarrow> ms_started s' \<le> ms_started s
                    else k = i \<or> session_matches i k s)"
      using False find_key_Some [of "session_matches i" ord "mg_sessions m" k]
      by (auto simp: find_session_def split: if_splits)
  next
    fix k s assume a: "i \<noteq> [] \<and> mg_sessions m k = Some s \<and> session_matches i k s \<and> mg_sessions m i = None
             \<and> (\<forall>j s'. mg_sessions m j = Some s' \<and> session_matches i j s' \<longrightarrow> j = k)"
    have "find_key (session_matches i) ord (mg_sessions m) = Some k"
      by (rule find_key_unique [OF assms]) (use a in blast)+
    with a show "find_session ord i m = Some k"
      by (simp add: find_session_def)
  qed
qed

lemma session_lookup_witness: "find_session [''k''] ''KIT-chen'' busy_manager = Some ''k''"
proof -
  have e: "enumerates [''k''] (mg_sessions busy_manager)"
    by (simp add: enumerates_def)
  have "session_matches ''KIT-chen'' ''k'' kitchen_session"
    by (simp add: session_matches_def kitchen_session_def kitchen_target_def target_from_device_def kitchen_def
        normalize_id_def lower_char_def is_upper_def Let_def)
  then show ?thesis
    using session_lookup [OF e, of "''KIT-chen''"] by (simp split: if_splits)
qed

subsection \<open>Stopping and pruning\<close>

lemma stop_inactive: "kernel_control io action_stop pos k = (k', None) \<Longrightarrow> \<not> st_active (kernel_status t k')"
proof (cases k)
  case (Native_Kernel n)
  assume "kernel_control io action_stop pos k = (k', None)"
  with Native_Kernel have "k' = kernel_close io k"
    by (simp add: native_control_def action_defs)
  then show ?thesis
    by (simp add: kernel.close_inactive)
next
  case (Cli_Kernel c)
  assume "kernel_control io action_stop pos k = (k', None)"
  with Cli_Kernel have "k' = kernel_close io k"
    by (auto simp: cli_control_def action_defs split: if_splits)
  then show ?thesis
    by (simp add: kernel.close_inactive)
qed

text \<open>
  A stop ends exactly one session.  In every state the manager can reach (\<open>manager_inv\<close>, which
  every operation keeps), a successful stop removes the session it
  selected and no other, clears the busy flag of its device, and answers with the status of a
  session that is not active.
\<close>

lemma stop_forgets_session:
  assumes "manager_inv m"
    and "session_of ord i m = Inr (key, s)" "manager_control io rord ord i action_stop pos m = (Inr st, m')"
  shows "mg_sessions m' = (mg_sessions m)(key := None) \<and> \<not> st_active st
       \<and> mg_registry m' = map_option (\<lambda>r. set_busy rord r key False) (mg_registry m)"
proof -
  have s: "mg_sessions m key = Some s"
    using assms(2) by (rule session_of_in)
  then have t: "tg_id (ms_target s) = key"
    using assms(1) by (auto simp: manager_inv_def)
  obtain k where k: "kernel_control io action_stop pos (ms_engine s) = (k, None)"
    "st = kernel_status (ki_now io) k" "m' = forget rord key (update_engine key k m)"
    using assms(2,3) t by (auto simp: manager_control_def split: prod.splits option.splits)
  have "mg_sessions (update_engine key k m) key \<noteq> None" "mg_registry (update_engine key k m) = mg_registry m"
    using s by (simp_all add: update_engine_def)
  then have "mg_sessions m' = (mg_sessions (update_engine key k m))(key := None)"
    "mg_registry m' = map_option (\<lambda>r. set_busy rord r key False) (mg_registry m)"
    by (auto simp: k(3) forget_def mg_busy_def)
  moreover have "(mg_sessions (update_engine key k m))(key := None) = (mg_sessions m)(key := None)"
    by (simp add: update_engine_def fun_eq_iff)
  ultimately show ?thesis
    using stop_inactive [OF k(1)] k(2) by simp
qed

lemma busy_manager_inv: "manager_inv busy_manager"
  by (simp add: manager_inv_def kitchen_session_def kitchen_resolves native_ok_def idle_native_def new_native_def Let_def)

lemma stop_forgets_session_witness:
  "mg_sessions (snd (manager_control demo_io [''k''] [''k''] ''k'' action_stop 0 busy_manager)) = Map.empty"
proof -
  have s: "session_of [''k''] ''k'' busy_manager = Inr (''k'', kitchen_session)"
    by (simp add: session_of_def find_session_def)
  have "\<exists>st. fst (manager_control demo_io [''k''] [''k''] ''k'' action_stop 0 busy_manager) = Inr st"
    by (simp add: manager_control_def s kitchen_session_def native_control_def action_defs)
  then obtain st where "manager_control demo_io [''k''] [''k''] ''k'' action_stop 0 busy_manager
      = (Inr st, snd (manager_control demo_io [''k''] [''k''] ''k'' action_stop 0 busy_manager))"
    by (metis prod.collapse)
  from stop_forgets_session [OF busy_manager_inv s this] show ?thesis
    by simp
qed

text \<open>
  Pruning drops exactly the finished sessions.  The sessions that remain are those whose kernel
  is neither stopped nor failed, untouched; every kernel that goes was closed and holds nothing; the
  order in which the table is ranged over does not matter, and pruning again changes nothing.
\<close>

lemma prune_drops_finished:
  assumes "manager_inv m" "enumerates ord (mg_sessions m)" "enumerates ord' (mg_sessions m)"
  shows "(\<forall>k s. mg_sessions (prune now rord ord m) k = Some s \<longleftrightarrow> mg_sessions m k = Some s
            \<and> st_state (kernel_status now (ms_engine s)) \<notin> {Stopped, Failed})
       \<and> mg_sessions (prune now rord' ord' m) = mg_sessions (prune now rord ord m)
       \<and> prune now rord'' ord' (prune now rord ord m) = prune now rord ord m
       \<and> (\<forall>k \<in> set (pruned_kernels io ord m). kernel_released k \<and> (\<forall>t. \<not> st_active (kernel_status t k)))"
  unfolding terminal_def [symmetric]
proof (intro conjI)
  have o: "mg_sessions m k = Some s \<Longrightarrow> k \<in> set ord \<and> k \<in> set ord'" for k s
    using assms(2,3) by (auto simp: enumerates_def)
  show all: "\<forall>k s. mg_sessions (prune now rord ord m) k = Some s \<longleftrightarrow> mg_sessions m k = Some s \<and> \<not> terminal now s"
    using o by (auto simp: prune_sessions split: option.split)
  show "mg_sessions (prune now rord' ord' m) = mg_sessions (prune now rord ord m)"
    using o by (auto simp: prune_sessions fun_eq_iff split: option.split)
  have idle: "prune_one now rord'' k d = d"
    if "\<forall>s. mg_sessions d k = Some s \<longrightarrow> \<not> terminal now s" for k d
    using that by (auto simp: prune_one_def split: option.split)
  have "fold (prune_one now rord'') ks d = d" if "\<forall>k s. mg_sessions d k = Some s \<longrightarrow> \<not> terminal now s" for ks d
    using that idle by (induction ks) auto
  then show "prune now rord'' ord' (prune now rord ord m) = prune now rord ord m"
    unfolding prune_def [of now rord'' ord'] using all by simp
  have "\<forall>k \<in> set (map ms_engine (filter (terminal (ki_now io)) (List.map_filter (mg_sessions m) ord))). kernel_ok k"
    using assms(1) by (auto simp: manager_inv_def in_map_filter)
  from kernel.close_all [OF this, of io]
  show "\<forall>k \<in> set (pruned_kernels io ord m). kernel_released k \<and> (\<forall>t. \<not> st_active (kernel_status t k))"
    by (simp add: pruned_kernels_def)
qed

lemma prune_drops_finished_witness: "mg_sessions (prune 9 (\<lambda>_. [''k'']) [''k''] busy_manager) ''k'' = Some kitchen_session"
proof -
  have e: "enumerates [''k''] (mg_sessions busy_manager)"
    by (simp add: enumerates_def)
  have "st_state (kernel_status 9 (ms_engine kitchen_session)) \<notin> {Stopped, Failed}"
    by (simp add: kitchen_session_def native_status_def idle_native_def new_native_def new_session_base_def Let_def)
  then show ?thesis
    using prune_drops_finished [OF busy_manager_inv e e, of 9 "\<lambda>_. [''k'']"] by simp
qed

end
