(* ===== verification/Config.thy ===== *)
theory Config
  imports Manager
begin

text \<open>
  The configuration, internal/config/config.go: defaults, the environment, the ranges it enforces.
  \<open>env\<close> is \<open>os.Getenv\<close>, which returns the empty string for a variable that is not set.  Load returns
  the configuration read so far beside an error.
\<close>

datatype engine_choice = Engine_Auto | Engine_Cliairplay | Engine_Native

fun engine_text :: "engine_choice \<Rightarrow> string" where
  "engine_text Engine_Auto = ''auto''"
| "engine_text Engine_Cliairplay = ''cliairplay''"
| "engine_text Engine_Native = ''native''"

record bridge_config =
  bc_port :: int
  bc_bind :: string
  bc_token :: string
  bc_engine :: engine_choice
  bc_cli_path :: string
  bc_ffmpeg :: string
  bc_protocol :: string
  bc_rate :: int
  bc_channels :: int
  bc_depth :: int
  bc_latency :: int
  bc_ttl :: duration
  bc_discovery :: bool
  bc_static :: "string list"
  bc_iface :: string
  bc_server_url :: string
  bc_volume :: int
  bc_log_level :: string

definition default_config :: bridge_config where
  "default_config =
     \<lparr>bc_port = 8092, bc_bind = ''0.0.0.0'', bc_token = [], bc_engine = Engine_Auto, bc_cli_path = ''cliairplay'',
      bc_ffmpeg = ''ffmpeg'', bc_protocol = ''auto'', bc_rate = 44100, bc_channels = 2, bc_depth = 16,
      bc_latency = 600, bc_ttl = 60 * second, bc_discovery = True, bc_static = [], bc_iface = [],
      bc_server_url = ''http://127.0.0.1:8080'', bc_volume = 60, bc_log_level = ''info''\<rparr>"

datatype config_error = Invalid_Setting string string

type_synonym environment = "string \<Rightarrow> string"

text \<open>A variable, trimmed; \<open>None\<close> when it is blank.\<close>

definition env_text :: "environment \<Rightarrow> string \<Rightarrow> string option" where
  "env_text env name = (if trim_space (env name) = [] then None else Some (trim_space (env name)))"

definition env_string :: "environment \<Rightarrow> string \<Rightarrow> string \<Rightarrow> string" where
  "env_string env name old = (case env_text env name of None \<Rightarrow> old | Some v \<Rightarrow> v)"

definition parse_int_env :: "environment \<Rightarrow> string \<Rightarrow> int \<Rightarrow> int \<Rightarrow> int \<Rightarrow> config_error + int" where
  "parse_int_env env name old lo hi =
     (case env_text env name of
        None \<Rightarrow> Inr old
      | Some raw \<Rightarrow>
          (case atoi raw of
             None \<Rightarrow> Inl (Invalid_Setting name raw)
           | Some v \<Rightarrow> if v < lo \<or> v > hi then Inl (Invalid_Setting name raw) else Inr v))"

text \<open>The statements of Load, each of which may return early.\<close>

type_synonym setting = "bridge_config \<Rightarrow> config_error + bridge_config"

fun run_settings :: "setting list \<Rightarrow> bridge_config \<Rightarrow> config_error option \<times> bridge_config" where
  "run_settings [] c = (None, c)"
| "run_settings (f # fs) c = (case f c of Inl e \<Rightarrow> (Some e, c) | Inr c' \<Rightarrow> run_settings fs c')"

definition set_port :: "environment \<Rightarrow> setting" where
  "set_port env c = map_sum id (\<lambda>v. c\<lparr>bc_port := v\<rparr>) (parse_int_env env ''BRIDGE_PORT'' (bc_port c) 1 65535)"

definition set_bind :: "environment \<Rightarrow> setting" where
  "set_bind env c = Inr (c\<lparr>bc_bind := env_string env ''BRIDGE_BIND'' (bc_bind c)\<rparr>)"

definition set_token :: "environment \<Rightarrow> setting" where
  "set_token env c = Inr (c\<lparr>bc_token := trim_space (env ''BRIDGE_TOKEN'')\<rparr>)"

definition set_engine :: "environment \<Rightarrow> setting" where
  "set_engine env c =
     (case env_text env ''BRIDGE_ENGINE'' of
        None \<Rightarrow> Inr c
      | Some v \<Rightarrow>
          if to_lower v = ''auto'' then Inr (c\<lparr>bc_engine := Engine_Auto\<rparr>)
          else if to_lower v = ''cliairplay'' then Inr (c\<lparr>bc_engine := Engine_Cliairplay\<rparr>)
          else if to_lower v = ''native'' then Inr (c\<lparr>bc_engine := Engine_Native\<rparr>)
          else Inl (Invalid_Setting ''BRIDGE_ENGINE'' v))"

definition set_paths :: "environment \<Rightarrow> setting" where
  "set_paths env c =
     Inr (c\<lparr>bc_cli_path := env_string env ''CLIAIRPLAY_PATH'' (bc_cli_path c),
            bc_ffmpeg := env_string env ''FFMPEG_PATH'' (bc_ffmpeg c),
            bc_protocol := (case env_text env ''AIRPLAY_PROTOCOL'' of None \<Rightarrow> bc_protocol c | Some v \<Rightarrow> to_lower v)\<rparr>)"

definition set_rate :: "environment \<Rightarrow> setting" where
  "set_rate env c = map_sum id (\<lambda>v. c\<lparr>bc_rate := v\<rparr>) (parse_int_env env ''BRIDGE_SAMPLE_RATE'' (bc_rate c) 8000 192000)"

definition set_channels :: "environment \<Rightarrow> setting" where
  "set_channels env c = map_sum id (\<lambda>v. c\<lparr>bc_channels := v\<rparr>) (parse_int_env env ''BRIDGE_CHANNELS'' (bc_channels c) 1 2)"

definition set_depth :: "environment \<Rightarrow> setting" where
  "set_depth env c = map_sum id (\<lambda>v. c\<lparr>bc_depth := v\<rparr>) (parse_int_env env ''BRIDGE_BIT_DEPTH'' (bc_depth c) 16 24)"

definition check_depth :: "setting" where
  "check_depth c =
     (if bc_depth c \<noteq> 16 \<and> bc_depth c \<noteq> 24 then Inl (Invalid_Setting ''BRIDGE_BIT_DEPTH'' (itoa (bc_depth c))) else Inr c)"

definition set_latency :: "environment \<Rightarrow> setting" where
  "set_latency env c = map_sum id (\<lambda>v. c\<lparr>bc_latency := v\<rparr>) (parse_int_env env ''BRIDGE_LATENCY_MS'' (bc_latency c) 100 3000)"

definition set_default_volume :: "environment \<Rightarrow> setting" where
  "set_default_volume env c = map_sum id (\<lambda>v. c\<lparr>bc_volume := v\<rparr>) (parse_int_env env ''BRIDGE_DEFAULT_VOLUME'' (bc_volume c) 0 100)"

definition set_ttl :: "environment \<Rightarrow> setting" where
  "set_ttl env c =
     (case env_text env ''BRIDGE_DEVICE_TTL_SECONDS'' of
        None \<Rightarrow> Inr c
      | Some v \<Rightarrow>
          (case atoi v of
             None \<Rightarrow> Inl (Invalid_Setting ''BRIDGE_DEVICE_TTL_SECONDS'' v)
           | Some seconds \<Rightarrow>
               if seconds < 5 \<or> seconds > 3600 then Inl (Invalid_Setting ''BRIDGE_DEVICE_TTL_SECONDS'' v)
               else Inr (c\<lparr>bc_ttl := seconds * second\<rparr>)))"

definition set_discovery :: "environment \<Rightarrow> setting" where
  "set_discovery env c =
     Inr (case env_text env ''BRIDGE_DISCOVERY'' of
            None \<Rightarrow> c | Some v \<Rightarrow> c\<lparr>bc_discovery := (v \<noteq> ''0'' \<and> \<not> equal_fold v ''false'')\<rparr>)"

definition set_static :: "environment \<Rightarrow> setting" where
  "set_static env c =
     Inr (case env_text env ''AIRPLAY_STATIC_DEVICES'' of
            None \<Rightarrow> c
          | Some v \<Rightarrow> c\<lparr>bc_static := bc_static c @ filter (\<lambda>e. e \<noteq> []) (map trim_space (split_on (CHR '','') v))\<rparr>)"

definition set_rest :: "environment \<Rightarrow> setting" where
  "set_rest env c =
     Inr (c\<lparr>bc_iface := env_string env ''BRIDGE_IFACE'' (bc_iface c),
            bc_server_url := (case env_text env ''LYRANEST_SERVER_URL'' of
                                None \<Rightarrow> bc_server_url c | Some v \<Rightarrow> trim_right v ''/''),
            bc_log_level := (case env_text env ''BRIDGE_LOG_LEVEL'' of None \<Rightarrow> bc_log_level c | Some v \<Rightarrow> to_lower v)\<rparr>)"

definition load_config :: "environment \<Rightarrow> config_error option \<times> bridge_config" where
  "load_config env =
     run_settings
       [set_port env, set_bind env, set_token env, set_engine env, set_paths env, set_rate env, set_channels env,
        set_depth env, check_depth, set_latency env, set_default_volume env, set_ttl env, set_discovery env,
        set_static env, set_rest env]
       default_config"

definition addr :: "bridge_config \<Rightarrow> string" where
  "addr c = bc_bind c @ '':'' @ itoa (bc_port c)"

definition config_frame_size :: "bridge_config \<Rightarrow> int" where
  "config_frame_size c = bc_channels c * go_div (bc_depth c) 8"

definition bytes_per_second :: "bridge_config \<Rightarrow> int" where
  "bytes_per_second c = bc_rate c * config_frame_size c"

subsection \<open>The ranges\<close>

definition config_ok :: "bridge_config \<Rightarrow> bool" where
  "config_ok c \<longleftrightarrow>
     1 \<le> bc_port c \<and> bc_port c \<le> 65535 \<and> 8000 \<le> bc_rate c \<and> bc_rate c \<le> 192000 \<and> bc_channels c \<in> {1, 2}
     \<and> 16 \<le> bc_depth c \<and> bc_depth c \<le> 24 \<and> 100 \<le> bc_latency c \<and> bc_latency c \<le> 3000 \<and> 0 \<le> bc_volume c \<and> bc_volume c \<le> 100
     \<and> 5 * second \<le> bc_ttl c \<and> bc_ttl c \<le> 3600 * second \<and> [] \<notin> set (bc_static c)"

lemma parse_int_env_range:
  "parse_int_env env name old lo hi = Inr v \<Longrightarrow> v = old \<or> lo \<le> v \<and> v \<le> hi"
  by (auto simp: parse_int_env_def split: option.splits if_splits)

lemma map_sum_Inr: "map_sum id f r = Inr c \<Longrightarrow> \<exists>v. r = Inr v \<and> c = f v"
  by (cases r) simp_all

text \<open>Each setting keeps the ranges: the fields that one setting writes are its own.\<close>

lemma run_settings_inv:
  assumes "\<And>f c c'. f \<in> set fs \<Longrightarrow> P c \<Longrightarrow> f c = Inr c' \<Longrightarrow> P c'" "P c"
  shows "P (snd (run_settings fs c))"
  using assms
proof (induction fs arbitrary: c)
  case (Cons f fs)
  show ?case
  proof (cases "f c")
    case (Inl e)
    with Cons.prems show ?thesis by simp
  next
    case (Inr c')
    have "P c'"
      using Cons.prems Inr by (meson list.set_intros(1))
    moreover have "\<And>g d d'. g \<in> set fs \<Longrightarrow> P d \<Longrightarrow> g d = Inr d' \<Longrightarrow> P d'"
      using Cons.prems(1) by (meson list.set_intros(2))
    ultimately show ?thesis
      using Cons.IH Inr by simp
  qed
qed simp

lemma run_settings_append:
  "run_settings (fs @ gs) c = (case run_settings fs c of (Some e, d) \<Rightarrow> (Some e, d) | (None, d) \<Rightarrow> run_settings gs d)"
  by (induction fs arbitrary: c) (simp_all split: sum.split)

definition before_depth :: "environment \<Rightarrow> setting list" where
  "before_depth env = [set_port env, set_bind env, set_token env, set_engine env, set_paths env, set_rate env, set_channels env, set_depth env]"

definition after_depth :: "environment \<Rightarrow> setting list" where
  "after_depth env =
     [set_latency env, set_default_volume env, set_ttl env, set_discovery env, set_static env, set_rest env]"

lemma load_config_split: "load_config env = run_settings ((before_depth env @ [check_depth]) @ after_depth env) default_config"
  by (simp add: load_config_def before_depth_def after_depth_def)

lemma int_setting_ok:
  assumes "map_sum id g (parse_int_env env name old lo hi) = Inr c'" "config_ok (g old)"
    and "\<And>v. lo \<le> v \<Longrightarrow> v \<le> hi \<Longrightarrow> config_ok (g v)"
  shows "config_ok c'"
  using map_sum_Inr [OF assms(1)] parse_int_env_range assms(2,3) by metis

lemma port_setting_ok: "config_ok c \<Longrightarrow> set_port env c = Inr c' \<Longrightarrow> config_ok c'"
  unfolding set_port_def by (erule int_setting_ok) (simp_all add: config_ok_def)

lemma rate_setting_ok: "config_ok c \<Longrightarrow> set_rate env c = Inr c' \<Longrightarrow> config_ok c'"
  unfolding set_rate_def by (erule int_setting_ok) (simp_all add: config_ok_def)

lemma channels_setting_ok: "config_ok c \<Longrightarrow> set_channels env c = Inr c' \<Longrightarrow> config_ok c'"
  unfolding set_channels_def by (erule int_setting_ok) (auto simp: config_ok_def)

lemma depth_setting_ok: "config_ok c \<Longrightarrow> set_depth env c = Inr c' \<Longrightarrow> config_ok c'"
  unfolding set_depth_def by (erule int_setting_ok) (simp_all add: config_ok_def)

lemma latency_setting_ok: "config_ok c \<Longrightarrow> set_latency env c = Inr c' \<Longrightarrow> config_ok c'"
  unfolding set_latency_def by (erule int_setting_ok) (simp_all add: config_ok_def)

lemma volume_setting_ok: "config_ok c \<Longrightarrow> set_default_volume env c = Inr c' \<Longrightarrow> config_ok c'"
  unfolding set_default_volume_def by (erule int_setting_ok) (simp_all add: config_ok_def)

lemma ttl_setting_ok: "config_ok c \<Longrightarrow> set_ttl env c = Inr c' \<Longrightarrow> config_ok c'"
  by (auto simp: set_ttl_def config_ok_def second_def split: option.splits if_splits)

lemma text_settings_ok:
  "config_ok c \<Longrightarrow> set_bind env c = Inr c' \<Longrightarrow> config_ok c'"
  "config_ok c \<Longrightarrow> set_token env c = Inr c' \<Longrightarrow> config_ok c'"
  "config_ok c \<Longrightarrow> set_engine env c = Inr c' \<Longrightarrow> config_ok c'"
  "config_ok c \<Longrightarrow> set_paths env c = Inr c' \<Longrightarrow> config_ok c'"
  "config_ok c \<Longrightarrow> check_depth c = Inr c' \<Longrightarrow> config_ok c'"
  "config_ok c \<Longrightarrow> set_discovery env c = Inr c' \<Longrightarrow> config_ok c'"
  "config_ok c \<Longrightarrow> set_rest env c = Inr c' \<Longrightarrow> config_ok c'"
proof -
  have same: "config_ok c \<Longrightarrow> config_ok d" if "bc_port d = bc_port c" "bc_rate d = bc_rate c" "bc_channels d = bc_channels c"
    "bc_depth d = bc_depth c" "bc_latency d = bc_latency c" "bc_volume d = bc_volume c" "bc_ttl d = bc_ttl c"
    "bc_static d = bc_static c" for d
    using that by (simp add: config_ok_def)
  note defs = set_bind_def set_token_def set_engine_def set_paths_def check_depth_def set_discovery_def set_rest_def
  show "config_ok c \<Longrightarrow> set_bind env c = Inr c' \<Longrightarrow> config_ok c'"
    "config_ok c \<Longrightarrow> set_token env c = Inr c' \<Longrightarrow> config_ok c'"
    "config_ok c \<Longrightarrow> set_engine env c = Inr c' \<Longrightarrow> config_ok c'"
    "config_ok c \<Longrightarrow> set_paths env c = Inr c' \<Longrightarrow> config_ok c'"
    "config_ok c \<Longrightarrow> check_depth c = Inr c' \<Longrightarrow> config_ok c'"
    "config_ok c \<Longrightarrow> set_discovery env c = Inr c' \<Longrightarrow> config_ok c'"
    "config_ok c \<Longrightarrow> set_rest env c = Inr c' \<Longrightarrow> config_ok c'"
    by (erule same [rotated -1]; auto simp: defs split: option.splits if_splits)+
qed

lemma static_setting_ok: "config_ok c \<Longrightarrow> set_static env c = Inr c' \<Longrightarrow> config_ok c'"
  by (auto simp: set_static_def config_ok_def split: option.splits)

lemmas settings_ok = port_setting_ok rate_setting_ok channels_setting_ok depth_setting_ok latency_setting_ok
  volume_setting_ok ttl_setting_ok static_setting_ok text_settings_ok

lemma default_config_ok: "config_ok default_config"
  by (simp add: config_ok_def default_config_def second_def)

lemma later_settings_keep_depth:
  "f \<in> set (after_depth env) \<Longrightarrow> f c = Inr c' \<Longrightarrow> bc_depth c' = bc_depth c"
  by (auto simp: after_depth_def set_latency_def set_default_volume_def set_ttl_def set_discovery_def set_static_def
      set_rest_def dest!: map_sum_Inr split: option.splits if_splits)

lemma loaded_config_ok:
  assumes "load_config env = (None, c)"
  shows "config_ok c"
proof -
  have "config_ok (snd (run_settings ((before_depth env @ [check_depth]) @ after_depth env) default_config))"
  proof (rule run_settings_inv)
    fix f c c' assume "f \<in> set ((before_depth env @ [check_depth]) @ after_depth env)" "config_ok c" "f c = Inr c'"
    then show "config_ok c'"
      by (auto simp: before_depth_def after_depth_def intro: settings_ok)
  qed (rule default_config_ok)
  then show ?thesis
    using assms by (simp add: load_config_split)
qed

text \<open>
  C35: A configuration that loads is usable.  Whatever the environment holds, when Load reports no
  error every number is in its documented range, the bit depth is 16 or 24, no static device is
  blank, and the PCM format that the native kernel takes from it is one that the RAOP sender
  accepts.
\<close>

lemma loaded_config_usable:
  assumes "load_config env = (None, c)"
  shows "config_ok c \<and> bc_depth c \<in> {16, 24}
       \<and> validate \<lparr>sample_rate = bc_rate c, channels = bc_channels c, bit_depth = 16\<rparr> = None"
proof -
  have c: "config_ok c"
    using assms by (rule loaded_config_ok)
  obtain d where d: "run_settings (before_depth env @ [check_depth]) default_config = (None, d)"
    "run_settings (after_depth env) d = (None, c)"
    using assms unfolding load_config_split run_settings_append [of "before_depth env @ [check_depth]"]
    by (auto split: prod.splits option.splits)
  have "bc_depth d \<in> {16, 24}"
    using d(1) by (auto simp: run_settings_append check_depth_def split: prod.splits option.splits sum.splits if_splits)
  then have "bc_depth (snd (run_settings (after_depth env) d)) \<in> {16, 24}"
    by (rule run_settings_inv [where P = "\<lambda>c. bc_depth c \<in> {16, 24}", rotated])
       (simp add: later_settings_keep_depth)
  then show ?thesis
    using c d(2) by (auto simp: config_ok_def validate_def)
qed

lemma loaded_config_usable_witness:
  "config_ok (snd (load_config (\<lambda>name. if name = ''BRIDGE_CHANNELS'' then ''1'' else [])))"
proof -
  let ?env = "\<lambda>name. if name = ''BRIDGE_CHANNELS'' then ''1'' else []"
  have one: "trim_space ''1'' = ''1''" "atoi ''1'' = Some 1"
    using trim_space_itoa [of 1] atoi_itoa [of 1] by (simp_all add: itoa_def nat_str.simps digit_char_def in_int64_def)
  have "fst (load_config ?env) = None"
    by (simp add: load_config_def set_port_def set_bind_def set_token_def set_engine_def set_paths_def set_rate_def
        set_channels_def set_depth_def check_depth_def set_latency_def set_default_volume_def set_ttl_def
        set_discovery_def set_static_def set_rest_def parse_int_env_def env_text_def env_string_def one default_config_def)
  then have "load_config ?env = (None, snd (load_config ?env))"
    by (metis prod.collapse)
  from loaded_config_usable [OF this] show ?thesis
    by blast
qed

text \<open>
  An IPv6 bind address gives no listen address.  Load accepts any BRIDGE_BIND, and Addr joins it
  with the port by a colon, without the brackets that an address containing colons needs: the result
  cannot be split into host and port again.
\<close>

lemma ipv6_bind_unusable:
  assumes "bc_bind c = a @ '':'' @ b" "CHR ''['' \<notin> set (bc_bind c)"
  shows "net_split_host_port (addr c) = None"
proof -
  have port: "CHR '':'' \<notin> set (itoa (bc_port c))"
    by (rule not_in_itoa) (simp_all add: is_digit_def less_eq_char_simp)
  have ib: "index_byte x (ys @ x # zs) = Some (length ys)" if "x \<notin> set ys" for x :: char and ys zs
    using that by (induction ys) auto
  have "rev (addr c) = rev (itoa (bc_port c)) @ CHR '':'' # rev (bc_bind c)"
    by (simp add: addr_def)
  then have li: "last_index (CHR '':'') (addr c) = Some (length (bc_bind c))"
    using ib [of "CHR '':''" "rev (itoa (bc_port c))" "rev (bc_bind c)"] port by (simp add: last_index_def addr_def)
  moreover have "take (length (bc_bind c)) (addr c) = bc_bind c"
    by (simp add: addr_def)
  moreover have ne: "bc_bind c \<noteq> []"
    using assms(1) by simp
  moreover have "hd (addr c) \<noteq> CHR ''[''"
    unfolding addr_def hd_append2 [OF ne] using assms(2) hd_in_set [OF ne] by metis
  ultimately show ?thesis
    using assms(1) by (simp add: net_split_host_port_def)
qed

lemma ipv6_bind_unusable_witness:
  "net_split_host_port (addr (default_config\<lparr>bc_bind := ''::1''\<rparr>)) = None"
  using ipv6_bind_unusable [of "default_config\<lparr>bc_bind := ''::1''\<rparr>" "[]" "'':1''"] by simp

end
