(* ===== verification/Api.thy ===== *)
theory Api
  imports Config Mdns
begin

text \<open>
  The REST control plane, internal/api (json.go, router.go, handlers.go).  A request arrives with its
  JSON object decoded into the fields the handlers read, a missing field being its zero value;
  \<open>None\<close> is a body that does not decode.  The raw token of \<open>track_id\<close> is kept, because the bridge
  decodes it itself.  What encoding/json, net/url and the clock contribute beyond that are arguments.
\<close>

subsection \<open>Integers that may be quoted (json.go)\<close>

definition hex_val :: "char \<Rightarrow> nat" where
  "hex_val c = (if is_digit c then digit_val c else of_char (lower_char c) - 87)"

definition utf8 :: "nat \<Rightarrow> string" where
  "utf8 n =
     (if n < 0x80 then [char_of n]
      else if n < 0x800 then [char_of (0xC0 + n div 64), char_of (0x80 + n mod 64)]
      else [char_of (0xE0 + n div 4096), char_of (0x80 + n div 64 mod 64), char_of (0x80 + n mod 64)])"

definition escape_value :: "char \<Rightarrow> char" where
  "escape_value c =
     (if c = CHR ''b'' then CHR 0x08 else if c = CHR ''f'' then CHR 0x0C else if c = CHR ''n'' then CHR 0x0A
      else if c = CHR ''r'' then CHR 0x0D else if c = CHR ''t'' then CHR 0x09 else c)"

text \<open>
  The text of a JSON string token, after its opening quote.  A \<open>\u\<close> escape stands for one UTF-16
  unit; a surrogate gives U+FFFD here, where Go may combine two of them: neither text is an integer.
\<close>

fun unquote :: "string \<Rightarrow> string" where
  "unquote [] = []"
| "unquote (c # s) =
     (if c = CHR 0x22 then []
      else if c = CHR 0x5C then
        (case s of
           [] \<Rightarrow> []
         | d # t \<Rightarrow>
             if d = CHR ''u'' \<and> length t \<ge> 4
             then (let n = foldl (\<lambda>v h. v * 16 + hex_val h) 0 (take 4 t)
                   in utf8 (if 0xD800 \<le> n \<and> n < 0xE000 then 0xFFFD else n) @ unquote (drop 4 t))
             else escape_value d # unquote t)
      else c # unquote s)"

definition flexible_int64 :: "string \<Rightarrow> int option" where
  "flexible_int64 data =
     (let trimmed = trim_space data
      in if trimmed = [] \<or> trimmed = ''null'' then Some 0
         else if hd trimmed = CHR 0x22 then
           (let txt = trim_space (unquote (tl trimmed)) in if txt = [] then Some 0 else atoi txt)
         else atoi trimmed)"

definition marshal_int64 :: "int \<Rightarrow> string" where
  "marshal_int64 i = itoa i"

subsection \<open>The device document (handlers.go)\<close>

text \<open>
  The digit loop of \<open>deviceLike.Codecs\<close>, which unlike the one of the kernel target keeps every
  number that overflows.
\<close>

fun view_codec_loop :: "int \<Rightarrow> string \<Rightarrow> int option" where
  "view_codec_loop acc [] = Some acc"
| "view_codec_loop acc (c # s) =
     (if \<not> is_digit c then None else view_codec_loop (int64 (acc * 10 + int (digit_val c))) s)"

definition view_codecs :: "(string \<rightharpoonup> string) \<Rightarrow> int list" where
  "view_codecs m =
     (let raw = trim_space (txt_get m ''cn'')
      in if raw = [] then []
         else List.map_filter
                (\<lambda>part0. let part = trim_space part0 in if part = [] then None else view_codec_loop 0 part)
                (split_on (CHR '','') raw))"

text \<open>\<open>Format(time.RFC3339)\<close> of a UTC time: the date of a day counted from 0001-01-01.\<close>

definition civil_date :: "int \<Rightarrow> int \<times> int \<times> int" where
  "civil_date days =
     (let z = days + 306;
          era = z div 146097;
          doe = z mod 146097;
          yoe = (doe - doe div 1460 + doe div 36524 - doe div 146096) div 365;
          doy = doe - (365 * yoe + yoe div 4 - yoe div 100);
          mp = (5 * doy + 2) div 153;
          d = doy - (153 * mp + 2) div 5 + 1;
          m = (if mp < 10 then mp + 3 else mp - 9)
      in (yoe + era * 400 + (if m \<le> 2 then 1 else 0), m, d))"

definition zero_pad :: "nat \<Rightarrow> int \<Rightarrow> string" where
  "zero_pad w i = (let s = itoa i in replicate (w - length s) (CHR ''0'') @ s)"

definition rfc3339 :: "time \<Rightarrow> string" where
  "rfc3339 t =
     (let secs = t div 1000000000; s = secs mod 86400
      in case civil_date (secs div 86400) of (y, m, d) \<Rightarrow>
           zero_pad 4 y @ ''-'' @ zero_pad 2 m @ ''-'' @ zero_pad 2 d @ ''T''
           @ zero_pad 2 (s div 3600) @ '':'' @ zero_pad 2 (s div 60 mod 60) @ '':'' @ zero_pad 2 (s mod 60) @ ''Z'')"

record device_view =
  dv_id :: string
  dv_name :: string
  dv_model :: string
  dv_address :: string
  dv_port :: int
  dv_features :: string
  dv_protocol :: string
  dv_requires_password :: bool
  dv_is_busy :: bool
  dv_last_seen :: string
  dv_source :: string
  dv_mac :: string
  dv_codecs :: "int list"
  dv_txt_cn :: string
  dv_txt :: "string \<rightharpoonup> string"

definition new_device_view :: "device \<Rightarrow> device_view" where
  "new_device_view d =
     \<lparr>dv_id = dev_id d, dv_name = dev_name d, dv_model = dev_model d, dv_address = dev_address d,
      dv_port = dev_port d, dv_features = dev_features d, dv_protocol = dev_protocol d,
      dv_requires_password = requires_password d, dv_is_busy = is_busy d,
      dv_last_seen = (if is_zero (last_seen d) then [] else rfc3339 (last_seen d)),
      dv_source = dev_source d, dv_mac = dev_mac d, dv_codecs = view_codecs (dev_txt d),
      dv_txt_cn = txt_get (dev_txt d) ''cn'', dv_txt = dev_txt d\<rparr>"

subsection \<open>Requests, responses, the server (router.go)\<close>

record json_body =
  jb_device_id :: string
  jb_stream_url :: string
  jb_track :: string
  jb_title :: string
  jb_artist :: string
  jb_album :: string
  jb_duration_ms :: int
  jb_start_ms :: int
  jb_volume :: "int option"
  jb_action :: string
  jb_position_ms :: int
  jb_address :: string
  jb_port :: int

record http_request =
  hq_method :: string
  hq_path :: string
  hq_bridge_token :: string
  hq_authorization :: string
  hq_refresh :: string
  hq_device_id :: string
  hq_body :: "json_body option"

datatype api_error =
    Unauthorized
  | Invalid_Json
  | Missing string
  | Out_Of_Range string
  | Registry_Failure registry_error
  | Engine_Failure engine_error

datatype response_body =
    No_Content
  | Error_Body api_error
  | Health_Body string string string int
  | Overview_Body int nat string nat string string bool
  | Devices_Body "device_view list"
  | Device_Body device_view
  | Play_Body state string
  | Control_Body state string int
  | Volume_Body int string
  | Status_Body "engine_error status"

type_synonym http_response = "int \<times> response_body"

definition write_error :: "int \<Rightarrow> api_error \<Rightarrow> http_response" where
  "write_error code e = (code, Error_Body e)"

record server =
  sv_manager :: manager
  sv_token :: string
  sv_started :: time
  sv_url :: string
  sv_discovery :: bool

text \<open>The server and its manager share one registry; a manager without one has no device here.\<close>

definition server_registry :: "manager \<Rightarrow> registry" where
  "server_registry m = (case mg_registry m of None \<Rightarrow> new_registry 0 | Some r \<Rightarrow> r)"

definition set_registry :: "registry \<Rightarrow> manager \<Rightarrow> manager" where
  "set_registry r m = m\<lparr>mg_registry := Some r\<rparr>"

definition new_server :: "time \<Rightarrow> manager \<Rightarrow> string \<Rightarrow> string \<Rightarrow> bool \<Rightarrow> server" where
  "new_server now m token url discovery =
     \<lparr>sv_manager = m, sv_token = trim_space token, sv_started = now, sv_url = trim_right (trim_space url) ''/'',
      sv_discovery = discovery\<rparr>"

definition server_version :: string where
  "server_version = ''0.1.0''"

text \<open>What one request meets outside the program.\<close>

record request_io =
  rq_io :: kernel_io
  rq_env :: kernel_env
  rq_probe :: "string \<Rightarrow> bool"
  rq_rord :: "string list"
  rq_ord :: "string list"
  rq_prune_rord :: "string \<Rightarrow> string list"
  rq_lookup :: "string \<Rightarrow> string option"
  rq_found :: "(time \<times> string \<times> service_entry option) list"
  rq_relative :: "string \<Rightarrow> string \<Rightarrow> string option"
  rq_os_text :: "engine_error \<Rightarrow> string"
  rq_quote :: "string \<Rightarrow> string"

definition bearer_token :: "string \<Rightarrow> string" where
  "bearer_token authorization =
     (let h = trim_space authorization
      in if length h > 7 \<and> equal_fold (take 7 h) ''Bearer '' then trim_space (drop 7 h) else [])"

definition candidate_token :: "http_request \<Rightarrow> string" where
  "candidate_token q =
     (let c = trim_space (hq_bridge_token q) in if c = [] then bearer_token (hq_authorization q) else c)"

definition authorized :: "server \<Rightarrow> http_request \<Rightarrow> bool" where
  "authorized sv q \<longleftrightarrow> (if candidate_token q = [] then False else candidate_token q = sv_token sv)"

type_synonym handler = "request_io \<Rightarrow> http_request \<Rightarrow> server \<Rightarrow> http_response \<times> server"

definition guard :: "handler \<Rightarrow> handler" where
  "guard next_handler rio q sv =
     (if sv_token sv \<noteq> [] \<and> \<not> authorized sv q then (write_error 401 Unauthorized, sv)
      else next_handler rio q sv)"

subsection \<open>Handlers (handlers.go)\<close>

definition on_manager :: "manager \<Rightarrow> server \<Rightarrow> server" where
  "on_manager m sv = sv\<lparr>sv_manager := m\<rparr>"

definition engine_label :: "string \<Rightarrow> string" where
  "engine_label kind = (if kind = ''cliairplay'' then ''airplay-cli-unified'' else ''lyranest-native-raop'')"

definition uptime_seconds :: "time \<Rightarrow> server \<Rightarrow> int" where
  "uptime_seconds now sv = go_div (now - sv_started sv) second"

definition healthz :: handler where
  "healthz rio q sv =
     (case engine_name (rq_probe rio) (sv_manager sv) of (kind, m) \<Rightarrow>
        ((200, Health_Body server_version (engine_label kind) kind (uptime_seconds (ki_now (rq_io rio)) sv)),
         on_manager m sv))"

definition overview :: handler where
  "overview rio q sv =
     (case engine_name (rq_probe rio) (sv_manager sv) of (kind, m) \<Rightarrow>
      case active_sessions (ki_now (rq_io rio)) (rq_prune_rord rio) (rq_ord rio) m of (live, m) \<Rightarrow>
        ((200, Overview_Body (uptime_seconds (ki_now (rq_io rio)) sv) live (active_device_id (rq_ord rio) m)
                 (registry_count (server_registry m)) kind (engine_label kind)
                 (sv_discovery sv)),
         on_manager m sv))"

definition wants_refresh :: "string \<Rightarrow> bool" where
  "wants_refresh v0 = (let v = to_lower (trim_space v0) in v = ''1'' \<or> v = ''true'' \<or> v = ''yes'')"

definition ingest_all :: "(time \<times> string \<times> service_entry option) list \<Rightarrow> registry \<Rightarrow> registry" where
  "ingest_all found r = fold (\<lambda>(now, service, e) r. ingest now r service e) found r"

definition devices_handler :: handler where
  "devices_handler rio q sv =
     (let r = server_registry (sv_manager sv);
          r = (if wants_refresh (hq_refresh q) then ingest_all (rq_found rio) r else r)
      in ((200, Devices_Body (map new_device_view (registry_list (rq_rord rio) r))),
          on_manager (set_registry r (sv_manager sv)) sv))"

definition manual_address :: "string \<Rightarrow> int \<Rightarrow> string" where
  "manual_address address0 port =
     (let address = trim_space address0 in if port > 0 then address @ '':'' @ itoa port else address)"

definition add_manual_device :: handler where
  "add_manual_device rio q sv =
     (case hq_body q of
        None \<Rightarrow> (write_error 400 Invalid_Json, sv)
      | Some b \<Rightarrow>
          if trim_space (jb_address b) = [] then (write_error 400 (Missing ''address''), sv)
          else (case upsert_static (rq_lookup rio) (ki_now (rq_io rio)) (server_registry (sv_manager sv))
                       (manual_address (jb_address b) (jb_port b)) 7000 of
                  (r, Inl e) \<Rightarrow> (write_error 400 (Registry_Failure e), on_manager (set_registry r (sv_manager sv)) sv)
                | (r, Inr d) \<Rightarrow>
                    ((201, Device_Body (new_device_view d)), on_manager (set_registry r (sv_manager sv)) sv)))"

text \<open>
  \<open>getScheme\<close> of net/url.  A reference with a scheme, or with an empty one (a parse error), is kept
  as it is; what remains is parsed and resolved against the server's address by \<open>rq_relative\<close>,
  which gives \<open>None\<close> where net/url reports an error.
\<close>

fun has_scheme :: "bool \<Rightarrow> string \<Rightarrow> bool" where
  "has_scheme started [] = False"
| "has_scheme started (c # s) =
     (if is_upper c \<or> is_lower c then has_scheme True s
      else if is_digit c \<or> c \<in> {CHR ''+'', CHR ''-'', CHR ''.''} then started \<and> has_scheme True s
      else c = CHR '':'')"

definition resolve_stream_url :: "(string \<Rightarrow> string \<Rightarrow> string option) \<Rightarrow> server \<Rightarrow> string \<Rightarrow> string" where
  "resolve_stream_url relative sv raw0 =
     (let raw = trim_space raw0
      in if raw = [] then []
         else if has_scheme False raw \<or> sv_url sv = [] then raw
         else (case relative (sv_url sv @ ''/'') raw of None \<Rightarrow> raw | Some u \<Rightarrow> u))"

definition contains :: "string \<Rightarrow> string \<Rightarrow> bool" where
  "contains s sub = list_ex (\<lambda>t. prefix sub t) (suffixes s)"

text \<open>
  \<open>err.Error()\<close>.  The texts the bridge writes itself are spelled out; \<open>quote\<close> is the verb \<open>%q\<close>, and
  \<open>os_text\<close> gives the errors that only wrap what the operating system or the receiver said.
\<close>

definition codec_list_text :: "int list \<Rightarrow> string" where
  "codec_list_text cs = ''['' @ join '' '' (map itoa cs) @ '']''"

definition error_text :: "(engine_error \<Rightarrow> string) \<Rightarrow> (string \<Rightarrow> string) \<Rightarrow> engine_error \<Rightarrow> string" where
  "error_text os_text quote e =
     (case e of
        Not_Supported a \<Rightarrow> ''action not supported by this engine: '' @ a
      | No_Session \<Rightarrow> ''no active session for device''
      | No_Session_For d \<Rightarrow> ''no active session for device: '' @ d
      | Already_Active n \<Rightarrow> ''device already has an active session: '' @ n
      | Alac_Only n cs \<Rightarrow>
          ''receiver does not accept uncompressed L16 audio: '' @ n @ '' advertises RAOP codecs '' @ codec_list_text cs
          @ ''; install cliairplay or select the cliairplay engine''
      | Device_Not_Found d \<Rightarrow> ''device '' @ quote d @ '' not found''
      | Registry_Unavailable \<Rightarrow> ''device registry unavailable''
      | Binary_Not_Found p \<Rightarrow> ''cliairplay binary '' @ quote p @ '' not found''
      | Pipe_Not_Ready \<Rightarrow> ''cmdpipe not ready''
      | Kernel_Status s \<Rightarrow> s
      | _ \<Rightarrow> os_text e)"

definition play_error_status :: "(engine_error \<Rightarrow> string) \<Rightarrow> engine_error \<Rightarrow> int" where
  "play_error_status txt e =
     (case e of
        Already_Active _ \<Rightarrow> 409
      | Not_Supported _ \<Rightarrow> 501
      | _ \<Rightarrow> if contains (txt e) ''not found'' then 404 else 502)"

definition session_error_status :: "engine_error \<Rightarrow> int" where
  "session_error_status e =
     (case e of
        No_Session \<Rightarrow> 404
      | No_Session_For _ \<Rightarrow> 404
      | Not_Supported _ \<Rightarrow> 501
      | _ \<Rightarrow> 500)"

definition play_request_of :: "json_body \<Rightarrow> string \<Rightarrow> int \<Rightarrow> play_request" where
  "play_request_of b url track =
     \<lparr>stream_url = url, track_id = track, req_title = jb_title b, req_artist = jb_artist b, req_album = jb_album b,
      duration_ms = (if jb_duration_ms b < 0 then 0 else jb_duration_ms b),
      start_ms = (if jb_start_ms b < 0 then 0 else jb_start_ms b),
      req_volume = (case jb_volume b of None \<Rightarrow> -1 | Some v \<Rightarrow> v)\<rparr>"

definition play_handler :: handler where
  "play_handler rio q sv =
     (case Option.bind (hq_body q) (\<lambda>b. map_option (Pair b) (flexible_int64 (jb_track b))) of
        None \<Rightarrow> (write_error 400 Invalid_Json, sv)
      | Some (b, track) \<Rightarrow>
          if trim_space (jb_device_id b) = [] then (write_error 400 (Missing ''device_id''), sv)
          else if resolve_stream_url (rq_relative rio) sv (jb_stream_url b) = []
          then (write_error 400 (Missing ''stream_url''), sv)
          else (case manager_start (rq_io rio) (rq_env rio) (rq_probe rio) (rq_rord rio) (jb_device_id b)
                       (play_request_of b (resolve_stream_url (rq_relative rio) sv (jb_stream_url b)) track) (sv_manager sv) of
                  (Inl e, m) \<Rightarrow>
                    (write_error (play_error_status (error_text (rq_os_text rio) (rq_quote rio)) e) (Engine_Failure e), on_manager m sv)
                | (Inr st, m) \<Rightarrow> ((200, Play_Body (st_state st) (st_device_id st)), on_manager m sv)))"

definition control_handler :: handler where
  "control_handler rio q sv =
     (case hq_body q of
        None \<Rightarrow> (write_error 400 Invalid_Json, sv)
      | Some b \<Rightarrow>
          (let action = to_lower (trim_space (jb_action b))
           in if action \<noteq> action_pause \<and> action \<noteq> action_resume \<and> action \<noteq> action_stop \<and> action \<noteq> action_seek
              then (write_error 400 (Out_Of_Range ''action''), sv)
              else if action = action_seek \<and> jb_position_ms b < 0
              then (write_error 400 (Out_Of_Range ''position_ms''), sv)
              else (case manager_control (rq_io rio) (rq_rord rio) (rq_ord rio) (jb_device_id b) action (jb_position_ms b)
                           (sv_manager sv) of
                      (Inl e, m) \<Rightarrow> (write_error (session_error_status e) (Engine_Failure e), on_manager m sv)
                    | (Inr st, m) \<Rightarrow>
                        ((200, Control_Body (st_state st) (st_device_id st) (st_position_ms st)), on_manager m sv))))"

definition volume_handler :: handler where
  "volume_handler rio q sv =
     (case hq_body q of
        None \<Rightarrow> (write_error 400 Invalid_Json, sv)
      | Some b \<Rightarrow>
          (case jb_volume b of
             None \<Rightarrow> (write_error 400 (Missing ''volume''), sv)
           | Some v \<Rightarrow>
               if v < 0 \<or> v > 100 then (write_error 400 (Out_Of_Range ''volume''), sv)
               else (case manager_set_volume (rq_io rio) (rq_ord rio) (jb_device_id b) v (sv_manager sv) of
                       (Inl e, m) \<Rightarrow> (write_error (session_error_status e) (Engine_Failure e), on_manager m sv)
                     | (Inr st, m) \<Rightarrow> ((200, Volume_Body (st_volume st) (st_device_id st)), on_manager m sv))))"

definition idle_status :: "string \<Rightarrow> string \<Rightarrow> engine_error status" where
  "idle_status device_id kind =
     \<lparr>st_active = False, st_state = Stopped, st_device_id = device_id, st_device_name = [], st_track_id = 0,
      st_title = [], st_artist = [], st_album = [], st_duration_ms = 0, st_position_ms = 0, st_volume = 0,
      st_engine = kind, st_error = None, st_started_at = 0\<rparr>"

definition player_status :: handler where
  "player_status rio q sv =
     (let device_id = trim_space (hq_device_id q)
      in case manager_status (ki_now (rq_io rio)) (rq_ord rio) device_id (sv_manager sv) of
           Some st \<Rightarrow> ((200, Status_Body st), sv)
         | None \<Rightarrow>
             (case engine_name (rq_probe rio) (sv_manager sv) of (kind, m) \<Rightarrow>
                ((200, Status_Body (idle_status device_id kind)), on_manager m sv)))"

subsection \<open>Routing\<close>

text \<open>
  The pattern of the mux that a request matches.  A GET pattern also matches HEAD; a path that is
  registered for another method only is 405, any other path 404.
\<close>

definition get_route :: "string \<Rightarrow> handler option" where
  "get_route path =
     (if path = ''/healthz'' \<or> path = ''/api/healthz'' then Some healthz
      else if path = ''/api/status'' then Some (guard overview)
      else if path = ''/api/devices'' then Some (guard devices_handler)
      else if path = ''/api/player/status'' then Some (guard player_status)
      else None)"

definition post_route :: "string \<Rightarrow> handler option" where
  "post_route path =
     (if path = ''/api/devices/manual'' then Some (guard add_manual_device)
      else if path = ''/api/player/play'' then Some (guard play_handler)
      else if path = ''/api/player/control'' then Some (guard control_handler)
      else if path = ''/api/player/volume'' then Some (guard volume_handler)
      else None)"

definition route :: "string \<Rightarrow> string \<Rightarrow> int + handler" where
  "route method path =
     (case if method = ''GET'' \<or> method = ''HEAD'' then get_route path
           else if method = ''POST'' then post_route path else None of
        Some h \<Rightarrow> Inr h
      | None \<Rightarrow> Inl (if get_route path \<noteq> None \<or> post_route path \<noteq> None then 405 else 404))"

definition serve :: handler where
  "serve rio q sv =
     (if hq_method q = ''OPTIONS'' then ((204, No_Content), sv)
      else (case route (hq_method q) (hq_path q) of
              Inl code \<Rightarrow> ((code, No_Content), sv)
            | Inr h \<Rightarrow> h rio q sv))"

subsection \<open>Authorization\<close>

text \<open>
  C34: Without the token nothing happens.  When the bridge has a token, a request that does not carry
  it, in x-bridge-token or as a bearer token, reads nothing and changes nothing outside the health
  probe: a guarded handler answers 401, and the only other answers are those of the router.
\<close>

lemma unauthorized_request_harmless:
  assumes "sv_token sv \<noteq> []" "candidate_token q \<noteq> sv_token sv" "hq_path q \<notin> {''/healthz'', ''/api/healthz''}"
  shows "snd (serve rio q sv) = sv
       \<and> fst (serve rio q sv) \<in> {(204, No_Content), (401, Error_Body Unauthorized), (404, No_Content), (405, No_Content)}
       \<and> (\<forall>h. hq_method q \<noteq> ''OPTIONS'' \<and> route (hq_method q) (hq_path q) = Inr h \<longrightarrow>
            fst (serve rio q sv) = (401, Error_Body Unauthorized))"
proof -
  have no: "\<not> authorized sv q"
    using assms(1,2) by (auto simp: authorized_def)
  have g: "guard h rio q sv = ((401, Error_Body Unauthorized), sv)" for h
    using assms(1) no by (simp add: guard_def write_error_def)
  have "h rio q sv = ((401, Error_Body Unauthorized), sv)"
    if "get_route (hq_path q) = Some h \<or> post_route (hq_path q) = Some h" for h
    using that assms(3) g by (auto simp: get_route_def post_route_def split: if_splits)
  then have r: "h rio q sv = ((401, Error_Body Unauthorized), sv)" if "route (hq_method q) (hq_path q) = Inr h" for h
    using that by (auto simp: route_def split: option.splits if_splits)
  have "c \<in> {404, 405}" if "route (hq_method q) (hq_path q) = Inl c" for c
    using that by (auto simp: route_def split: option.splits if_splits)
  with r show ?thesis
    by (cases "route (hq_method q) (hq_path q)") (auto simp: serve_def)
qed

definition demo_server :: server where
  "demo_server = new_server 1 kitchen_manager ''s3cret'' ''http://10.0.0.2:8080/'' True"

definition empty_request :: http_request where
  "empty_request =
     \<lparr>hq_method = ''POST'', hq_path = ''/api/player/control'', hq_bridge_token = [], hq_authorization = ''Bearer guess'',
      hq_refresh = [], hq_device_id = [], hq_body = None\<rparr>"

definition demo_request_io :: request_io where
  "demo_request_io =
     \<lparr>rq_io = demo_io, rq_env = demo_env, rq_probe = (\<lambda>_. False), rq_rord = [''k''], rq_ord = [], rq_prune_rord = (\<lambda>_. []),
      rq_lookup = Some, rq_found = [], rq_relative = (\<lambda>base ref. Some (base @ ref)), rq_os_text = (\<lambda>_. []),
      rq_quote = (\<lambda>s. s)\<rparr>"

lemma unauthorized_request_harmless_witness:
  "snd (serve demo_request_io empty_request demo_server) = demo_server"
proof -
  have t: "sv_token demo_server = ''s3cret''"
    by (simp add: demo_server_def new_server_def trim_space_id edge_byte_def space_runes_def)
  have "candidate_token empty_request = ''guess''"
    by (simp add: candidate_token_def empty_request_def bearer_token_def trim_space_id edge_byte_def space_runes_def Let_def
        equal_fold_def)
  then show ?thesis
    using unauthorized_request_harmless [of demo_server empty_request demo_request_io] t
    by (simp add: empty_request_def)
qed

subsection \<open>Quoted integers\<close>

lemma unquote_plain:
  "CHR 0x22 \<notin> set s \<Longrightarrow> CHR 0x5C \<notin> set s \<Longrightarrow> unquote (s @ CHR 0x22 # r) = s"
  by (induction s) auto

text \<open>
  A track id may be a number or a string.  Every 64-bit integer is read back from its decimal
  form, bare as MarshalJSON writes it or in quotes, with white space inside the quotes; null and the
  empty string read as 0.
\<close>

lemma track_id_either_form:
  assumes "in_int64 i" "trim_space s = itoa i" "CHR 0x22 \<notin> set s" "CHR 0x5C \<notin> set s"
  shows "flexible_int64 (marshal_int64 i) = Some i
       \<and> flexible_int64 (CHR 0x22 # s @ [CHR 0x22]) = Some i
       \<and> flexible_int64 ''null'' = Some 0 \<and> flexible_int64 [CHR 0x22, CHR 0x22] = Some 0"
proof -
  have chars: "c \<in> set (itoa i) \<Longrightarrow> is_digit c \<or> c = CHR ''-''" for c
    by (rule set_itoa)
  then have "hd (itoa i) \<noteq> CHR 0x22" "itoa i \<noteq> ''null''"
    using chars [OF hd_in_set [OF itoa_nonempty]] chars [of "CHR ''n''"]
    by (auto simp del: hd_in_set simp: is_digit_def less_eq_char_simp)
  then have bare: "flexible_int64 (marshal_int64 i) = Some i"
    using assms(1) by (simp add: marshal_int64_def flexible_int64_def atoi_itoa Let_def)
  have q: "trim_space (CHR 0x22 # x @ [CHR 0x22]) = CHR 0x22 # x @ [CHR 0x22]" for x
    by (rule trim_space_id) (simp_all add: edge_byte_def space_runes_def)
  have "trim_space ''null'' = ''null''"
    by (rule trim_space_id) (simp_all add: edge_byte_def space_runes_def)
  then have nulls: "flexible_int64 ''null'' = Some 0" "flexible_int64 [CHR 0x22, CHR 0x22] = Some 0"
    using q [of "[]"] by (simp_all add: flexible_int64_def Let_def)
  have "flexible_int64 (CHR 0x22 # s @ [CHR 0x22]) = Some i"
    using assms by (simp add: flexible_int64_def q unquote_plain Let_def atoi_itoa)
  with bare nulls show ?thesis
    by blast
qed

lemma track_id_either_form_witness: "flexible_int64 (CHR 0x22 # itoa 4711 @ [CHR 0x22]) = Some 4711"
  using track_id_either_form [of 4711 "itoa 4711"]
  by (simp add: in_int64_def not_in_itoa is_digit_def less_eq_char_simp)

subsection \<open>Errors\<close>

lemma contains_mid: "contains (a @ sub @ b) sub"
  unfolding contains_def list_ex_iff by (rule bexI [of _ "sub @ b"]) (simp_all add: suffixI)

text \<open>
  A 404 does not mean that the device is unknown.  An unknown device is 404, but so are an
  external kernel that is not installed, a decoder that is not installed (the error of \<open>os/exec\<close>
  says not found), and a receiver without PCM whose own name contains the words.
\<close>

lemma play_404_ambiguous:
  assumes "os_text Decoder_Failed = a @ ''executable file not found'' @ b" "contains name ''not found''"
  shows "play_error_status (error_text os_text quote) (Device_Not_Found d) = 404
       \<and> play_error_status (error_text os_text quote) (Binary_Not_Found p) = 404
       \<and> play_error_status (error_text os_text quote) Decoder_Failed = 404
       \<and> play_error_status (error_text os_text quote) (Alac_Only name cs) = 404"
proof -
  have "contains (os_text Decoder_Failed) ''not found''"
    using contains_mid [of "a @ ''executable file ''" "''not found''" b] by (simp add: assms(1))
  moreover have "contains (''device '' @ quote d @ '' not found'') ''not found''"
    using contains_mid [of "''device '' @ quote d @ '' ''" "''not found''" "[]"] by simp
  moreover have "contains (''cliairplay binary '' @ quote p @ '' not found'') ''not found''"
    using contains_mid [of "''cliairplay binary '' @ quote p @ '' ''" "''not found''" "[]"] by simp
  moreover obtain t u where "name = t @ ''not found'' @ u"
    using assms(2) by (auto simp: contains_def list_ex_iff prefix_def suffix_def)
  then have "contains (error_text os_text quote (Alac_Only name cs)) ''not found''"
    using contains_mid [of "''receiver does not accept uncompressed L16 audio: '' @ t" "''not found''"
        "u @ '' advertises RAOP codecs '' @ codec_list_text cs @ ''; install cliairplay or select the cliairplay engine''"]
    by (simp add: error_text_def)
  ultimately show ?thesis
    by (simp add: play_error_status_def error_text_def)
qed

lemma play_404_ambiguous_witness:
  "play_error_status (error_text (\<lambda>_. ''start ffmpeg: executable file not found in PATH'') (\<lambda>s. s)) Decoder_Failed = 404"
  using play_404_ambiguous [of "\<lambda>_. ''start ffmpeg: executable file not found in PATH''" "''start ffmpeg: ''" "'' in PATH''"
      "''not found''" "\<lambda>s. s" "[]" "[]" "[]"] contains_mid [of "[]" "''not found''" "[]"]
  by simp

lemma native_control_supported:
  "a \<in> control_actions \<Longrightarrow> snd (native_control now spawn io a p n) \<noteq> Some (Not_Supported x)"
  by (auto simp: native_control_def native_seek_def control_actions_def Let_def split: option.split)

lemma command_supported: "cli_command ok t c = (c', Some e) \<Longrightarrow> e \<noteq> Not_Supported x"
  by (auto simp: cli_command_def pipe_write_def split: option.splits if_splits)

lemma cli_seek_supported: "snd (cli_seek now ms spawn ok p c) \<noteq> Some (Not_Supported x)"
  using command_supported unfolding cli_seek_def Let_def by (clarsimp split: option.splits prod.splits)

lemma cli_control_supported:
  assumes "a \<in> control_actions"
  shows "snd (cli_control now ms spawn ok a p c) \<noteq> Some (Not_Supported x)"
proof -
  have pair: "snd (case r of (c, Some e) \<Rightarrow> (c, Some e) | (c, None) \<Rightarrow> (f c, None)) = snd r" for r :: "cli \<times> engine_error option" and f
    by (simp split: prod.split option.split)
  have cmd: "snd (cli_command ok t c) \<noteq> Some (Not_Supported x)" for t
    using command_supported [of ok t c "fst (cli_command ok t c)" "Not_Supported x" x]
    by (cases "cli_command ok t c") auto
  have "a \<noteq> action_pause \<Longrightarrow> a \<noteq> action_resume \<Longrightarrow> a \<noteq> action_stop \<Longrightarrow> a = action_seek"
    using assms by (simp add: control_actions_def)
  then show ?thesis
    by (simp add: cli_control_def pair cmd cli_seek_supported)
qed

text \<open>
  The control endpoint never answers 501.  An action the engines do not know is refused as a
  bad request before any session is looked up, so the mapping of \<open>ErrNotSupported\<close> is unreachable
  there, and a refused request changes nothing.
\<close>

lemma control_never_unsupported:
  shows "fst (fst (control_handler rio q sv)) \<in> {200, 400, 404, 500}
       \<and> (fst (fst (control_handler rio q sv)) \<noteq> 400 \<or> snd (control_handler rio q sv) = sv)"
proof (cases "hq_body q")
  case None
  then show ?thesis
    by (simp add: control_handler_def write_error_def)
next
  case (Some b)
  define action where "action = to_lower (trim_space (jb_action b))"
  show ?thesis
  proof (cases "action \<in> control_actions \<and> \<not> (action = action_seek \<and> jb_position_ms b < 0)")
    case False
    then show ?thesis
      by (auto simp: control_handler_def Some write_error_def action_def [symmetric] control_actions_def)
  next
    case True
    obtain res m where m: "manager_control (rq_io rio) (rq_rord rio) (rq_ord rio) (jb_device_id b) action (jb_position_ms b)
        (sv_manager sv) = (res, m)"
      by fastforce
    have res: "e \<noteq> Not_Supported x" if e: "res = Inl e" for e x
    proof -
      have "snd (kernel_control (rq_io rio) action (jb_position_ms b) k) \<noteq> Some (Not_Supported x)" for k
        using True by (cases k) (simp_all add: native_control_supported cli_control_supported)
      then show ?thesis
        using m e by (auto simp: manager_control_def session_of_def split: sum.splits prod.splits option.splits if_splits)
           (metis snd_conv)+
    qed
    have h: "control_handler rio q sv =
        (case (res, m) of
           (Inl e, m) \<Rightarrow> (write_error (session_error_status e) (Engine_Failure e), on_manager m sv)
         | (Inr st, m) \<Rightarrow> ((200, Control_Body (st_state st) (st_device_id st) (st_position_ms st)), on_manager m sv))"
      using True by (auto simp: control_handler_def Some action_def [symmetric] m control_actions_def)
    show ?thesis
    proof (cases res)
      case (Inl e)
      have "session_error_status e \<in> {404, 500}"
        using res [OF Inl] unfolding session_error_status_def by (cases e) (simp_all, blast)
      then show ?thesis
        by (auto simp add: h Inl write_error_def)
    qed (simp add: h split: prod.split)
  qed
qed

subsection \<open>Addresses and volumes\<close>

lemma last_index_colon_app:
  assumes "CHR '':'' \<notin> set s"
  shows "last_index (CHR '':'') (a @ CHR '':'' # s) = Some (length a)"
proof -
  have "index_byte x (ys @ x # zs) = Some (length ys)" if "x \<notin> set ys" for x :: char and ys zs
    using that by (induction ys) auto
  from this [of "CHR '':''" "rev s" "rev a"] assms show ?thesis
    by (simp add: last_index_def)
qed

text \<open>
  The port given with an IPv6 address is lost.  The handler joins address and port by a colon
  without brackets, so what the registry is asked to add is a host that ends in the port, on the
  default port 7000.
\<close>

lemma manual_ipv6_port_lost:
  assumes "trim_space address = a @ '':'' @ b" "CHR ''['' \<notin> set (trim_space address)" "port > 0"
    and "trim_space (manual_address address port) = manual_address address port"
  shows "split_host_port (manual_address address port) 7000 = Inr (trim_space address @ '':'' @ itoa port, 7000)"
proof -
  let ?s = "manual_address address port"
  have s: "?s = trim_space address @ CHR '':'' # itoa port"
    using assms(3) by (simp add: manual_address_def)
  have "CHR '':'' \<notin> set (itoa port)"
    by (rule not_in_itoa) (simp_all add: is_digit_def less_eq_char_simp)
  then have li: "last_index (CHR '':'') ?s = Some (length (trim_space address))"
    unfolding s by (rule last_index_colon_app)
  have ne: "trim_space address \<noteq> []"
    using assms(1) by simp
  have "hd ?s \<noteq> CHR ''[''"
    unfolding s hd_append2 [OF ne] using assms(2) hd_in_set [OF ne] by metis
  moreover have "CHR '':'' \<in> set (take (length (trim_space address)) ?s)"
    using assms(1) by (simp add: s)
  ultimately have "net_split_host_port ?s = None"
    by (simp add: net_split_host_port_def li)
  then show ?thesis
    using s assms(4) by (simp add: split_host_port_def)
qed

lemma manual_ipv6_port_lost_witness:
  "split_host_port (manual_address ''fe80::1'' 5000) 7000 = Inr (''fe80::1:'' @ itoa 5000, 7000)"
proof -
  have t: "trim_space ''fe80::1'' = ''fe80::1''"
    by (rule trim_space_id) (simp_all add: edge_byte_def space_runes_def)
  have "trim_space (''fe80::1:'' @ itoa 5000) = ''fe80::1:'' @ itoa 5000"
    by (rule trim_space_id) (simp_all add: edge_byte_def space_runes_def itoa_def nat_str.simps digit_char_def)
  then show ?thesis
    using manual_ipv6_port_lost [of "''fe80::1''" "''fe80''" "'':1''" 5000] t
    by (simp add: manual_address_def)
qed

text \<open>
  A volume request is recorded whatever the receiver says.  Outside 0..100 it is refused and
  changes nothing.  Inside, the session it addresses reports that volume from then on, the answer
  being either 200 with that volume or the status of the kernel's error, and no other session and no
  device is touched.
\<close>

lemma volume_request_applied:
  assumes "hq_body q = Some b" "jb_volume b = Some v"
  shows "(v < 0 \<or> 100 < v \<longrightarrow> volume_handler rio q sv = ((400, Error_Body (Out_Of_Range ''volume'')), sv))
       \<and> (0 \<le> v \<and> v \<le> 100 \<and> session_of (rq_ord rio) (jb_device_id b) (sv_manager sv) = Inr (key, s)
          \<and> mg_sessions (sv_manager sv) key = Some s \<longrightarrow>
            (\<exists>k rsp. volume_handler rio q sv =
               (rsp, sv\<lparr>sv_manager := (sv_manager sv)\<lparr>mg_sessions := (mg_sessions (sv_manager sv))(key \<mapsto> s\<lparr>ms_engine := k\<rparr>)\<rparr>\<rparr>)
             \<and> (\<forall>t. st_volume (kernel_status t k) = v)
             \<and> (rsp = (200, Volume_Body v (st_device_id (kernel_status (ki_now (rq_io rio)) k)))
                \<or> fst rsp \<in> {404, 500, 501})))"
proof (intro conjI impI)
  assume "v < 0 \<or> 100 < v"
  then show "volume_handler rio q sv = ((400, Error_Body (Out_Of_Range ''volume'')), sv)"
    by (simp add: volume_handler_def assms write_error_def)
next
  assume h: "0 \<le> v \<and> v \<le> 100 \<and> session_of (rq_ord rio) (jb_device_id b) (sv_manager sv) = Inr (key, s)
          \<and> mg_sessions (sv_manager sv) key = Some s"
  obtain k err where k: "kernel_set_volume (rq_io rio) v (ms_engine s) = (k, err)"
    by fastforce
  have vol: "st_volume (kernel_status t k) = v" for t
    using kernel.volume_kept [of t "rq_io rio" v "ms_engine s"] h by (simp add: k clamp_percent_def)
  have upd: "update_engine key k (sv_manager sv) =
      (sv_manager sv)\<lparr>mg_sessions := (mg_sessions (sv_manager sv))(key \<mapsto> s\<lparr>ms_engine := k\<rparr>)\<rparr>"
    using h by (simp add: update_engine_def)
  let ?rsp = "case err of None \<Rightarrow> (200, Volume_Body v (st_device_id (kernel_status (ki_now (rq_io rio)) k)))
                | Some e \<Rightarrow> write_error (session_error_status e) (Engine_Failure e)"
  have "volume_handler rio q sv = (?rsp, on_manager (update_engine key k (sv_manager sv)) sv)"
    using h by (simp add: volume_handler_def assms manager_set_volume_def k vol split: option.split)
  moreover have "?rsp = (200, Volume_Body v (st_device_id (kernel_status (ki_now (rq_io rio)) k))) \<or> fst ?rsp \<in> {404, 500, 501}"
    by (simp add: write_error_def session_error_status_def split: option.split engine_error.split)
  ultimately show "\<exists>k rsp. volume_handler rio q sv =
               (rsp, sv\<lparr>sv_manager := (sv_manager sv)\<lparr>mg_sessions := (mg_sessions (sv_manager sv))(key \<mapsto> s\<lparr>ms_engine := k\<rparr>)\<rparr>\<rparr>)
             \<and> (\<forall>t. st_volume (kernel_status t k) = v)
             \<and> (rsp = (200, Volume_Body v (st_device_id (kernel_status (ki_now (rq_io rio)) k)))
                \<or> fst rsp \<in> {404, 500, 501})"
    using vol by (intro exI [of _ k] exI [of _ ?rsp]) (simp only: upd on_manager_def, simp)
qed

definition volume_request :: http_request where
  "volume_request =
     empty_request\<lparr>hq_body := Some \<lparr>jb_device_id = ''k'', jb_stream_url = [], jb_track = [], jb_title = [], jb_artist = [],
       jb_album = [], jb_duration_ms = 0, jb_start_ms = 0, jb_volume = Some 35, jb_action = [], jb_position_ms = 0,
       jb_address = [], jb_port = 0\<rparr>\<rparr>"

lemma volume_request_applied_witness:
  "\<exists>k. (\<forall>t. st_volume (kernel_status t k) = 35)
     \<and> sv_manager (snd (volume_handler (demo_request_io\<lparr>rq_ord := [''k'']\<rparr>) volume_request (demo_server\<lparr>sv_manager := busy_manager\<rparr>)))
       = busy_manager\<lparr>mg_sessions := [''k'' \<mapsto> kitchen_session\<lparr>ms_engine := k\<rparr>]\<rparr>"
proof -
  have "session_of [''k''] ''k'' busy_manager = Inr (''k'', kitchen_session)"
    by (simp add: session_of_def find_session_def busy_manager_def)
  then show ?thesis
    using volume_request_applied [of volume_request "the (hq_body volume_request)" 35
        "demo_request_io\<lparr>rq_ord := [''k'']\<rparr>" "demo_server\<lparr>sv_manager := busy_manager\<rparr>" "''k''" kitchen_session]
    by (auto simp: volume_request_def busy_manager_def)
qed

text \<open>The zero time of Go and a date past a leap day.\<close>

lemma rfc3339_examples:
  "rfc3339 0 = ''0001-01-01T00:00:00Z''"
  "rfc3339 (1709251199 * 1000000000 + 62135596800 * 1000000000) = ''2024-02-29T23:59:59Z''"
  by code_simp+

end
