(* ===== verification/Bridge.thy ===== *)
theory Bridge
  imports Api
begin

text \<open>
  The process, cmd/bridge/main.go: the wiring of the components, and the sources of work that run
  beside each other once it is up: HTTP requests, mDNS announcements, the sweep and the reap ticker,
  what happens to the kernels, and the signal that ends it.  Each of them is one event here; the
  locks of the registry and of the manager make its accesses to shared state atomic.
\<close>

subsection \<open>Start-up\<close>

definition manager_config_of :: "bridge_config \<Rightarrow> string \<Rightarrow> manager_config" where
  "manager_config_of c publish_ip =
     \<lparr>mc_engine = engine_text (bc_engine c), mc_cli_path = bc_cli_path c, mc_ffmpeg = bc_ffmpeg c, mc_rate = bc_rate c,
      mc_channels = bc_channels c, mc_depth = bc_depth c, mc_latency = bc_latency c, mc_iface = bc_iface c,
      mc_publish = publish_ip, mc_protocol = bc_protocol c, mc_default_volume = bc_volume c, mc_headers = []\<rparr>"

text \<open>An entry that is refused is only logged.\<close>

definition register_static :: "(string \<Rightarrow> string option) \<Rightarrow> time \<Rightarrow> string list \<Rightarrow> registry \<Rightarrow> registry" where
  "register_static resolve now entries r = fold (\<lambda>entry r. fst (upsert_static resolve now r entry 7000)) entries r"

datatype phase = Running | Draining

record bridge =
  br_server :: server
  br_phase :: phase
  br_addr :: string

definition boot :: "environment \<Rightarrow> (string \<Rightarrow> string option) \<Rightarrow> time \<Rightarrow> config_error + bridge" where
  "boot env resolve now =
     (case load_config env of
        (Some e, _) \<Rightarrow> Inl e
      | (None, c) \<Rightarrow>
          (let m = new_manager (Some (new_registry (bc_ttl c))) (manager_config_of c (env ''BRIDGE_PUBLISH_IP''));
               m = set_registry (register_static resolve now (bc_static c) (server_registry m)) m
           in Inr \<lparr>br_server = new_server now m (bc_token c) (bc_server_url c) (bc_discovery c), br_phase = Running,
                   br_addr = addr c\<rparr>))"

definition sweep_interval :: "duration \<Rightarrow> duration" where
  "sweep_interval ttl = (let interval = go_div ttl 4 in if interval < second then 5 * second else interval)"

subsection \<open>Running\<close>

text \<open>
  The signal stops the tickers and the browser and shuts the manager down; the HTTP server goes on
  answering the requests it has accepted.
\<close>

datatype bridge_event =
    Http_Request request_io http_request
  | Announcement time string "service_entry option"
  | Sweep_Tick time "string list"
  | Reap_Tick time "string \<Rightarrow> string list" "string list"
  | Kernel_Event string kernel_event
  | Signal kernel_io "string \<Rightarrow> string list" "string list"

definition br_manager :: "bridge \<Rightarrow> manager" where
  "br_manager b = sv_manager (br_server b)"

definition with_manager :: "(manager \<Rightarrow> manager) \<Rightarrow> bridge \<Rightarrow> bridge" where
  "with_manager f b = b\<lparr>br_server := (br_server b)\<lparr>sv_manager := f (sv_manager (br_server b))\<rparr>\<rparr>"

definition with_registry :: "(registry \<Rightarrow> registry) \<Rightarrow> bridge \<Rightarrow> bridge" where
  "with_registry f b = with_manager (\<lambda>m. set_registry (f (server_registry m)) m) b"

definition discovering :: "bridge \<Rightarrow> bool" where
  "discovering b \<longleftrightarrow> br_phase b = Running \<and> sv_discovery (br_server b)"

fun bridge_step :: "bridge_event \<Rightarrow> bridge \<Rightarrow> bridge" where
  "bridge_step (Http_Request rio q) b = b\<lparr>br_server := snd (serve rio q (br_server b))\<rparr>"
| "bridge_step (Announcement now service e) b =
     (if discovering b then with_registry (\<lambda>r. ingest now r service e) b else b)"
| "bridge_step (Sweep_Tick now ord) b = (if discovering b then with_registry (\<lambda>r. fst (sweep now ord r)) b else b)"
| "bridge_step (Reap_Tick now rord ord) b =
     (if br_phase b = Running then with_manager (prune now rord ord) b else b)"
| "bridge_step (Kernel_Event key e) b = with_manager (session_event key e) b"
| "bridge_step (Signal io rord ord) b =
     (if br_phase b = Running then with_manager (\<lambda>m. fst (shutdown io rord ord m)) (b\<lparr>br_phase := Draining\<rparr>) else b)"

subsection \<open>How the registry may change\<close>

definition removes :: "registry_op \<Rightarrow> bool" where
  "removes a \<longleftrightarrow> (case a of Op_Sweep _ _ \<Rightarrow> True | _ \<Rightarrow> False)"

text \<open>From one registry to another by operations of which only sweeps, if any are allowed, remove entries.\<close>

definition evolves :: "bool \<Rightarrow> registry \<Rightarrow> registry \<Rightarrow> bool" where
  "evolves may_remove r r' \<longleftrightarrow>
     (\<exists>ops. r' = fold registry_step ops r \<and> (may_remove \<or> (\<forall>a \<in> set ops. \<not> removes a)))"

lemma evolves_refl [simp]: "evolves x r r"
  unfolding evolves_def by (rule exI [of _ "[]"]) simp

lemma evolves_trans: "evolves x r s \<Longrightarrow> evolves x s t \<Longrightarrow> evolves x r t"
  unfolding evolves_def
proof (elim exE conjE)
  fix as bs
  assume "s = fold registry_step as r" "x \<or> (\<forall>a \<in> set as. \<not> removes a)"
    "t = fold registry_step bs s" "x \<or> (\<forall>a \<in> set bs. \<not> removes a)"
  then show "\<exists>ops. t = fold registry_step ops r \<and> (x \<or> (\<forall>a \<in> set ops. \<not> removes a))"
    by (intro exI [of _ "as @ bs"]) auto
qed

lemma evolves_step: "x \<or> \<not> removes a \<Longrightarrow> evolves x r (registry_step a r)"
  unfolding evolves_def by (rule exI [of _ "[a]"]) auto

lemma evolves_ops [simp]:
  "evolves x r (set_busy ord r i b)" "evolves x r (fst (upsert now r obs))"
  "evolves x r (fst (upsert_static resolve now r address port))" "evolves True r (fst (sweep now ord r))"
  using evolves_step [of x "Op_Busy ord i b" r] evolves_step [of x "Op_Upsert now obs" r]
    evolves_step [of x "Op_Static resolve now address port" r] evolves_step [of True "Op_Sweep now ord" r]
  by (simp_all add: removes_def)

lemma evolves_weaken: "evolves False r r' \<Longrightarrow> evolves x r r'"
  by (auto simp: evolves_def)

lemma evolves_ingest [simp]: "evolves x r (ingest now r service e)"
  by (simp add: ingest_def split: option.split)

lemma evolves_fold: "(\<And>a r. evolves x r (f a r)) \<Longrightarrow> evolves x r (fold f as r)"
  by (induction as arbitrary: r) (simp, metis evolves_trans fold_simps(2))

lemma evolves_inv: "evolves x r r' \<Longrightarrow> registry_inv r \<Longrightarrow> registry_inv r'"
  by (auto simp: evolves_def registry.run_inv)

lemma registry_step_dom: "\<not> removes a \<Longrightarrow> dom (devices r) \<subseteq> dom (devices (registry_step a r))"
  by (cases a) (auto simp: removes_def upsert_eq upsert_static_def split: sum.split prod.split option.split)

lemma evolves_dom: "evolves False r r' \<Longrightarrow> dom (devices r) \<subseteq> dom (devices r')"
proof -
  have "\<forall>a \<in> set ops. \<not> removes a \<Longrightarrow> dom (devices r) \<subseteq> dom (devices (fold registry_step ops r))" for ops r
    by (induction ops arbitrary: r) (simp, metis fold_simps(2) list.set_intros registry_step_dom subset_trans)
  then show "evolves False r r' \<Longrightarrow> dom (devices r) \<subseteq> dom (devices r')"
    unfolding evolves_def by metis
qed

text \<open>A manager whose registry evolved so, and whose invariant was kept.\<close>

definition progresses :: "bool \<Rightarrow> manager \<Rightarrow> manager \<Rightarrow> bool" where
  "progresses x m m' \<longleftrightarrow>
     (\<forall>r. mg_registry m = Some r \<longrightarrow> (\<exists>r'. mg_registry m' = Some r' \<and> evolves x r r'))
     \<and> (manager_inv m \<longrightarrow> manager_inv m')"

lemma progresses_refl [simp]: "progresses x m m"
  by (simp add: progresses_def)

lemma progresses_trans: "progresses x l m \<Longrightarrow> progresses x m n \<Longrightarrow> progresses x l n"
  unfolding progresses_def by (meson evolves_trans)

lemma progresses_weaken: "progresses False m m' \<Longrightarrow> progresses x m m'"
  unfolding progresses_def by (meson evolves_weaken)

lemma progresses_same: "mg_registry m' = mg_registry m \<Longrightarrow> (manager_inv m \<Longrightarrow> manager_inv m') \<Longrightarrow> progresses x m m'"
  by (simp add: progresses_def)

lemma manager_inv_registry [simp]: "manager_inv (m\<lparr>mg_registry := r\<rparr>) = manager_inv m"
  by (simp add: manager_inv_def)

lemma progresses_busy:
  "mg_registry m' = mg_registry (mg_busy rord i b m) \<Longrightarrow> (manager_inv m \<Longrightarrow> manager_inv m') \<Longrightarrow> progresses x m m'"
  by (simp add: progresses_def mg_busy_def)

lemma progresses_registry:
  assumes "\<And>r. evolves x r (f r)"
  shows "progresses x m (set_registry (f (server_registry m)) m)"
  using assms by (auto simp: progresses_def set_registry_def server_registry_def manager_inv_def)

lemma start_progresses: "progresses x m (snd (manager_start io env probe rord i req m))"
proof (cases "resolve_target rord i m")
  case (Inl e)
  then show ?thesis
    by (simp add: manager_start_def)
next
  case (Inr t)
  obtain res m1 where c: "start_check (ki_now io) probe t m = (res, m1)"
    by fastforce
  have reg: "mg_registry m1 = mg_registry m"
    using c by (rule start_check_cases) simp_all
  have inv: "manager_inv m \<Longrightarrow> manager_inv (snd (manager_start io env probe rord i req m))"
    by (rule manager_start_inv)
  show ?thesis
  proof (cases res)
    case (Inl e)
    then show ?thesis
      using inv reg Inr by (intro progresses_same) (simp_all add: manager_start_def c)
  next
    case kind: (Inr kind)
    show ?thesis
    proof (cases "start_kernel io env (mg_config m1) kind t req")
      case (Inl e)
      then show ?thesis
        using inv reg Inr kind by (intro progresses_same) (simp_all add: manager_start_def c split: prod.split)
    next
      case k: (Inr k)
      then show ?thesis
        using inv reg Inr kind
        by (intro progresses_busy [where rord = rord and i = "tg_id t" and b = True])
          (simp_all add: manager_start_def c start_commit_def mg_busy_def)
    qed
  qed
qed

lemma control_progresses: "progresses x m (snd (manager_control io rord ord i action pos m))"
proof (cases "session_of ord i m")
  case (Inl e)
  then show ?thesis
    by (simp add: manager_control_def)
next
  case (Inr ks)
  obtain key s where ks: "ks = (key, s)"
    by fastforce
  obtain k err where k: "kernel_control io action pos (ms_engine s) = (k, err)"
    by fastforce
  have inv: "manager_inv m \<Longrightarrow> manager_inv (snd (manager_control io rord ord i action pos m))"
    by (rule manager_control_inv)
  show ?thesis
  proof (cases "err = None \<and> action = action_stop \<and> mg_sessions (update_engine key k m) (tg_id (ms_target s)) \<noteq> None")
    case True
    then have "mg_registry (snd (manager_control io rord ord i action pos m))
        = mg_registry (mg_busy rord (tg_id (ms_target s)) False m)"
      using k by (simp add: manager_control_def Inr ks forget_def) (auto simp: mg_busy_def update_engine_def)
    then show ?thesis
      using inv by (rule progresses_busy)
  next
    case False
    then have "mg_registry (snd (manager_control io rord ord i action pos m)) = mg_registry m"
      by (auto simp: manager_control_def Inr ks k forget_def update_engine_def split: option.split)
    then show ?thesis
      using inv by (rule progresses_same)
  qed
qed

lemma volume_progresses: "progresses x m (snd (manager_set_volume io ord i v m))"
  using manager_volume_inv [of m io ord i v]
  by (intro progresses_same) (auto simp: manager_set_volume_def update_engine_def split: sum.split prod.split option.split)

lemma prune_progresses: "progresses x m (prune now rord ord m)"
proof -
  have "progresses x m (prune_one now rord key m)" for key m
  proof (cases "\<exists>s. mg_sessions m key = Some s \<and> terminal now s")
    case True
    then have p: "prune_one now rord key m = mg_busy (rord key) key False (m\<lparr>mg_sessions := (mg_sessions m)(key := None)\<rparr>)"
      by (auto simp: prune_one_def)
    show ?thesis
      unfolding p using manager_inv_drop [of m key]
      by (intro progresses_busy [where rord = "rord key" and i = key and b = False]) (simp_all add: mg_busy_def)
  next
    case False
    then show ?thesis
      by (auto simp: prune_one_def split: option.split)
  qed
  then have "progresses x m (fold (prune_one now rord) ord m)"
    by (induction ord arbitrary: m) (simp, metis progresses_trans fold_simps(2))
  then show ?thesis
    by (simp add: prune_def)
qed

lemma shutdown_progresses: "progresses x m (fst (shutdown io rord ord m))"
proof -
  have "progresses x m (fold (\<lambda>s. mg_busy (f s) (g s) b) ss m)" for f g b and ss :: "managed_session list" and m
  proof (induction ss arbitrary: m)
    case (Cons s ss)
    have "progresses x m (mg_busy (f s) (g s) b m)"
      by (rule progresses_busy [OF refl]) simp
    from progresses_trans [OF this Cons.IH] show ?case
      by simp
  qed simp
  moreover have "progresses x m (m\<lparr>mg_sessions := Map.empty\<rparr>)"
    by (intro progresses_same) (simp_all add: manager_inv_def)
  ultimately show ?thesis
    unfolding shutdown_def Let_def fst_conv by (meson progresses_trans)
qed

lemma engine_name_progresses: "progresses x m (snd (engine_name probe m))"
proof -
  obtain kind m' where k: "resolve_kind probe m = (kind, m')"
    by fastforce
  from resolve_kind_other [OF k] show ?thesis
    unfolding engine_name_def k by (intro progresses_same) (simp_all add: manager_inv_def)
qed

lemma session_event_progresses: "progresses x m (session_event key e m)"
proof (rule progresses_same)
  show "mg_registry (session_event key e m) = mg_registry m"
    by (cases "mg_sessions m key") (simp_all add: session_event_def update_engine_def)
qed (rule session_event_inv)

subsection \<open>Requests\<close>

text \<open>What every handler does to the server: it replaces the manager by one that progressed.\<close>

definition tame :: "handler \<Rightarrow> bool" where
  "tame h \<longleftrightarrow> (\<forall>rio q sv. \<exists>m. snd (h rio q sv) = on_manager m sv \<and> progresses False (sv_manager sv) m)"

lemma on_manager_same [simp]: "on_manager (sv_manager sv) sv = sv"
  by (simp add: on_manager_def)

lemma tame_same: "snd (h rio q sv) = sv \<Longrightarrow> \<exists>m. snd (h rio q sv) = on_manager m sv \<and> progresses False (sv_manager sv) m"
  by (rule exI [of _ "sv_manager sv"]) simp

lemma tame_guard: "tame h \<Longrightarrow> tame (guard h)"
  unfolding tame_def
proof (intro allI)
  fix rio :: request_io and q :: http_request and sv :: server
  assume h: "\<forall>rio q sv. \<exists>m. snd (h rio q sv) = on_manager m sv \<and> progresses False (sv_manager sv) m"
  show "\<exists>m. snd (guard h rio q sv) = on_manager m sv \<and> progresses False (sv_manager sv) m"
  proof (cases "sv_token sv \<noteq> [] \<and> \<not> authorized sv q")
    case True
    then show ?thesis
      by (intro tame_same) (simp add: guard_def)
  next
    case False
    then have "guard h rio q sv = h rio q sv"
      by (auto simp: guard_def)
    with h show ?thesis
      by simp
  qed
qed

lemma tame_healthz: "tame healthz"
  unfolding tame_def
proof (intro allI)
  fix rio :: request_io and q :: http_request and sv :: server
  show "\<exists>m. snd (healthz rio q sv) = on_manager m sv \<and> progresses False (sv_manager sv) m"
    using engine_name_progresses [of False "sv_manager sv" "rq_probe rio"]
    by (intro exI [of _ "snd (engine_name (rq_probe rio) (sv_manager sv))"]) (simp add: healthz_def split: prod.split)
qed

lemma tame_overview: "tame overview"
  unfolding tame_def
proof (intro allI)
  fix rio :: request_io and q :: http_request and sv :: server
  obtain kind m1 where k: "engine_name (rq_probe rio) (sv_manager sv) = (kind, m1)"
    by fastforce
  let ?m = "prune (ki_now (rq_io rio)) (rq_prune_rord rio) (rq_ord rio) m1"
  have "snd (overview rio q sv) = on_manager ?m sv"
    by (simp add: overview_def k active_sessions_def Let_def)
  moreover have "progresses False (sv_manager sv) ?m"
    using engine_name_progresses [of False "sv_manager sv" "rq_probe rio"] prune_progresses
    by (metis k progresses_trans snd_conv)
  ultimately show "\<exists>m. snd (overview rio q sv) = on_manager m sv \<and> progresses False (sv_manager sv) m"
    by blast
qed

lemma tame_devices: "tame devices_handler"
  unfolding tame_def
proof (intro allI)
  fix rio :: request_io and q :: http_request and sv :: server
  let ?f = "\<lambda>r. if wants_refresh (hq_refresh q) then ingest_all (rq_found rio) r else r"
  have "evolves False r (?f r)" for r
    by (simp add: ingest_all_def) (rule impI, rule evolves_fold, simp split: prod.split)
  from progresses_registry [of False ?f, OF this]
  show "\<exists>m. snd (devices_handler rio q sv) = on_manager m sv \<and> progresses False (sv_manager sv) m"
    by (intro exI [of _ "set_registry (?f (server_registry (sv_manager sv))) (sv_manager sv)"])
      (simp add: devices_handler_def Let_def)
qed

lemma tame_manual: "tame add_manual_device"
  unfolding tame_def
proof (intro allI)
  fix rio :: request_io and q :: http_request and sv :: server
  show "\<exists>m. snd (add_manual_device rio q sv) = on_manager m sv \<and> progresses False (sv_manager sv) m"
  proof (cases "hq_body q")
    case None
    then show ?thesis
      by (intro tame_same) (simp add: add_manual_device_def)
  next
    case (Some b)
    let ?f = "\<lambda>r. fst (upsert_static (rq_lookup rio) (ki_now (rq_io rio)) r (manual_address (jb_address b) (jb_port b)) 7000)"
    let ?m = "set_registry (?f (server_registry (sv_manager sv))) (sv_manager sv)"
    show ?thesis
    proof (cases "trim_space (jb_address b) = []")
      case True
      with Some show ?thesis
        by (intro tame_same) (simp add: add_manual_device_def)
    next
      case False
      then have "snd (add_manual_device rio q sv) = on_manager ?m sv"
        by (simp add: add_manual_device_def Some split: prod.split sum.split)
      moreover have "progresses False (sv_manager sv) ?m"
        using progresses_registry [of False ?f] by simp
      ultimately show ?thesis
        by blast
    qed
  qed
qed

lemma tame_play: "tame play_handler"
  unfolding tame_def
proof (intro allI)
  fix rio :: request_io and q :: http_request and sv :: server
  show "\<exists>m. snd (play_handler rio q sv) = on_manager m sv \<and> progresses False (sv_manager sv) m"
  proof (cases "\<exists>b track. Option.bind (hq_body q) (\<lambda>b. map_option (Pair b) (flexible_int64 (jb_track b))) = Some (b, track)
        \<and> trim_space (jb_device_id b) \<noteq> [] \<and> resolve_stream_url (rq_relative rio) sv (jb_stream_url b) \<noteq> []")
    case True
    then obtain b track where b: "Option.bind (hq_body q) (\<lambda>b. map_option (Pair b) (flexible_int64 (jb_track b))) = Some (b, track)"
      "trim_space (jb_device_id b) \<noteq> []" "resolve_stream_url (rq_relative rio) sv (jb_stream_url b) \<noteq> []"
      by blast
    let ?m = "snd (manager_start (rq_io rio) (rq_env rio) (rq_probe rio) (rq_rord rio) (jb_device_id b)
                       (play_request_of b (resolve_stream_url (rq_relative rio) sv (jb_stream_url b)) track) (sv_manager sv))"
    have "snd (play_handler rio q sv) = on_manager ?m sv"
      using b by (simp add: play_handler_def split: prod.split sum.split)
    with start_progresses show ?thesis
      by blast
  next
    case False
    then show ?thesis
      by (intro tame_same) (auto simp: play_handler_def split: option.split)
  qed
qed

lemma tame_control: "tame control_handler"
  unfolding tame_def
proof (intro allI)
  fix rio :: request_io and q :: http_request and sv :: server
  show "\<exists>m. snd (control_handler rio q sv) = on_manager m sv \<and> progresses False (sv_manager sv) m"
  proof (cases "hq_body q")
    case None
    then show ?thesis
      by (intro tame_same) (simp add: control_handler_def)
  next
    case (Some b)
    let ?a = "to_lower (trim_space (jb_action b))"
    let ?m = "snd (manager_control (rq_io rio) (rq_rord rio) (rq_ord rio) (jb_device_id b) ?a (jb_position_ms b) (sv_manager sv))"
    have "snd (control_handler rio q sv) = sv \<or> snd (control_handler rio q sv) = on_manager ?m sv"
      by (simp add: control_handler_def Some Let_def split: prod.split sum.split)
    with control_progresses show ?thesis
      by (metis tame_same)
  qed
qed

lemma tame_volume: "tame volume_handler"
  unfolding tame_def
proof (intro allI)
  fix rio :: request_io and q :: http_request and sv :: server
  show "\<exists>m. snd (volume_handler rio q sv) = on_manager m sv \<and> progresses False (sv_manager sv) m"
  proof (cases "\<exists>b v. hq_body q = Some b \<and> jb_volume b = Some v \<and> \<not> (v < 0 \<or> v > 100)")
    case True
    then obtain b v where b: "hq_body q = Some b" "jb_volume b = Some v" "\<not> (v < 0 \<or> v > 100)"
      by blast
    let ?m = "snd (manager_set_volume (rq_io rio) (rq_ord rio) (jb_device_id b) v (sv_manager sv))"
    have "snd (volume_handler rio q sv) = on_manager ?m sv"
      using b by (simp add: volume_handler_def split: prod.split sum.split)
    with volume_progresses show ?thesis
      by blast
  next
    case False
    then show ?thesis
      by (intro tame_same) (auto simp: volume_handler_def split: option.split)
  qed
qed

lemma tame_status: "tame player_status"
  unfolding tame_def
proof (intro allI)
  fix rio :: request_io and q :: http_request and sv :: server
  show "\<exists>m. snd (player_status rio q sv) = on_manager m sv \<and> progresses False (sv_manager sv) m"
    using engine_name_progresses [of False "sv_manager sv" "rq_probe rio"]
      tame_same [of player_status rio q sv]
    by (cases "manager_status (ki_now (rq_io rio)) (rq_ord rio) (trim_space (hq_device_id q)) (sv_manager sv)")
      (auto simp: player_status_def Let_def split: prod.split)
qed

lemmas tame_handlers = tame_healthz tame_overview tame_devices tame_manual tame_play tame_control tame_volume tame_status

lemma tame_route: "route method path = Inr h \<Longrightarrow> tame h"
  using tame_handlers tame_guard
  by (auto simp: route_def get_route_def post_route_def split: if_splits option.splits)

lemma tame_serve: "tame serve"
  unfolding tame_def
proof (intro allI)
  fix rio :: request_io and q :: http_request and sv :: server
  show "\<exists>m. snd (serve rio q sv) = on_manager m sv \<and> progresses False (sv_manager sv) m"
  proof (cases "route (hq_method q) (hq_path q)")
    case (Inl code)
    then show ?thesis
      by (intro tame_same) (simp add: serve_def)
  next
    case (Inr h)
    show ?thesis
    proof (cases "hq_method q = ''OPTIONS''")
      case True
      then show ?thesis
        by (intro tame_same) (simp add: serve_def)
    next
      case False
      then have "serve rio q sv = h rio q sv"
        using Inr by (simp add: serve_def)
      with tame_route [OF Inr] show ?thesis
        by (simp add: tame_def)
    qed
  qed
qed

subsection \<open>Every run of the bridge\<close>

definition br_registry :: "bridge \<Rightarrow> registry" where
  "br_registry b = server_registry (br_manager b)"

lemma with_registry_progresses:
  "(\<And>r. evolves x r (f r)) \<Longrightarrow> progresses x (br_manager b) (br_manager (with_registry f b))"
  by (simp add: with_registry_def with_manager_def br_manager_def progresses_registry)

lemma bridge_progresses:
  "progresses (sv_discovery (br_server b)) (br_manager b) (br_manager (bridge_step e b))
   \<and> sv_token (br_server (bridge_step e b)) = sv_token (br_server b)
   \<and> sv_discovery (br_server (bridge_step e b)) = sv_discovery (br_server b)"
proof (cases e)
  case (Http_Request rio q)
  obtain m where "snd (serve rio q (br_server b)) = on_manager m (br_server b)" "progresses False (sv_manager (br_server b)) m"
    using tame_serve unfolding tame_def by blast
  then show ?thesis
    by (simp add: Http_Request br_manager_def on_manager_def progresses_weaken)
next
  case (Announcement now service e)
  then show ?thesis
    using with_registry_progresses [of "sv_discovery (br_server b)" "\<lambda>r. ingest now r service e" b]
    by (simp add: with_registry_progresses) (simp add: with_registry_def with_manager_def)
next
  case (Sweep_Tick now ord)
  then show ?thesis
    using with_registry_progresses [of True "\<lambda>r. fst (sweep now ord r)" b]
    by (simp add: discovering_def) (simp add: with_registry_def with_manager_def)
next
  case (Reap_Tick now rord ord)
  then show ?thesis
    using prune_progresses by (simp add: with_manager_def br_manager_def)
next
  case (Kernel_Event key e)
  then show ?thesis
    using session_event_progresses by (simp add: with_manager_def br_manager_def)
next
  case (Signal io rord ord)
  then show ?thesis
    using shutdown_progresses by (simp add: with_manager_def br_manager_def)
qed

definition bridge_inv :: "bridge \<Rightarrow> bool" where
  "bridge_inv b \<longleftrightarrow> (\<exists>r. mg_registry (br_manager b) = Some r \<and> registry_inv r) \<and> manager_inv (br_manager b)"

interpretation bridge: machine bridge_step bridge_inv
proof unfold_locales
  fix b e
  assume "bridge_inv b"
  then obtain r where r: "mg_registry (br_manager b) = Some r" "registry_inv r" "manager_inv (br_manager b)"
    by (auto simp: bridge_inv_def)
  have p: "progresses (sv_discovery (br_server b)) (br_manager b) (br_manager (bridge_step e b))"
    using bridge_progresses by blast
  then obtain r' where "mg_registry (br_manager (bridge_step e b)) = Some r'" "evolves (sv_discovery (br_server b)) r r'"
    using r(1) unfolding progresses_def by blast
  moreover have "manager_inv (br_manager (bridge_step e b))"
    using p r(3) unfolding progresses_def by blast
  ultimately show "bridge_inv (bridge_step e b)"
    unfolding bridge_inv_def using evolves_inv r(2) by blast
qed

lemma bridge_run_settings:
  "sv_token (br_server (fold bridge_step es b)) = sv_token (br_server b)
   \<and> sv_discovery (br_server (fold bridge_step es b)) = sv_discovery (br_server b)"
  using bridge_progresses by (induction es arbitrary: b) simp_all

lemma bridge_run_progresses:
  "progresses (sv_discovery (br_server b)) (br_manager b) (br_manager (fold bridge_step es b))"
proof (induction es arbitrary: b)
  case (Cons e es)
  have "progresses (sv_discovery (br_server b)) (br_manager b) (br_manager (bridge_step e b))"
    and d: "sv_discovery (br_server (bridge_step e b)) = sv_discovery (br_server b)"
    using bridge_progresses by blast+
  with Cons [of "bridge_step e b"] show ?case
    by (simp add: d) (rule progresses_trans)
qed simp

lemma registry_static_inv: "registry_inv (register_static resolve now entries (new_registry ttl))"
proof -
  have "evolves False r (register_static resolve now entries r)" for r
    unfolding register_static_def by (rule evolves_fold) simp
  then show ?thesis
    by (rule evolves_inv) simp
qed

lemma boot_cases:
  assumes "boot env resolve now = Inr b"
  obtains c where "load_config env = (None, c)"
    "mg_registry (br_manager b) = Some (register_static resolve now (bc_static c) (new_registry (bc_ttl c)))"
    "mg_sessions (br_manager b) = Map.empty" "br_phase b = Running" "sv_token (br_server b) = trim_space (bc_token c)"
    "sv_discovery (br_server b) = bc_discovery c"
proof -
  obtain e c where l: "load_config env = (e, c)"
    by fastforce
  with assms have e: "e = None"
    by (cases e) (simp_all add: boot_def)
  have "b = \<lparr>br_server = new_server now (set_registry (register_static resolve now (bc_static c) (new_registry (bc_ttl c)))
          (new_manager (Some (new_registry (bc_ttl c))) (manager_config_of c (env ''BRIDGE_PUBLISH_IP''))))
        (bc_token c) (bc_server_url c) (bc_discovery c), br_phase = Running, br_addr = addr c\<rparr>"
    using assms by (simp add: boot_def l e Let_def server_registry_def new_manager_def)
  then show ?thesis
    using that [of c] l e by (simp add: br_manager_def new_server_def set_registry_def new_manager_def)
qed

lemma boot_inv: "boot env resolve now = Inr b \<Longrightarrow> bridge_inv b"
  by (erule boot_cases) (simp add: bridge_inv_def registry_static_inv manager_inv_def)

text \<open>
  C9: The shared state stays sound.  Whatever interleaving of HTTP requests, announcements, ticks,
  kernel events and signals follows a successful start, no two registry entries carry one hardware
  address, every session is filed under the ID of the device it plays to and its kernel is in a
  consistent state, and the token that guards the endpoints is the configured one.
\<close>

lemma bridge_state_sound:
  assumes "boot env resolve now = Inr b" "b' = fold bridge_step es b"
  shows "(\<forall>k k' d d'. devices (br_registry b') k = Some d \<and> devices (br_registry b') k' = Some d'
            \<and> normalize_mac (dev_mac d) \<noteq> [] \<and> normalize_mac (dev_mac d') = normalize_mac (dev_mac d) \<longrightarrow> k = k')
       \<and> (\<forall>k s. mg_sessions (br_manager b') k = Some s \<longrightarrow> tg_id (ms_target s) = k \<and> kernel_ok (ms_engine s))
       \<and> sv_token (br_server b') = trim_space (bc_token (snd (load_config env)))"
proof -
  have inv: "bridge_inv b'"
    unfolding assms(2) by (rule bridge.run_inv) (rule boot_inv [OF assms(1)])
  then obtain r where r: "mg_registry (br_manager b') = Some r" "registry_inv r"
    by (auto simp: bridge_inv_def)
  then have "br_registry b' = r"
    by (simp add: br_registry_def server_registry_def)
  then have "\<forall>k k' d d'. devices (br_registry b') k = Some d \<and> devices (br_registry b') k' = Some d'
            \<and> normalize_mac (dev_mac d) \<noteq> [] \<and> normalize_mac (dev_mac d') = normalize_mac (dev_mac d) \<longrightarrow> k = k'"
    using registry_invD [OF r(2)] by metis
  moreover have "\<forall>k s. mg_sessions (br_manager b') k = Some s \<longrightarrow> tg_id (ms_target s) = k \<and> kernel_ok (ms_engine s)"
    using inv by (simp add: bridge_inv_def manager_inv_def)
  moreover have "sv_token (br_server b') = trim_space (bc_token (snd (load_config env)))"
    using assms(1) by (rule boot_cases) (simp add: assms(2) bridge_run_settings)
  ultimately show ?thesis
    by blast
qed

lemma default_environment: "load_config (\<lambda>_. []) = (None, default_config)"
  by (simp add: load_config_def set_port_def set_bind_def set_token_def set_engine_def set_paths_def set_rate_def
      set_channels_def set_depth_def check_depth_def set_latency_def set_default_volume_def set_ttl_def
      set_discovery_def set_static_def set_rest_def parse_int_env_def env_text_def env_string_def default_config_def)

lemma bridge_state_sound_witness:
  "\<exists>b. boot (\<lambda>_. []) Some 7 = Inr b
     \<and> sv_token (br_server (fold bridge_step [Sweep_Tick 9 [], Signal demo_io (\<lambda>_. []) []] b)) = []"
proof -
  have "\<exists>b. boot (\<lambda>_. []) Some 7 = Inr b"
    by (simp add: boot_def default_environment Let_def)
  then obtain b where b: "boot (\<lambda>_. []) Some 7 = Inr b"
    by blast
  let ?b = "fold bridge_step [Sweep_Tick 9 [], Signal demo_io (\<lambda>_. []) []] b"
  have "sv_token (br_server ?b) = trim_space (bc_token (snd (load_config (\<lambda>_. []))))"
    using bridge_state_sound [OF b refl] by blast
  also have "\<dots> = []"
    by (simp add: default_environment default_config_def)
  finally show ?thesis
    using b by blast
qed

text \<open>
  Without discovery nothing expires.  When discovery is off, a device that is registered at some
  moment, statically, by hand or by a refresh, is registered at every later one: no request and no
  tick removes an entry.
\<close>

lemma without_discovery_nothing_expires:
  assumes "boot env resolve now = Inr b" "\<not> bc_discovery (snd (load_config env))"
    and "devices (br_registry (fold bridge_step es b)) k \<noteq> None"
  shows "devices (br_registry (fold bridge_step (es @ fs) b)) k \<noteq> None"
proof -
  let ?b = "fold bridge_step es b"
  have off: "\<not> sv_discovery (br_server ?b)"
    using assms(1) by (rule boot_cases) (use assms(2) in \<open>simp add: bridge_run_settings\<close>)
  have "bridge_inv ?b"
    by (rule bridge.run_inv) (rule boot_inv [OF assms(1)])
  then obtain r where r: "mg_registry (br_manager ?b) = Some r"
    by (auto simp: bridge_inv_def)
  obtain r' where r': "mg_registry (br_manager (fold bridge_step fs ?b)) = Some r'" "evolves False r r'"
    using bridge_run_progresses [of ?b fs] r off unfolding progresses_def by auto
  have "dom (devices r) \<subseteq> dom (devices r')"
    using r'(2) by (rule evolves_dom)
  then show ?thesis
    using assms(3) r r'(1) by (auto simp: br_registry_def server_registry_def)
qed

lemma equal_fold_off: "set_discovery (\<lambda>n. if n = ''BRIDGE_DISCOVERY'' then ''0'' else []) c = Inr (c\<lparr>bc_discovery := False\<rparr>)"
  by (simp add: set_discovery_def env_text_def trim_space_id edge_byte_def space_runes_def)

lemma quiet_environment:
  "load_config (\<lambda>n. if n = ''BRIDGE_DISCOVERY'' then ''0'' else []) = (None, default_config\<lparr>bc_discovery := False\<rparr>)"
  by (simp add: load_config_def set_port_def set_bind_def set_token_def set_engine_def set_paths_def set_rate_def
      set_channels_def set_depth_def check_depth_def set_latency_def set_default_volume_def set_ttl_def
      equal_fold_off set_static_def set_rest_def parse_int_env_def env_text_def env_string_def default_config_def)

definition manual_request :: http_request where
  "manual_request =
     empty_request\<lparr>hq_path := ''/api/devices/manual'',
       hq_body := Some \<lparr>jb_device_id = [], jb_stream_url = [], jb_track = [], jb_title = [], jb_artist = [],
       jb_album = [], jb_duration_ms = 0, jb_start_ms = 0, jb_volume = None, jb_action = [], jb_position_ms = 0,
       jb_address = ''10.0.0.9'', jb_port = 0\<rparr>\<rparr>"

text \<open>A request that adds a device: the entry it leaves in the registry.\<close>

lemma upsert_present: "devices (fst (upsert now r obs)) (registry_key obs) \<noteq> None"
  by (simp add: upsert_eq)

lemma without_discovery_nothing_expires_witness:
  "\<exists>b k. boot (\<lambda>n. if n = ''BRIDGE_DISCOVERY'' then ''0'' else []) Some 7 = Inr b
     \<and> devices (br_registry (fold bridge_step ([Http_Request demo_request_io manual_request]
          @ [Sweep_Tick 99999999999999 [], Reap_Tick 5 (\<lambda>_. []) []]) b)) k \<noteq> None"
proof -
  let ?env = "\<lambda>n. if n = ''BRIDGE_DISCOVERY'' then ''0'' else []"
  have t: "trim_space ''10.0.0.9'' = ''10.0.0.9''"
    by (rule trim_space_id) (simp_all add: edge_byte_def space_runes_def)
  have "\<exists>b. boot ?env Some 7 = Inr b"
    by (simp add: boot_def quiet_environment Let_def)
  then obtain b where b: "boot ?env Some 7 = Inr b"
    by blast
  obtain c where c: "load_config ?env = (None, c)" "sv_token (br_server b) = trim_space (bc_token c)"
    using b by (rule boot_cases)
  have token: "sv_token (br_server b) = []"
    using c by (auto simp: quiet_environment default_config_def)
  have s: "split_host_port ''10.0.0.9'' 7000 = Inr (''10.0.0.9'', 7000)"
    by (simp add: split_host_port_def t net_split_host_port_def last_index_def Let_def)
  let ?obs = "static_observation ''10.0.0.9'' ''10.0.0.9'' 7000"
  have "serve demo_request_io manual_request (br_server b) = add_manual_device demo_request_io manual_request (br_server b)"
    by (simp add: serve_def route_def post_route_def get_route_def guard_def token manual_request_def empty_request_def)
  then have "br_registry (bridge_step (Http_Request demo_request_io manual_request) b)
      = fst (upsert (ki_now demo_io) (br_registry b) ?obs)"
    by (simp add: add_manual_device_def manual_request_def empty_request_def t manual_address_def s upsert_static_def
        demo_request_io_def br_registry_def br_manager_def server_registry_def set_registry_def on_manager_def
        split: prod.split)
  then have "devices (br_registry (fold bridge_step [Http_Request demo_request_io manual_request] b)) (registry_key ?obs) \<noteq> None"
    using upsert_present by simp
  moreover have "\<not> bc_discovery (snd (load_config ?env))"
    by (simp add: quiet_environment)
  ultimately show ?thesis
    using without_discovery_nothing_expires [OF b] b by blast
qed

subsection \<open>Expiry\<close>

definition ticks :: "time \<Rightarrow> duration \<Rightarrow> nat \<Rightarrow> time list" where
  "ticks start interval n = map (\<lambda>k. start + int (Suc k) * interval) [0..<n]"

lemma fold_sweep:
  assumes "0 < reg_ttl r"
  shows "devices (fold (\<lambda>t r. fst (sweep t ord r)) ts r) k
       = (case devices r k of None \<Rightarrow> None | Some d \<Rightarrow> if \<exists>t \<in> set ts. expired t (reg_ttl r) d then None else Some d)"
  using assms
proof (induction ts arbitrary: r)
  case Nil
  then show ?case
    by (simp split: option.split)
next
  case (Cons t ts)
  have ttl: "reg_ttl (fst (sweep t ord r)) = reg_ttl r"
    by (simp add: sweep_def)
  have "devices (fst (sweep t ord r)) k
      = (case devices r k of None \<Rightarrow> None | Some d \<Rightarrow> if expired t (reg_ttl r) d then None else Some d)"
    using Cons.prems by (simp add: sweep_def)
  with Cons show ?case
    by (simp add: ttl split: option.split)
qed

lemma ticks_past:
  assumes "0 < iv" "start \<le> b"
  shows "(\<exists>t \<in> set (ticks start iv n). b < t) \<longleftrightarrow> b < start + int n * iv"
proof
  assume "\<exists>t \<in> set (ticks start iv n). b < t"
  then obtain i where i: "i < n" "b < start + int (Suc i) * iv"
    by (auto simp: ticks_def)
  have "int (Suc i) * iv \<le> int n * iv"
    using i(1) assms(1) by (intro mult_right_mono) simp_all
  with i(2) show "b < start + int n * iv"
    by simp
next
  assume t: "b < start + int n * iv"
  then have "n \<noteq> 0"
    using assms by (cases n) simp_all
  then have "start + int n * iv \<in> set (ticks start iv n)"
    by (auto simp: ticks_def image_iff intro!: bexI [of _ "n - 1"])
  with t show "\<exists>t \<in> set (ticks start iv n). b < t"
    by blast
qed

lemma next_tick:
  assumes "0 < iv" "start \<le> b"
  shows "\<exists>n. b < start + int n * iv \<and> start + int n * iv \<le> b + iv"
proof -
  let ?n = "nat ((b - start) div iv) + 1"
  have "0 \<le> (b - start) div iv"
    using assms by (simp add: pos_imp_zdiv_nonneg_iff)
  then have "int ?n * iv = (b - start) div iv * iv + iv"
    by (simp add: distrib_right)
  then show ?thesis
    using int_div_bounds [OF assms(1), of "b - start"] by (intro exI [of _ ?n]) simp
qed

text \<open>
  C39: The TTL is kept to within a quarter.  With any configuration that loads, the sweep runs every
  quarter of the device TTL (the fallback for short intervals is never needed).  A device that was
  announced and then falls silent is listed at every tick up to its TTL and gone from the first tick
  after it, which comes at most a quarter of the TTL later.
\<close>

lemma expiry_on_time:
  fixes ord :: "string list"
  assumes "load_config env = (None, c)" "reg_ttl r = bc_ttl c"
    and "devices r k = Some d" "dev_source d \<noteq> source_static" "last_seen d \<noteq> 0" "start \<le> last_seen d"
  defines "tick \<equiv> \<lambda>n. start + int n * sweep_interval (bc_ttl c)"
    and "after \<equiv> \<lambda>n. fold (\<lambda>t r. fst (sweep t ord r)) (ticks start (sweep_interval (bc_ttl c)) n) r"
  shows "sweep_interval (bc_ttl c) = bc_ttl c div 4
       \<and> (\<forall>n. devices (after n) k = (if tick n \<le> last_seen d + bc_ttl c then Some d else None))
       \<and> (\<exists>n. last_seen d + bc_ttl c < tick n \<and> tick n \<le> last_seen d + bc_ttl c + bc_ttl c div 4)"
proof -
  have ttl: "5 * second \<le> bc_ttl c"
    using loaded_config_ok [OF assms(1)] by (simp add: config_ok_def)
  then have iv: "sweep_interval (bc_ttl c) = bc_ttl c div 4" and pos: "0 < bc_ttl c div 4" "0 < bc_ttl c"
    by (simp_all add: sweep_interval_def second_def Let_def)
  have b: "start \<le> last_seen d + bc_ttl c"
    using assms(6) pos(2) by simp
  have ex: "expired t (bc_ttl c) d \<longleftrightarrow> last_seen d + bc_ttl c < t" for t
    using assms(4,5) by (auto simp: expired_def)
  have "devices (after n) k = (if tick n \<le> last_seen d + bc_ttl c then Some d else None)" for n
    using ticks_past [OF pos(1) b, of n] pos(2) fold_sweep [of r ord "ticks start (bc_ttl c div 4) n" k]
    by (simp add: after_def tick_def iv assms(2,3) ex not_less)
  then show ?thesis
    using iv next_tick [OF pos(1) b] by (simp add: tick_def)
qed

lemma expiry_on_time_witness:
  "sweep_interval (60 * second) = 15 * second
   \<and> devices (fold (\<lambda>t r. fst (sweep t [] r)) (ticks 0 (15 * second) 4)
        \<lparr>devices = [''k'' \<mapsto> kitchen\<lparr>last_seen := second\<rparr>], reg_ttl = 60 * second\<rparr>) ''k'' \<noteq> None"
  using expiry_on_time [OF default_environment, of "\<lparr>devices = [''k'' \<mapsto> kitchen\<lparr>last_seen := second\<rparr>], reg_ttl = 60 * second\<rparr>"
      "''k''" "kitchen\<lparr>last_seen := second\<rparr>" 0 "[]"]
  by (auto simp: default_config_def kitchen_def second_def source_static_def source_mdns_def dest!: spec [of _ 4])

subsection \<open>The end of the process\<close>

lemma update_engine_dom [simp]: "dom (mg_sessions (update_engine key k m)) = dom (mg_sessions m)"
  by (auto simp: update_engine_def)

definition is_request :: "bridge_event \<Rightarrow> bool" where
  "is_request e \<longleftrightarrow> (\<exists>rio q. e = Http_Request rio q)"

text \<open>
  Sessions are closed at one moment only.  The signal empties the session table.  While the HTTP
  server drains after it, a play request that was already accepted can still fill the table again,
  and nothing but another request would end that session: neither the reaper, nor a second signal,
  nor the end of its own stream removes it before the process exits.
\<close>

lemma shutdown_happens_once:
  assumes "br_phase b = Draining" "\<forall>e \<in> set es. \<not> is_request e"
  shows "mg_sessions (br_manager (bridge_step (Signal io rord ord) (b\<lparr>br_phase := Running\<rparr>))) = Map.empty
       \<and> br_phase (bridge_step (Signal io rord ord) (b\<lparr>br_phase := Running\<rparr>)) = Draining
       \<and> br_phase (fold bridge_step es b) = Draining
       \<and> dom (mg_sessions (br_manager (fold bridge_step es b))) = dom (mg_sessions (br_manager b))"
proof -
  have "br_phase (fold bridge_step es b) = Draining
      \<and> dom (mg_sessions (br_manager (fold bridge_step es b))) = dom (mg_sessions (br_manager b))"
    using assms
  proof (induction es arbitrary: b)
    case (Cons e es)
    have "br_phase (bridge_step e b) = Draining \<and> dom (mg_sessions (br_manager (bridge_step e b))) = dom (mg_sessions (br_manager b))"
      using Cons.prems
      by (cases e) (simp_all add: is_request_def discovering_def br_manager_def with_manager_def session_event_def split: option.split)
    with Cons.IH [of "bridge_step e b"] Cons.prems(2) show ?case
      by simp
  qed simp
  then show ?thesis
    by (simp add: br_manager_def with_manager_def)
qed

lemma shutdown_happens_once_witness:
  defines "b \<equiv> \<lparr>br_server = demo_server\<lparr>sv_manager := busy_manager\<rparr>, br_phase = Draining, br_addr = []\<rparr>"
  shows "dom (mg_sessions (br_manager (fold bridge_step [Signal demo_io (\<lambda>_. []) [''k''], Reap_Tick 9 (\<lambda>_. []) [''k'']] b))) = {''k''}"
  using shutdown_happens_once [of b "[Signal demo_io (\<lambda>_. []) [''k''], Reap_Tick 9 (\<lambda>_. []) [''k'']]" demo_io "\<lambda>_. []" "[]"]
  by (simp add: b_def is_request_def br_manager_def)

end
