(* ===== verification/Browse.thy ===== *)
theory Browse imports Bridge begin

text \<open>
  The browse loops of internal/discovery/mdns.go, and what their timing means for the TTL of the
  registry.

  A resolver of the third-party package is an input: whether it can be created, whether the query
  goes out, and the entries it delivers, each with the time at which \<open>ingest\<close> takes it.  The two
  loops run beside each other and beside the sweep; a loop appears as the announcements it makes, in
  order, which \<open>bridge_step\<close> takes one at a time.
\<close>

subsection \<open>The browser\<close>

record browser =
  bw_iface :: string
  bw_rescan :: duration

definition new_browser :: "string \<Rightarrow> browser" where
  "new_browser iface_ip = \<lparr>bw_iface = trim_space iface_ip, bw_rescan = 20 * second\<rparr>"

definition browse_time :: duration where
  "browse_time = 15 * second"

record browse_answer =
  ba_resolver :: bool
  ba_query :: bool
  ba_entries :: "(time \<times> service_entry option) list"
  ba_failed_at :: time

text \<open>
  \<open>browseOnce\<close>, from \<open>start\<close> until the context of the caller ends at \<open>until\<close>, if it does: what
  it ingests, whether it succeeds, and when it returns.
\<close>

definition context_done :: "time option \<Rightarrow> time \<Rightarrow> bool" where
  "context_done until t \<longleftrightarrow> (case until of None \<Rightarrow> False | Some u \<Rightarrow> u \<le> t)"

definition browse_once ::
  "time option \<Rightarrow> time \<Rightarrow> browse_answer \<Rightarrow> (time \<times> service_entry option) list \<times> bool \<times> time" where
  "browse_once until start a =
     (if \<not> ba_resolver a then ([], False, ba_failed_at a)
      else if \<not> ba_query a then (ba_entries a, False, ba_failed_at a)
      else (ba_entries a, True,
            case until of None \<Rightarrow> start + browse_time | Some u \<Rightarrow> min u (start + browse_time)))"

fun browse_loop :: "browser \<Rightarrow> time option \<Rightarrow> time \<Rightarrow> browse_answer list \<Rightarrow> (time \<times> service_entry option) list" where
  "browse_loop b until start [] = []"
| "browse_loop b until start (a # as) =
     (if context_done until start then []
      else (case browse_once until start a of (found, ok, finish) \<Rightarrow>
              found @ (if context_done until (finish + bw_rescan b) then []
                       else browse_loop b until (finish + bw_rescan b) as)))"

text \<open>\<open>Run\<close>: one loop for each service.\<close>

definition browser_run ::
  "browser \<Rightarrow> time option \<Rightarrow> time \<Rightarrow> (string \<Rightarrow> browse_answer list) \<Rightarrow> (string \<times> (time \<times> service_entry option) list) list" where
  "browser_run b until start answers =
     map (\<lambda>service. (service, browse_loop b until start (answers service))) [service_airplay, service_raop]"

text \<open>\<open>Refresh\<close>: one round for each service under a deadline, and the latest moment it returns.\<close>

definition refresh_timeout :: "duration \<Rightarrow> duration" where
  "refresh_timeout timeout = (if timeout \<le> 0 then 2 * second else timeout)"

definition refresh ::
  "time option \<Rightarrow> time \<Rightarrow> duration \<Rightarrow> (string \<Rightarrow> browse_answer)
   \<Rightarrow> (string \<times> (time \<times> service_entry option) list) list \<times> time" where
  "refresh until start timeout answer =
     (let deadline = start + refresh_timeout timeout;
          ctx = Some (case until of None \<Rightarrow> deadline | Some u \<Rightarrow> min u deadline);
          rounds = map (\<lambda>service. (service, browse_once ctx start (answer service))) [service_airplay, service_raop];
          finished = fold (\<lambda>(_, _, _, t). max t) rounds start
      in (map (\<lambda>(service, found, _). (service, found)) rounds, min finished (deadline + 500000000)))"

subsection \<open>The schedule\<close>

definition round_start :: "browser \<Rightarrow> time \<Rightarrow> nat \<Rightarrow> time" where
  "round_start b start k = start + int k * (browse_time + bw_rescan b)"

text \<open>
  As long as no query fails and nothing is cancelled, the rounds start 35 seconds apart, and everything
  that any of them finds is announced.
\<close>

lemma browse_loop_announces:
  assumes "\<forall>a \<in> set as. ba_resolver a \<and> ba_query a" "k < length as" "x \<in> set (ba_entries (as ! k))"
  shows "x \<in> set (browse_loop b None start as)"
  using assms
proof (induction as arbitrary: k start)
  case (Cons a as)
  have step: "browse_loop b None start (a # as) = ba_entries a @ browse_loop b None (start + browse_time + bw_rescan b) as"
    using Cons.prems(1) by (simp add: browse_once_def context_done_def)
  show ?case
  proof (cases k)
    case 0
    then show ?thesis
      using Cons.prems(3) unfolding step by simp
  next
    case (Suc j)
    then have "x \<in> set (browse_loop b None (start + browse_time + bw_rescan b) as)"
      using Cons.prems by (intro Cons.IH) simp_all
    then show ?thesis
      unfolding step by simp
  qed
qed simp

lemma ingest_present:
  assumes "devices r m = Some d" "last_seen d \<le> t" "0 < t"
  shows "\<exists>d'. devices (ingest t r s e) m = Some d' \<and> last_seen d \<le> last_seen d' \<and> last_seen d' \<le> t"
proof (cases "\<exists>x obs. e = Some x \<and> observe t s x = Some obs")
  case True
  then obtain x obs where e: "e = Some x" "observe t s x = Some obs"
    by blast
  note f = observe_fields(5,6) [OF e(2)]
  show ?thesis
  proof (cases "registry_key obs = m")
    case True
    then have "devices (ingest t r s e) m = Some (merge_device d (stamp t obs))"
      using assms(1) by (simp add: ingest_def e upsert_eq upserted_def)
    moreover have "last_seen (merge_device d (stamp t obs)) = t"
      using f assms(3) by (simp add: merge_device_def stamp_def source_mdns_def source_static_def)
    ultimately show ?thesis
      using assms(2) by simp
  qed (use assms e in \<open>simp add: ingest_def upsert_eq\<close>)
next
  case False
  then show ?thesis
    using assms by (auto simp: ingest_def split: option.split)
qed

definition announces :: "string \<Rightarrow> string \<Rightarrow> service_entry option \<Rightarrow> bool" where
  "announces m s e \<longleftrightarrow>
     (\<exists>x. e = Some x \<and> first_ipv4 x \<noteq> [] \<and> (s = service_airplay \<or> s = service_raop) \<and> announced_mac s x = m)"

lemma ingest_announced:
  assumes "announces m s e" "m \<noteq> []" "0 < t"
  shows "\<exists>d. devices (ingest t r s e) m = Some d \<and> last_seen d = t"
proof -
  obtain x obs where e: "e = Some x" "announced_mac s x = m" "observe t s x = Some obs"
    using assms(1) observed unfolding announces_def by blast
  note i = ingest_observed [OF e(3,2) assms(2)] and f = observe_fields(5,6) [OF e(3)]
  have "last_seen (upserted t r obs) = t"
    using f assms(3)
    by (auto simp: upserted_def merge_device_def stamp_def source_mdns_def source_static_def split: option.split)
  then show ?thesis
    by (simp add: e(1) i(1))
qed

subsection \<open>A device that answers stays listed\<close>

fun event_time :: "bridge_event \<Rightarrow> time" where
  "event_time (Announcement t s e) = t"
| "event_time (Sweep_Tick t ord) = t"
| "event_time _ = 0"

fun discovery_event :: "bridge_event \<Rightarrow> bool" where
  "discovery_event (Announcement t s e) = True"
| "discovery_event (Sweep_Tick t ord) = True"
| "discovery_event _ = False"

lemma br_registry_with [simp]:
  "br_registry (with_registry f b) = f (br_registry b)" "discovering (with_registry f b) = discovering b"
  by (simp_all add: br_registry_def br_manager_def with_registry_def with_manager_def set_registry_def server_registry_def discovering_def)

lemma ingest_ttl [simp]: "reg_ttl (ingest t r s e) = reg_ttl r"
  by (simp add: ingest_def upsert_eq split: option.split)

lemma sweep_ttl [simp]: "reg_ttl (fst (sweep t ord r)) = reg_ttl r"
  by (simp add: sweep_def)

lemma discovery_step:
  assumes "discovering b"
  shows "br_registry (bridge_step (Announcement t s e) b) = ingest t (br_registry b) s e"
    "br_registry (bridge_step (Sweep_Tick t ord) b) = fst (sweep t ord (br_registry b))"
    "discovery_event ev \<Longrightarrow> discovering (bridge_step ev b) \<and> reg_ttl (br_registry (bridge_step ev b)) = reg_ttl (br_registry b)"
  using assms by (simp_all, cases ev) simp_all

lemma discovery_run:
  assumes "discovering b" "\<forall>ev \<in> set es. discovery_event ev"
  shows "discovering (fold bridge_step es b) \<and> reg_ttl (br_registry (fold bridge_step es b)) = reg_ttl (br_registry b)"
  using assms
proof (induction es arbitrary: b)
  case (Cons ev es)
  then show ?case
    using discovery_step(3) [of b ev] by (simp del: bridge_step.simps)
qed simp

definition sighting :: "string \<Rightarrow> bridge_event \<Rightarrow> bool" where
  "sighting m ev \<longleftrightarrow> (\<exists>t s e. ev = Announcement t s e \<and> announces m s e)"

text \<open>The entry is there and as fresh as the last sighting.\<close>

definition fresh :: "string \<Rightarrow> bridge_event list \<Rightarrow> registry \<Rightarrow> bool" where
  "fresh m es r \<longleftrightarrow>
     (\<exists>d. devices r m = Some d \<and> (\<forall>ev \<in> set es. sighting m ev \<longrightarrow> event_time ev \<le> last_seen d)
        \<and> (\<forall>t. (\<forall>ev \<in> set es. event_time ev \<le> t) \<longrightarrow> last_seen d \<le> t))"

lemma fresh_announcement:
  assumes "0 < t" "\<forall>ev \<in> set es. event_time ev \<le> t" "m \<noteq> []"
    and "announces m s e \<or> fresh m es r"
  shows "fresh m (es @ [Announcement t s e]) (ingest t r s e)"
proof (cases "announces m s e")
  case True
  then obtain d where "devices (ingest t r s e) m = Some d" "last_seen d = t"
    using ingest_announced [OF True assms(3,1)] by blast
  then show ?thesis
    using assms(2) by (auto simp: fresh_def)
next
  case False
  then obtain d where d: "devices r m = Some d" "\<forall>ev \<in> set es. sighting m ev \<longrightarrow> event_time ev \<le> last_seen d"
    "\<forall>t. (\<forall>ev \<in> set es. event_time ev \<le> t) \<longrightarrow> last_seen d \<le> t"
    using assms(4) by (auto simp: fresh_def)
  then obtain d' where "devices (ingest t r s e) m = Some d'" "last_seen d \<le> last_seen d'" "last_seen d' \<le> t"
    using ingest_present [OF d(1) _ assms(1)] assms(2) by blast
  then show ?thesis
    using d(2) False unfolding fresh_def by (intro exI [of _ d']) (auto simp: sighting_def intro: order_trans)
qed

lemma fresh_sweep:
  assumes "fresh m es r" "ev \<in> set es" "sighting m ev" "t - reg_ttl r \<le> event_time ev"
  shows "fresh m (es @ [Sweep_Tick t ord]) (fst (sweep t ord r))"
proof -
  obtain d where d: "devices r m = Some d" "\<forall>ev \<in> set es. sighting m ev \<longrightarrow> event_time ev \<le> last_seen d"
    "\<forall>t. (\<forall>ev \<in> set es. event_time ev \<le> t) \<longrightarrow> last_seen d \<le> t"
    using assms(1) by (auto simp: fresh_def)
  then have "t - reg_ttl r \<le> last_seen d"
    using assms(2-4) by fastforce
  then have "devices (fst (sweep t ord r)) m = Some d"
    using d(1) by (simp add: sweep_devices expired_def)
  then show ?thesis
    using d(2,3) by (auto simp: fresh_def sighting_def)
qed

text \<open>
  A device answers the rounds from \<open>start\<close> on, as far as the events \<open>es\<close> go: it is seen at some time
  in the window of every round that ended before.
\<close>

definition answers_rounds :: "browser \<Rightarrow> time \<Rightarrow> string \<Rightarrow> bridge_event list \<Rightarrow> bool" where
  "answers_rounds w start m es \<longleftrightarrow>
     (\<forall>k t. round_start w start k + browse_time < t \<and> (\<exists>ev \<in> set es. t \<le> event_time ev) \<longrightarrow>
        (\<exists>ev \<in> set es. sighting m ev \<and> round_start w start k \<le> event_time ev \<and> event_time ev \<le> round_start w start k + browse_time))"

lemma recent_sighting:
  assumes "answers_rounds w start m (pre @ Sweep_Tick t ord # rest)" "sorted (map event_time (pre @ Sweep_Tick t ord # rest))"
    and "bw_rescan w = 20 * second" "\<exists>ev \<in> set pre. sighting m ev" "\<forall>ev \<in> set pre. start \<le> event_time ev"
  shows "\<exists>ev \<in> set pre. sighting m ev \<and> t - 50 * second \<le> event_time ev"
proof (cases "t \<le> start + browse_time")
  case True
  then have "t - 50 * second \<le> start"
    by (simp add: browse_time_def second_def)
  then show ?thesis
    using assms(4,5) by force
next
  case False
  define p where "p = browse_time + bw_rescan w"
  have p: "p = 35 * second" "0 < p"
    by (simp_all add: p_def browse_time_def assms(3) second_def)
  define k where "k = nat ((t - start - browse_time - 1) div p)"
  have x: "0 \<le> t - start - browse_time - 1"
    using False by simp
  have k: "int k * p \<le> t - start - browse_time - 1" "t - start - browse_time - 1 < int k * p + p"
    using int_div_bounds [OF p(2), of "t - start - browse_time - 1"] x p(2)
    by (simp_all add: k_def pos_imp_zdiv_nonneg_iff)
  then have "round_start w start k + browse_time < t"
    by (simp add: round_start_def p_def)
  then obtain ev where ev: "ev \<in> set (pre @ Sweep_Tick t ord # rest)" "sighting m ev"
    "round_start w start k \<le> event_time ev" "event_time ev \<le> round_start w start k + browse_time"
    using assms(1) unfolding answers_rounds_def by (metis event_time.simps(2) in_set_conv_decomp order_refl)
  have "ev \<in> set pre"
  proof -
    have "event_time ev < t"
      using ev(4) \<open>round_start w start k + browse_time < t\<close> by simp
    then have "ev \<notin> set rest" "ev \<noteq> Sweep_Tick t ord"
      using assms(2) by (auto simp: sorted_append)
    then show ?thesis
      using ev(1) by simp
  qed
  moreover have "t - 50 * second \<le> event_time ev"
    using k(2) ev(3) by (simp add: round_start_def p(1) browse_time_def assms(3) second_def)
  ultimately show ?thesis
    using ev(2) by blast
qed

lemma discovery_keeps_fresh:
  assumes "discovering b" "\<forall>ev \<in> set (pre @ rest). discovery_event ev \<and> start \<le> event_time ev" "0 < start" "m \<noteq> []"
    and "sorted (map event_time (pre @ rest))" "answers_rounds w start m (pre @ rest)" "bw_rescan w = 20 * second"
    and "50 * second \<le> reg_ttl (br_registry b)" "\<exists>ev \<in> set pre. sighting m ev"
  shows "fresh m pre (br_registry (fold bridge_step pre b))"
  using assms(2,5,6,9)
proof (induction pre arbitrary: rest rule: rev_induct)
  case (snoc ev pre)
  let ?b = "fold bridge_step pre b"
  have run: "discovering ?b" "reg_ttl (br_registry ?b) = reg_ttl (br_registry b)"
    using discovery_run [OF assms(1), of pre] snoc.prems(1) by simp_all
  have IH: "\<exists>ev \<in> set pre. sighting m ev \<Longrightarrow> fresh m pre (br_registry ?b)"
    using snoc.IH [of "ev # rest"] snoc.prems by simp
  have le: "\<forall>e \<in> set pre. event_time e \<le> event_time ev"
    using snoc.prems(2) by (auto simp: sorted_append)
  show ?case
  proof (cases ev)
    case (Announcement t s e)
    have "announces m s e \<or> (\<exists>ev \<in> set pre. sighting m ev)"
      using snoc.prems(4) by (auto simp: Announcement sighting_def)
    then have "fresh m (pre @ [ev]) (ingest t (br_registry ?b) s e)"
      unfolding Announcement
      using snoc.prems(1) assms(3,4) le IH by (intro fresh_announcement) (auto simp: Announcement)
    then show ?thesis
      using discovery_step(1) [OF run(1)] by (simp add: Announcement)
  next
    case (Sweep_Tick t ord)
    have some: "\<exists>ev \<in> set pre. sighting m ev"
      using snoc.prems(4) by (auto simp: Sweep_Tick sighting_def)
    obtain v where v: "v \<in> set pre" "sighting m v" "t - 50 * second \<le> event_time v"
      using recent_sighting [of w start m pre t ord rest] snoc.prems some assms(7) by (auto simp: Sweep_Tick)
    have "fresh m (pre @ [ev]) (fst (sweep t ord (br_registry ?b)))"
      unfolding Sweep_Tick using v assms(8) run(2) by (intro fresh_sweep [OF IH [OF some] v(1,2)]) simp
    then show ?thesis
      using discovery_step(2) [OF run(1)] by (simp add: Sweep_Tick)
  qed (use snoc.prems(1) in simp_all)
qed simp

lemma registry_static_ttl: "reg_ttl (register_static resolve now es r) = reg_ttl r"
proof -
  have "reg_ttl (fst (upsert_static resolve now r e 7000)) = reg_ttl r" for r e
    by (simp add: upsert_static_def upsert_eq split: sum.split prod.split option.split)
  then show ?thesis
    unfolding register_static_def by (induction es arbitrary: r) simp_all
qed

lemma boot_registry:
  assumes "boot env resolve now = Inr b" "load_config env = (None, c)" "bc_discovery c"
  shows "discovering b" "reg_ttl (br_registry b) = bc_ttl c"
proof -
  obtain c' where "load_config env = (None, c')"
    "mg_registry (br_manager b) = Some (register_static resolve now (bc_static c') (new_registry (bc_ttl c')))"
    "br_phase b = Running" "sv_discovery (br_server b) = bc_discovery c'"
    using assms(1) by (rule boot_cases)
  then show "discovering b" "reg_ttl (br_registry b) = bc_ttl c"
    using assms(2,3) by (simp_all add: discovering_def br_registry_def server_registry_def registry_static_ttl new_registry_def)
qed

text \<open>
  C36: A device that answers stays listed.  The browser asks again 20 seconds after each round of 15,
  so a speaker that answers once in every round, at whatever moment of it, can be silent for up to 50
  seconds.  With a TTL of at least that (the default is 60 seconds) its entry is never swept: after any
  interleaving of the announcements of both loops with the sweep, from the first sighting on, the
  speaker is registered, with the time of the last sighting or a later one.
\<close>

lemma answering_device_listed:
  assumes "boot env resolve now = Inr b" "load_config env = (None, c)" "bc_discovery c" "50 * second \<le> bc_ttl c"
    and "w = new_browser iface_ip" "0 < start" "m \<noteq> []"
    and "\<forall>k < length as. ba_resolver (as ! k) \<and> ba_query (as ! k)
           \<and> (\<exists>(t, e) \<in> set (ba_entries (as ! k)). announces m service e
                \<and> round_start w start k \<le> t \<and> t \<le> round_start w start k + browse_time)"
    and "\<forall>ev \<in> set es. discovery_event ev \<and> start \<le> event_time ev \<and> event_time ev \<le> round_start w start (length as)"
    and "sorted (map event_time es)" "\<exists>ev \<in> set es. sighting m ev"
    and "\<forall>(t, e) \<in> set (browse_loop w None start as). (\<exists>ev \<in> set es. t \<le> event_time ev) \<longrightarrow> Announcement t service e \<in> set es"
  shows "\<exists>d. devices (br_registry (fold bridge_step es b)) m = Some d
           \<and> (\<forall>ev \<in> set es. sighting m ev \<longrightarrow> event_time ev \<le> last_seen d)"
proof -
  have w: "bw_rescan w = 20 * second"
    by (simp add: assms(5) new_browser_def)
  have "answers_rounds w start m es"
    unfolding answers_rounds_def
  proof (intro allI impI, elim conjE bexE)
    fix k t ev assume t: "round_start w start k + browse_time < t" "ev \<in> set es" "t \<le> event_time ev"
    then have "round_start w start k < round_start w start (length as)"
      using assms(9) by (fastforce simp: browse_time_def second_def)
    then have "k < length as"
      by (simp add: round_start_def w browse_time_def second_def)
    with assms(8) obtain u e where u: "(u, e) \<in> set (ba_entries (as ! k))" "announces m service e"
      "round_start w start k \<le> u" "u \<le> round_start w start k + browse_time"
      by blast
    have "(u, e) \<in> set (browse_loop w None start as)"
      using assms(8) \<open>k < length as\<close> u(1) by (intro browse_loop_announces) (auto simp: set_conv_nth)
    moreover have "\<exists>ev \<in> set es. u \<le> event_time ev"
      using t u(4) by (intro bexI [of _ ev]) simp_all
    ultimately have "Announcement u service e \<in> set es"
      using assms(12) by blast
    then show "\<exists>ev \<in> set es. sighting m ev \<and> round_start w start k \<le> event_time ev \<and> event_time ev \<le> round_start w start k + browse_time"
      using u by (intro bexI [of _ "Announcement u service e"]) (auto simp: sighting_def)
  qed
  then have "fresh m es (br_registry (fold bridge_step es b))"
    using discovery_keeps_fresh [of b es "[]" start m w] boot_registry [OF assms(1-3)] assms(4,6,7,9-11) w by simp
  then show ?thesis
    by (auto simp: fresh_def)
qed

definition answering_speaker :: service_entry where
  "answering_speaker =
     \<lparr>se_instance = ''Kitchen'', se_host_name = ''k.local.'', se_port = 7000, se_text = [''deviceid=40-5b-d8-12-34-56''],
      se_ipv4 = [Some ''10.0.0.2''], se_ipv6 = []\<rparr>"

lemma speaker_announces: "announces ''40:5B:D8:12:34:56'' service_airplay (Some answering_speaker)"
proof -
  have "trim_space ''deviceid'' = ''deviceid''" "trim_space ''40-5b-d8-12-34-56'' = ''40-5b-d8-12-34-56''"
    by (rule trim_space_id; simp add: edge_byte_def space_runes_def)+
  then show ?thesis
    by (simp add: announces_def answering_speaker_def first_ipv4_def announced_mac_def parse_txt_def txt_field_def
        to_lower_def lower_char_def is_upper_def txt_get_def normalize_mac_example)
qed

lemma answering_device_listed_witness:
  "\<exists>b d. boot (\<lambda>_. []) Some 7 = Inr b
     \<and> devices (br_registry (fold bridge_step
          [Announcement (5 * second) service_airplay (Some answering_speaker), Sweep_Tick (20 * second) []] b)) ''40:5B:D8:12:34:56'' = Some d
     \<and> 5 * second \<le> last_seen d"
proof -
  let ?a = "\<lparr>ba_resolver = True, ba_query = True, ba_entries = [(5 * second, Some answering_speaker)], ba_failed_at = 0\<rparr>"
  let ?es = "[Announcement (5 * second) service_airplay (Some answering_speaker), Sweep_Tick (20 * second) []]"
  have "\<exists>b. boot (\<lambda>_. []) Some 7 = Inr b"
    by (simp add: boot_def default_environment Let_def)
  then obtain b where b: "boot (\<lambda>_. []) Some 7 = Inr b"
    by blast
  have "\<exists>d. devices (br_registry (fold bridge_step ?es b)) ''40:5B:D8:12:34:56'' = Some d
      \<and> (\<forall>ev \<in> set ?es. sighting ''40:5B:D8:12:34:56'' ev \<longrightarrow> event_time ev \<le> last_seen d)"
  proof (rule answering_device_listed [OF b default_environment])
    show "new_browser [] = new_browser []" ..
    show "\<forall>k < length [?a]. ba_resolver ([?a] ! k) \<and> ba_query ([?a] ! k)
           \<and> (\<exists>(t, e) \<in> set (ba_entries ([?a] ! k)). announces ''40:5B:D8:12:34:56'' service_airplay e
                \<and> round_start (new_browser []) second k \<le> t \<and> t \<le> round_start (new_browser []) second k + browse_time)"
      using speaker_announces by (simp add: round_start_def browse_time_def second_def)
    show "\<exists>ev \<in> set ?es. sighting ''40:5B:D8:12:34:56'' ev"
      using speaker_announces by (simp add: sighting_def)
    show "\<forall>(t, e) \<in> set (browse_loop (new_browser []) None second [?a]).
        (\<exists>ev \<in> set ?es. t \<le> event_time ev) \<longrightarrow> Announcement t service_airplay e \<in> set ?es"
      by (simp add: browse_once_def context_done_def)
  qed (simp_all add: default_config_def second_def round_start_def new_browser_def browse_time_def)
  then obtain d where "devices (br_registry (fold bridge_step ?es b)) ''40:5B:D8:12:34:56'' = Some d" "5 * second \<le> last_seen d"
    using speaker_announces by (auto simp: sighting_def)
  with b show ?thesis
    by blast
qed

end
