(* ===== verification/Receiver.thy ===== *)
theory Receiver
  imports Sender
begin

text \<open>
  The mock receiver, cmd/mockreceiver (rtsp.go, main.go): the RTSP server that reads the requests of
  the sender, the UDP sockets that take its audio, sync and timing datagrams, and the capture it
  writes as a WAV file.

  A connection is the string the client sends before it ends, as in theory Rtsp.  Each datagram that
  arrives is one step; the goroutines of the three sockets share the session without a lock, and a
  step is atomic here.  What the receiver sends is logged with its destination, and \<open>rx_open\<close> is the
  set of UDP sockets (by port) the process holds.  Counters are unbounded.
\<close>

subsection \<open>Requests (rtsp.go)\<close>

record rtsp_request =
  nq_method :: string
  nq_uri :: string
  nq_proto :: string
  nq_headers :: headers
  nq_body :: string

record rtsp_reply =
  rp_code :: int
  rp_message :: string
  rp_headers :: headers
  rp_body :: string
  rp_close :: bool

datatype request_failure = Request_Read | Request_Malformed string | Request_Panic

function request_line :: "string \<Rightarrow> (string \<times> string) option" where
  "request_line s =
     (case read_line s of
        None \<Rightarrow> None
      | Some (line, rest) \<Rightarrow> if line = [] then request_line rest else Some (line, rest))"
  by pat_completeness auto
termination
  by (relation "measure length") (auto dest: read_line_length)

declare request_line.simps [simp del]

definition read_request :: "string \<Rightarrow> request_failure + rtsp_request \<times> string" where
  "read_request s =
     (case request_line s of
        None \<Rightarrow> Inl Request_Read
      | Some (line, rest) \<Rightarrow>
          (let parts = split_n (CHR '' '') 3 line
           in if length parts < 3 then Inl (Request_Malformed line)
              else (case read_headers rest Map.empty of
                      None \<Rightarrow> Inl Request_Read
                    | Some (m, rest) \<Rightarrow>
                        (case read_body m rest of
                           Inl e \<Rightarrow> Inl (if e = Rtsp_Panic_Makeslice then Request_Panic else Request_Read)
                         | Inr (body, rest) \<Rightarrow>
                             Inr (\<lparr>nq_method = to_upper (parts ! 0), nq_uri = parts ! 1, nq_proto = parts ! 2,
                                   nq_headers = m, nq_body = body\<rparr>, rest)))))"

lemma request_line_length: "request_line s = Some (l, rest) \<Longrightarrow> length rest < length s"
proof (induction s rule: request_line.induct)
  case (1 s)
  from "1.prems" obtain line r where l: "read_line s = Some (line, r)"
    by (subst (asm) request_line.simps) (auto split: option.splits)
  show ?case
  proof (cases "line = []")
    case True
    with "1.prems" l have "request_line r = Some (l, rest)"
      by (subst (asm) request_line.simps) simp
    from "1.IH" [OF l refl True this] read_line_length [OF l] show ?thesis
      by simp
  next
    case False
    with "1.prems" l read_line_length [OF l] show ?thesis
      by (subst (asm) request_line.simps) simp
  qed
qed

lemma read_request_length: "read_request s = Inr (q, rest) \<Longrightarrow> length rest < length s"
  by (auto simp: read_request_def Let_def split: option.splits sum.splits if_splits prod.splits
      dest!: request_line_length read_headers_length read_body_length)

text \<open>\<open>writeResponse\<close>; \<open>ord\<close> is the order in which the header map is ranged over.\<close>

definition server_name :: string where
  "server_name = ''AirTunes/130.14''"

definition write_response :: "string list \<Rightarrow> rtsp_reply \<Rightarrow> string" where
  "write_response ord r =
     ''RTSP/1.0 '' @ itoa (rp_code r) @ '' '' @ rp_message r @ crlf
     @ (if rp_headers r ''Server'' = None then header_line ''Server'' server_name else [])
     @ concat (map (\<lambda>k. header_line k (get_or_empty (rp_headers r) k)) ord)
     @ (if rp_body r \<noteq> [] then header_line ''Content-Length'' (itoa (int (length (rp_body r)))) else [])
     @ crlf @ rp_body r"

definition parse_transport_options :: "string \<Rightarrow> string \<rightharpoonup> string" where
  "parse_transport_options transport =
     foldl (\<lambda>options part.
              case cut (CHR ''='') (trim_space part) of (key, val, found) \<Rightarrow>
                if found then options(trim_space key \<mapsto> trim_space val) else options)
       Map.empty (split_on (CHR '';'') transport)"

subsection \<open>State (main.go)\<close>

record receiver_stats =
  sx_packets :: int
  sx_datagrams :: int
  sx_bytes :: int
  sx_gaps :: int
  sx_duplicates :: int
  sx_retransmits :: int
  sx_syncs :: int
  sx_timing_replies :: int
  sx_timing_sent :: int
  sx_requests :: int
  sx_last_seq :: int

record receiver =
  mr_name :: string
  mr_mac :: string
  mr_port :: int
  mr_rate :: int
  mr_exit_on_end :: bool
  mr_grace :: duration
  mr_served :: int
  mr_pcm :: "byte list"
  mr_frames :: int
  mr_stats :: receiver_stats

record receiver_session =
  cs_id :: u32
  cs_peer :: string
  cs_remote_ip :: string
  cs_timing_port :: int
  cs_control_port :: int
  cs_audio_sock :: "int option"
  cs_control_sock :: "int option"
  cs_timing_sock :: "int option"
  cs_control_addr :: "(string \<times> int) option"
  cs_codec :: string
  cs_rate :: int
  cs_channels :: int
  cs_depth :: int
  cs_recording :: bool
  cs_closed :: bool
  cs_next_seq :: u16
  cs_have_seq :: bool
  cs_volume :: string

record reception =
  rx_session :: receiver_session
  rx_receiver :: receiver
  rx_out :: "((string \<times> int) \<times> byte list) list"
  rx_open :: "int list"

definition no_stats :: receiver_stats where
  "no_stats =
     \<lparr>sx_packets = 0, sx_datagrams = 0, sx_bytes = 0, sx_gaps = 0, sx_duplicates = 0, sx_retransmits = 0, sx_syncs = 0,
      sx_timing_replies = 0, sx_timing_sent = 0, sx_requests = 0, sx_last_seq = 0\<rparr>"

definition new_receiver :: "string \<Rightarrow> string \<Rightarrow> int \<Rightarrow> int \<Rightarrow> bool \<Rightarrow> duration \<Rightarrow> receiver" where
  "new_receiver name mac port rate exit_on_end grace =
     \<lparr>mr_name = name, mr_mac = to_upper (map (\<lambda>c. if c = CHR ''-'' then CHR '':'' else c) mac), mr_port = port,
      mr_rate = rate, mr_exit_on_end = exit_on_end, mr_grace = grace, mr_served = 0, mr_pcm = [], mr_frames = 0,
      mr_stats = no_stats\<rparr>"

definition new_receiver_session :: "u32 \<Rightarrow> string \<Rightarrow> receiver \<Rightarrow> receiver_session" where
  "new_receiver_session ident peer r =
     \<lparr>cs_id = ident, cs_peer = peer, cs_remote_ip = [], cs_timing_port = 0, cs_control_port = 0, cs_audio_sock = None,
      cs_control_sock = None, cs_timing_sock = None, cs_control_addr = None, cs_codec = [], cs_rate = mr_rate r,
      cs_channels = 2, cs_depth = 16, cs_recording = False, cs_closed = False, cs_next_seq = 0, cs_have_seq = False,
      cs_volume = []\<rparr>"

definition accept_conn :: "u32 \<Rightarrow> string \<Rightarrow> receiver \<Rightarrow> reception" where
  "accept_conn ident peer r =
     \<lparr>rx_session = new_receiver_session ident peer r, rx_receiver = r, rx_out = [], rx_open = []\<rparr>"

definition on_session :: "(receiver_session \<Rightarrow> receiver_session) \<Rightarrow> reception \<Rightarrow> reception" where
  "on_session f w = w\<lparr>rx_session := f (rx_session w)\<rparr>"

definition on_receiver :: "(receiver \<Rightarrow> receiver) \<Rightarrow> reception \<Rightarrow> reception" where
  "on_receiver f w = w\<lparr>rx_receiver := f (rx_receiver w)\<rparr>"

definition on_stats :: "(receiver_stats \<Rightarrow> receiver_stats) \<Rightarrow> reception \<Rightarrow> reception" where
  "on_stats f w = on_receiver (\<lambda>r. r\<lparr>mr_stats := f (mr_stats r)\<rparr>) w"

subsection \<open>The capture\<close>

definition append_pcm :: "byte list \<Rightarrow> receiver \<Rightarrow> receiver" where
  "append_pcm payload r =
     r\<lparr>mr_pcm := mr_pcm r @ payload, mr_frames := mr_frames r + int (length payload div 4)\<rparr>"

definition append_silence :: "int \<Rightarrow> receiver \<Rightarrow> receiver" where
  "append_silence frames r =
     (if frames \<le> 0 then r
      else r\<lparr>mr_pcm := mr_pcm r @ replicate (nat (frames * 4)) 0, mr_frames := mr_frames r + frames\<rparr>)"

fun decode_l16_to_le :: "byte list \<Rightarrow> byte list" where
  "decode_l16_to_le (a # b # rest) = b # a # decode_l16_to_le rest"
| "decode_l16_to_le _ = []"

definition put_le16 :: "u16 \<Rightarrow> byte list" where
  "put_le16 w = rev (put_be16 w)"

definition put_le32 :: "u32 \<Rightarrow> byte list" where
  "put_le32 w = rev (put_be32 w)"

definition bytes_of :: "string \<Rightarrow> byte list" where
  "bytes_of s = map of_char s"

text \<open>\<open>writeWAV\<close>: the file, \<open>None\<close> when nothing was captured; \<open>int\<close> values are cut to their field.\<close>

definition wav_header :: "int \<Rightarrow> nat \<Rightarrow> byte list" where
  "wav_header rate n =
     bytes_of ''RIFF'' @ put_le32 (word_of_int (36 + int n)) @ bytes_of ''WAVEfmt '' @ put_le32 16 @ put_le16 1
     @ put_le16 2 @ put_le32 (word_of_int rate) @ put_le32 (word_of_int (go_div (int64 (rate * 2 * 16)) 8))
     @ put_le16 (word_of_int (go_div (2 * 16) 8)) @ put_le16 16 @ bytes_of ''data'' @ put_le32 (word_of_int (int n))"

definition wav_file :: "receiver \<Rightarrow> byte list option" where
  "wav_file r = (if mr_pcm r = [] then None else Some (wav_header (mr_rate r) (length (mr_pcm r)) @ mr_pcm r))"

text \<open>The length main reports; dividing by a sample rate of 0 panics.\<close>

definition capture_duration :: "receiver \<Rightarrow> duration option" where
  "capture_duration r = (if mr_rate r = 0 then None else Some (go_div (int64 (mr_frames r * second)) (mr_rate r)))"

subsection \<open>Audio\<close>

definition retransmit_request :: "u16 \<Rightarrow> u16 \<Rightarrow> byte list" where
  "retransmit_request sq n = [0x80, 0x55] @ put_be16 1 @ put_be16 sq @ put_be16 n"

definition request_retransmit :: "u16 \<Rightarrow> u16 \<Rightarrow> reception \<Rightarrow> reception" where
  "request_retransmit sq n w =
     (case (cs_control_sock (rx_session w), cs_control_addr (rx_session w)) of
        (Some _, Some a) \<Rightarrow>
          (on_stats (\<lambda>x. x\<lparr>sx_retransmits := sx_retransmits x + 1\<rparr>) w)\<lparr>rx_out := rx_out w @ [(a, retransmit_request sq n)]\<rparr>
      | _ \<Rightarrow> w)"

definition store_audio :: "u16 \<Rightarrow> byte list \<Rightarrow> reception \<Rightarrow> reception" where
  "store_audio sq payload w =
     on_session (\<lambda>s. s\<lparr>cs_next_seq := sq + 1\<rparr>) (on_receiver (append_pcm (decode_l16_to_le payload)) w)"

text \<open>The gap is computed in 32 bits from an unsigned 16-bit difference.\<close>

definition seq_delta :: "u16 \<Rightarrow> u16 \<Rightarrow> int" where
  "seq_delta sq expected = sint (ucast (sq - expected) :: u32)"

definition handle_audio_packet :: "byte list \<Rightarrow> reception \<Rightarrow> reception" where
  "handle_audio_packet packet w0 =
     (if length packet < 12 then w0
      else (let sq = get_be16 packet 2;
                payload = drop 12 packet;
                w = on_stats (\<lambda>x. x\<lparr>sx_packets := sx_packets x + 1, sx_bytes := sx_bytes x + int (length payload),
                                    sx_last_seq := uint sq\<rparr>) w0;
                next_seq = cs_next_seq (rx_session w);
                delta = seq_delta sq next_seq
            in if \<not> cs_have_seq (rx_session w)
               then store_audio sq payload (on_session (\<lambda>s. s\<lparr>cs_have_seq := True, cs_next_seq := sq\<rparr>) w)
               else if sq \<noteq> next_seq then
                 (if delta > 0 \<and> delta < 512 then
                    store_audio sq payload
                      (on_session (\<lambda>s. s\<lparr>cs_next_seq := sq\<rparr>)
                        (on_receiver (append_silence (delta * frames_per_packet))
                          (request_retransmit next_seq (word_of_int delta)
                            (on_stats (\<lambda>x. x\<lparr>sx_gaps := sx_gaps x + 1\<rparr>) w))))
                  else if delta < 0 then on_stats (\<lambda>x. x\<lparr>sx_duplicates := sx_duplicates x + 1\<rparr>) w
                  else store_audio sq payload w)
               else store_audio sq payload w))"

definition read_audio :: "byte list \<Rightarrow> reception \<Rightarrow> reception" where
  "read_audio datagram w0 =
     (let buf = take 8192 datagram;
          w = on_stats (\<lambda>x. x\<lparr>sx_datagrams := sx_datagrams x + 1\<rparr>) w0
      in if length buf < 12 then w
         else if buf ! 1 AND 0x7F = 0x60 then handle_audio_packet buf w
         else if buf ! 1 AND 0x7F = 0x56 then (if length buf > 16 then handle_audio_packet (drop 4 buf) w else w)
         else w)"

subsection \<open>The control and timing sockets\<close>

text \<open>
  \<open>readControl\<close> keeps the last sync packet; a later one is logged with the RTP distance, the NTP
  distance and their difference.  The log line is the second result.
\<close>

type_synonym sync_memory = "(u32 \<times> u32) option"

record sync_report =
  sr_latency :: int
  sr_delta_now :: int
  sr_delta_ntp :: int
  sr_skew :: int

definition read_sync :: "int \<Rightarrow> byte list \<Rightarrow> sync_memory \<Rightarrow> sync_report option \<times> sync_memory" where
  "read_sync rate buf mem =
     (let now_without_latency = get_be32 buf 4;
          sec = get_be32 buf 8;
          subsec = get_be32 buf 12;
          now = get_be32 buf 16;
          ntp = push_bit 32 (ucast sec) OR ucast subsec :: u64;
          sync_rtp = ntp_to_rtp ntp rate
      in (case mem of
            None \<Rightarrow> None
          | Some (last_now, last_rtp) \<Rightarrow>
              Some \<lparr>sr_latency = uint now - uint now_without_latency, sr_delta_now = sint (now - last_now),
                    sr_delta_ntp = sint (sync_rtp - last_rtp), sr_skew = sint (now - last_now) - sint (sync_rtp - last_rtp)\<rparr>,
          Some (now, sync_rtp)))"

definition read_control :: "byte list \<Rightarrow> sync_memory \<Rightarrow> reception \<Rightarrow> sync_report option \<times> sync_memory \<times> reception" where
  "read_control datagram mem w =
     (let buf = take 2048 datagram
      in if length buf < 8 then (None, mem, w)
         else if buf ! 1 AND 0x7F = 0x54 then
           (if length buf < 20 then (None, mem, w)
            else (case read_sync (cs_rate (rx_session w)) buf mem of
                    (report, mem') \<Rightarrow> (report, mem', on_stats (\<lambda>x. x\<lparr>sx_syncs := sx_syncs x + 1\<rparr>) w)))
         else if buf ! 1 AND 0x7F = 0x56 \<and> length buf > 16 then (None, mem, handle_audio_packet (drop 4 buf) w)
         else (None, mem, w))"

definition read_timing :: "byte list \<Rightarrow> reception \<Rightarrow> reception" where
  "read_timing datagram w =
     (if length (take 256 datagram) < 32 then w
      else on_stats (\<lambda>x. x\<lparr>sx_timing_replies := sx_timing_replies x + 1\<rparr>) w)"

definition probe_packet :: "time \<Rightarrow> byte list" where
  "probe_packet now =
     (case ntp_parts (ntp_now (unix_sec now) (nanosecond now)) of
        (sec, subsec) \<Rightarrow> [0x80, 0x53] @ put_be16 7 @ replicate 20 0 @ put_be32 sec @ put_be32 subsec)"

definition probe_clock :: "time \<Rightarrow> reception \<Rightarrow> reception" where
  "probe_clock now w =
     (let s = rx_session w
      in if cs_closed s \<or> cs_timing_port s = 0 \<or> cs_remote_ip s = [] then w
         else (on_stats (\<lambda>x. x\<lparr>sx_timing_sent := sx_timing_sent x + 1\<rparr>) w)
                \<lparr>rx_out := rx_out w @ [((cs_remote_ip s, cs_timing_port s), probe_packet now)]\<rparr>)"

subsection \<open>The bodies of requests\<close>

text \<open>\<open>strings.Split(body, "\\r\\n")\<close>.\<close>

fun split_crlf :: "string \<Rightarrow> string list" where
  "split_crlf [] = [[]]"
| "split_crlf [c] = [[c]]"
| "split_crlf (c # d # s) =
     (if c = CHR 0x0D \<and> d = CHR 0x0A then [] # split_crlf s
      else (case split_crlf (d # s) of [] \<Rightarrow> [] | p # ps \<Rightarrow> (c # p) # ps))"

definition sdp_line :: "string \<Rightarrow> receiver_session \<Rightarrow> receiver_session" where
  "sdp_line line s =
     (if prefix ''c=IN IP4 '' line then s\<lparr>cs_remote_ip := trim_space (drop 9 line)\<rparr>
      else if prefix ''a=rtpmap:'' line then
        (case cut (CHR '' '') line of (_, val, found) \<Rightarrow>
           if \<not> found then s
           else (let codec = trim_space val;
                     parts = split_on (CHR ''/'') codec;
                     s = s\<lparr>cs_codec := codec\<rparr>;
                     s = (if length parts \<ge> 2 then (case atoi (parts ! 1) of Some v \<Rightarrow> s\<lparr>cs_rate := v\<rparr> | None \<Rightarrow> s) else s)
                 in if length parts \<ge> 3 then (case atoi (parts ! 2) of Some v \<Rightarrow> s\<lparr>cs_channels := v\<rparr> | None \<Rightarrow> s) else s))
      else s)"

definition parse_sdp :: "string \<Rightarrow> receiver_session \<Rightarrow> receiver_session" where
  "parse_sdp body s0 =
     (let s = fold sdp_line (split_crlf body) s0
      in if cs_remote_ip s = [] then s\<lparr>cs_remote_ip := trim_space (hd (split_on (CHR '':'') (cs_peer s)))\<rparr> else s)"

definition parameter_line :: "string \<Rightarrow> receiver_session \<Rightarrow> receiver_session" where
  "parameter_line line s =
     (case cut (CHR '':'') line of (key, val, found) \<Rightarrow>
        if found \<and> to_lower (trim_space key) = ''volume'' then s\<lparr>cs_volume := trim_space val\<rparr> else s)"

definition parse_parameters :: "string \<Rightarrow> receiver_session \<Rightarrow> receiver_session" where
  "parse_parameters body s = fold parameter_line (split_crlf body) s"

subsection \<open>Handling requests\<close>

definition base_headers :: "rtsp_request \<Rightarrow> headers" where
  "base_headers q = [''CSeq'' \<mapsto> get_or_empty (nq_headers q) ''cseq'', ''Server'' \<mapsto> server_name]"

definition plain_reply :: "int \<Rightarrow> string \<Rightarrow> headers \<Rightarrow> rtsp_reply" where
  "plain_reply code message m = \<lparr>rp_code = code, rp_message = message, rp_headers = m, rp_body = [], rp_close = False\<rparr>"

definition ok_reply :: "headers \<Rightarrow> rtsp_reply" where
  "ok_reply m = plain_reply 200 ''OK'' m"

definition setup_transport :: "int \<Rightarrow> int \<Rightarrow> int \<Rightarrow> string" where
  "setup_transport audio control timing =
     ''RTP/AVP/UDP;unicast;interleaved=0-1;mode=record;server_port='' @ itoa audio @ '';control_port='' @ itoa control
     @ '';timing_port='' @ itoa timing"

text \<open>\<open>ports\<close> are the ports the system assigns to the three sockets, \<open>None\<close> where one cannot be opened.\<close>

type_synonym setup_ports = "int option \<times> int option \<times> int option"

definition sender_port :: "string \<Rightarrow> (string \<rightharpoonup> string) \<Rightarrow> int \<Rightarrow> int" where
  "sender_port name options old =
     (case options name of None \<Rightarrow> old | Some raw \<Rightarrow> (case atoi raw of None \<Rightarrow> old | Some p \<Rightarrow> p))"

definition handle_setup :: "setup_ports \<Rightarrow> headers \<Rightarrow> rtsp_request \<Rightarrow> reception \<Rightarrow> rtsp_reply \<times> reception" where
  "handle_setup ports base q w =
     (case ports of (audio, control, timing) \<Rightarrow>
        (let options = parse_transport_options (get_or_empty (nq_headers q) ''transport'');
             failed = plain_reply 500 ''Internal Server Error'' base
         in case audio of
              None \<Rightarrow> (failed, on_session (\<lambda>s. s\<lparr>cs_audio_sock := None\<rparr>) w)
            | Some a \<Rightarrow>
                (case control of
                   None \<Rightarrow> (failed, (on_session (\<lambda>s. s\<lparr>cs_audio_sock := Some a, cs_control_sock := None\<rparr>) w)\<lparr>rx_open := a # rx_open w\<rparr>)
                 | Some c \<Rightarrow>
                     (case timing of
                        None \<Rightarrow>
                          (failed, (on_session (\<lambda>s. s\<lparr>cs_audio_sock := Some a, cs_control_sock := Some c, cs_timing_sock := None\<rparr>) w)
                                     \<lparr>rx_open := c # a # rx_open w\<rparr>)
                      | Some t \<Rightarrow>
                          (ok_reply (base(''Session'' \<mapsto> itoa (uint (cs_id (rx_session w))),
                                          ''Transport'' \<mapsto> setup_transport a c t)),
                           (on_session (\<lambda>s.
                              let cp = sender_port ''control_port'' options (cs_control_port s)
                              in s\<lparr>cs_audio_sock := Some a, cs_control_sock := Some c, cs_timing_sock := Some t,
                                   cs_control_port := cp,
                                   cs_timing_port := sender_port ''timing_port'' options (cs_timing_port s),
                                   cs_control_addr := Some (cs_remote_ip s, cp)\<rparr>) w)
                             \<lparr>rx_open := t # c # a # rx_open w\<rparr>)))))"

definition public_methods :: string where
  "public_methods =
     ''ANNOUNCE, SETUP, RECORD, PAUSE, FLUSH, TEARDOWN, OPTIONS, GET_PARAMETER, SET_PARAMETER, POST, GET''"

definition handle :: "setup_ports \<Rightarrow> rtsp_request \<Rightarrow> reception \<Rightarrow> rtsp_reply \<times> reception" where
  "handle ports q w =
     (let base = base_headers q; verb = nq_method q
      in if verb = ''OPTIONS'' then (ok_reply (base(''Public'' \<mapsto> public_methods)), w)
         else if verb = ''ANNOUNCE'' then
           (ok_reply (base(''Content-Type'' \<mapsto> ''application/sdp'')), on_session (parse_sdp (nq_body q)) w)
         else if verb = ''SETUP'' then handle_setup ports base q w
         else if verb = ''RECORD'' then
           (ok_reply (base(''Audio-Latency'' \<mapsto> itoa latency_frames)), on_session (\<lambda>s. s\<lparr>cs_recording := True\<rparr>) w)
         else if verb = ''FLUSH'' then (ok_reply base, on_session (\<lambda>s. s\<lparr>cs_have_seq := False\<rparr>) w)
         else if verb = ''SET_PARAMETER'' then
           (ok_reply base,
            if sublist ''text/parameters'' (to_lower (get_or_empty (nq_headers q) ''content-type''))
            then on_session (parse_parameters (nq_body q)) w else w)
         else if verb = ''GET_PARAMETER'' then
           ((ok_reply (base(''Content-Type'' \<mapsto> ''text/parameters'')))
              \<lparr>rp_body := ''volume: '' @ cs_volume (rx_session w) @ crlf\<rparr>, w)
         else if verb = ''POST'' then
           (if prefix ''/feedback'' (nq_uri q) \<or> prefix ''/command'' (nq_uri q) then ok_reply base
            else plain_reply 404 ''Not Found'' base, w)
         else if verb = ''TEARDOWN'' then
           ((ok_reply base)\<lparr>rp_close := True\<rparr>, on_session (\<lambda>s. s\<lparr>cs_recording := False\<rparr>) w)
         else if verb = ''GET'' then (plain_reply 404 ''Not Found'' base, w)
         else (plain_reply 405 ''Method Not Allowed'' base, w))"

subsection \<open>The connection\<close>

definition close_session :: "reception \<Rightarrow> reception" where
  "close_session w =
     (if cs_closed (rx_session w) then w
      else (on_session (\<lambda>s. s\<lparr>cs_closed := True\<rparr>) w)
             \<lparr>rx_open := fold removeAll
                (List.map_filter (\<lambda>x. x) [cs_audio_sock (rx_session w), cs_control_sock (rx_session w), cs_timing_sock (rx_session w)])
                (rx_open w)\<rparr>)"

text \<open>\<open>sessionEnded\<close>: when the process is to stop, and how long it keeps capturing before.\<close>

definition session_ended :: "receiver \<Rightarrow> receiver \<times> duration option" where
  "session_ended r =
     (if \<not> mr_exit_on_end r then (r, None)
      else (let r' = r\<lparr>mr_served := mr_served r + 1\<rparr>
            in (r', if mr_served r' > 1 then None else Some (if mr_grace r \<le> 0 then 2 * second else mr_grace r))))"

record conn_io =
  io_ports :: setup_ports
  io_order :: "string list"
  io_write_ok :: bool

definition serve_request :: "conn_io \<Rightarrow> rtsp_request \<Rightarrow> reception \<Rightarrow> rtsp_reply \<times> reception" where
  "serve_request io q w = handle (io_ports io) q (on_stats (\<lambda>x. x\<lparr>sx_requests := sx_requests x + 1\<rparr>) w)"

function serve_conn :: "(nat \<Rightarrow> conn_io) \<Rightarrow> nat \<Rightarrow> string \<Rightarrow> reception \<Rightarrow> string list \<times> reception" where
  "serve_conn io n s w =
     (case read_request s of
        Inl _ \<Rightarrow> ([], w)
      | Inr (q, rest) \<Rightarrow>
          (case serve_request (io n) q w of
             (r, w') \<Rightarrow>
               if \<not> io_write_ok (io n) then ([], w')
               else if rp_close r then ([write_response (io_order (io n)) r], w')
               else (case serve_conn io (Suc n) rest w' of
                       (replies, w'') \<Rightarrow> (write_response (io_order (io n)) r # replies, w''))))"
  by pat_completeness auto
termination
  by (relation "measure (\<lambda>(io, n, s, w). length s)") (auto dest: read_request_length)

declare serve_conn.simps [simp del]

definition run_conn :: "(nat \<Rightarrow> conn_io) \<Rightarrow> string \<Rightarrow> reception \<Rightarrow> string list \<times> reception \<times> duration option" where
  "run_conn io s w =
     (case serve_conn io 0 s w of
        (replies, w') \<Rightarrow>
          (case session_ended (rx_receiver (close_session w')) of
             (r, stop) \<Rightarrow> (replies, (close_session w')\<lparr>rx_receiver := r\<rparr>, stop)))"

subsection \<open>The mDNS records\<close>

definition raop_records :: "receiver \<Rightarrow> string list" where
  "raop_records r =
     [''txtvers=1'', ''ch=2'', ''cn=0,1'', ''et=0,3,5'', ''sv=false'', ''da=true'', ''sr='' @ itoa (mr_rate r), ''ss=16'',
      ''pw=false'', ''vn=65537'', ''tp=UDP'', ''md=0,1,2'', ''sm=false'', ''ek=1'', ''vs=130.14'', ''am=AudioAccessory5,1'']"

definition raop_instance :: "receiver \<Rightarrow> string" where
  "raop_instance r = filter (\<lambda>c. c \<noteq> CHR '':'') (mr_mac r) @ ''@'' @ mr_name r"

definition airplay_records :: "receiver \<Rightarrow> string list" where
  "airplay_records r =
     [''deviceid='' @ mr_mac r, ''features=0x4A7FCA00,0x3C356BD0'', ''flags=0x4'', ''sf=0x4'', ''model=AudioAccessory5,1'',
      ''srcvers=130.14'', ''protovers=1.1'', ''pk='' @ replicate 64 (CHR ''0''),
      ''pi=00000000-0000-0000-0000-000000000000'', ''gid=00000000-0000-0000-0000-000000000000'']"

subsection \<open>What one packet does\<close>

lemma on_simps [simp]:
  "rx_session (on_session f w) = f (rx_session w)" "rx_receiver (on_session f w) = rx_receiver w"
  "rx_out (on_session f w) = rx_out w" "rx_open (on_session f w) = rx_open w"
  "rx_session (on_receiver g w) = rx_session w" "rx_receiver (on_receiver g w) = g (rx_receiver w)"
  "rx_out (on_receiver g w) = rx_out w" "rx_open (on_receiver g w) = rx_open w"
  by (simp_all add: on_session_def on_receiver_def)

lemma on_stats_simps [simp]:
  "rx_session (on_stats h w) = rx_session w" "rx_out (on_stats h w) = rx_out w" "rx_open (on_stats h w) = rx_open w"
  "mr_pcm (rx_receiver (on_stats h w)) = mr_pcm (rx_receiver w)"
  "mr_frames (rx_receiver (on_stats h w)) = mr_frames (rx_receiver w)"
  "mr_stats (rx_receiver (on_stats h w)) = h (mr_stats (rx_receiver w))"
  by (simp_all add: on_stats_def)

lemma append_simps [simp]:
  "mr_pcm (append_pcm p r) = mr_pcm r @ p" "mr_frames (append_pcm p r) = mr_frames r + int (length p div 4)"
  "mr_stats (append_pcm p r) = mr_stats r" "mr_stats (append_silence n r) = mr_stats r"
  "mr_pcm (append_silence n r) = mr_pcm r @ replicate (nat (n * 4)) 0"
  "mr_frames (append_silence n r) = mr_frames r + max 0 n"
  by (simp_all add: append_pcm_def append_silence_def)

lemma seq_delta_uint: "seq_delta a b = uint (a - b)"
proof -
  have b: "0 \<le> uint (a - b)" "uint (a - b) < 2 ^ 16"
    using uint_bounded [of "a - b"] by simp_all
  have "signed_take_bit 31 (uint (a - b)) = uint (a - b)"
  proof (rule signed_take_bit_int_eq_self)
    show "- (2 ^ 31) \<le> uint (a - b)"
      by (rule order_trans [OF _ b(1)]) simp
    show "uint (a - b) < 2 ^ 31"
      by (rule less_trans [OF b(2)]) simp
  qed
  then show ?thesis
    using b by (simp add: seq_delta_def sint_uint unsigned_ucast_eq take_bit_int_eq_self)
qed

lemma seq_delta_nonneg: "0 \<le> seq_delta a b"
  by (simp add: seq_delta_uint)

lemma request_retransmit_simps [simp]:
  "rx_session (request_retransmit a n w) = rx_session w" "rx_open (request_retransmit a n w) = rx_open w"
  "mr_pcm (rx_receiver (request_retransmit a n w)) = mr_pcm (rx_receiver w)"
  "mr_frames (rx_receiver (request_retransmit a n w)) = mr_frames (rx_receiver w)"
  "sx_duplicates (mr_stats (rx_receiver (request_retransmit a n w))) = sx_duplicates (mr_stats (rx_receiver w))"
  "rx_out (request_retransmit a n w) =
     rx_out w @ (case (cs_control_sock (rx_session w), cs_control_addr (rx_session w)) of
                   (Some _, Some to) \<Rightarrow> [(to, retransmit_request a n)] | _ \<Rightarrow> [])"
  by (simp_all add: request_retransmit_def split: option.split)

text \<open>
  Where a packet lands: what is inserted before it and where the timeline stands after it.  \<open>d\<close> is
  the distance from the expected sequence number, 0 before the first packet.
\<close>

definition packet_distance :: "u16 \<Rightarrow> reception \<Rightarrow> nat" where
  "packet_distance sq w = (if cs_have_seq (rx_session w) then unat (sq - cs_next_seq (rx_session w)) else 0)"

definition gap_before :: "u16 \<Rightarrow> reception \<Rightarrow> nat" where
  "gap_before sq w = (if packet_distance sq w < 512 then packet_distance sq w else 0)"

lemma packet_effect:
  assumes "length packet \<ge> 12" "get_be16 packet 2 = sq"
  shows "mr_pcm (rx_receiver (handle_audio_packet packet w))
       = mr_pcm (rx_receiver w) @ replicate (gap_before sq w * 1408) 0 @ decode_l16_to_le (drop 12 packet)"
    and "mr_frames (rx_receiver (handle_audio_packet packet w))
       = mr_frames (rx_receiver w) + int (gap_before sq w * 352) + int (length (decode_l16_to_le (drop 12 packet)) div 4)"
    and "rx_session (handle_audio_packet packet w) = (rx_session w)\<lparr>cs_have_seq := True, cs_next_seq := sq + 1\<rparr>"
    and "sx_duplicates (mr_stats (rx_receiver (handle_audio_packet packet w))) = sx_duplicates (mr_stats (rx_receiver w))"
    and "rx_out (handle_audio_packet packet w) = rx_out w @
          (if gap_before sq w = 0 then []
           else case (cs_control_sock (rx_session w), cs_control_addr (rx_session w)) of
                  (Some _, Some to) \<Rightarrow> [(to, retransmit_request (cs_next_seq (rx_session w)) (of_nat (gap_before sq w)))] | _ \<Rightarrow> [])"
proof -
  have len: "\<not> length packet < 12"
    using assms(1) by simp
  define d where "d = unat (sq - cs_next_seq (rx_session w))"
  have delta: "seq_delta sq (cs_next_seq (rx_session w)) = int d"
    by (simp add: seq_delta_uint d_def)
  have same: "sq = cs_next_seq (rx_session w) \<longleftrightarrow> d = 0"
    by (simp add: d_def unat_eq_zero)
  have have_seq: "rx_session w = (rx_session w)\<lparr>cs_have_seq := True\<rparr>" if "cs_have_seq (rx_session w)"
    using that by simp
  note defs = handle_audio_packet_def len assms(2) Let_def store_audio_def frames_per_packet_def
    gap_before_def packet_distance_def delta d_def [symmetric]
  show "mr_pcm (rx_receiver (handle_audio_packet packet w))
       = mr_pcm (rx_receiver w) @ replicate (gap_before sq w * 1408) 0 @ decode_l16_to_le (drop 12 packet)"
    using same by (auto simp: defs nat_mult_distrib)
  show "mr_frames (rx_receiver (handle_audio_packet packet w))
       = mr_frames (rx_receiver w) + int (gap_before sq w * 352) + int (length (decode_l16_to_le (drop 12 packet)) div 4)"
    using same by (auto simp: defs)
  show "rx_session (handle_audio_packet packet w) = (rx_session w)\<lparr>cs_have_seq := True, cs_next_seq := sq + 1\<rparr>"
    using have_seq by (auto simp: defs)
  show "sx_duplicates (mr_stats (rx_receiver (handle_audio_packet packet w))) = sx_duplicates (mr_stats (rx_receiver w))"
    by (simp add: defs)
  show "rx_out (handle_audio_packet packet w) = rx_out w @
          (if gap_before sq w = 0 then []
           else case (cs_control_sock (rx_session w), cs_control_addr (rx_session w)) of
                  (Some _, Some to) \<Rightarrow> [(to, retransmit_request (cs_next_seq (rx_session w)) (of_nat (gap_before sq w)))] | _ \<Rightarrow> [])"
    using same by (auto simp: defs split: option.split)
qed

subsection \<open>The capture keeps the timeline\<close>

lemma gap_before_stats [simp]: "gap_before sq (on_stats h w) = gap_before sq w"
  by (simp add: gap_before_def packet_distance_def)

lemma length_decode: "length (decode_l16_to_le p) = 2 * (length p div 2)"
  by (induction p rule: decode_l16_to_le.induct) simp_all

lemma read_audio_data:
  assumes "length payload \<le> 8180"
  shows "read_audio (audio_packet sq t ssrc first payload) w
       = handle_audio_packet (audio_packet sq t ssrc first payload) (on_stats (\<lambda>x. x\<lparr>sx_datagrams := sx_datagrams x + 1\<rparr>) w)"
proof -
  have "audio_packet sq t ssrc first payload ! 1 AND 0x7F = 0x60"
    by (subst audio_packet_type(2)) simp
  then show ?thesis
    using assms by (simp add: read_audio_def Let_def)
qed

text \<open>A full stereo packet.\<close>

lemma data_effect:
  assumes "length payload = 1408" "w' = read_audio (audio_packet sq t ssrc first payload) w"
  shows "mr_pcm (rx_receiver w') = mr_pcm (rx_receiver w) @ replicate (gap_before sq w * 1408) 0 @ decode_l16_to_le payload"
    and "mr_frames (rx_receiver w') = mr_frames (rx_receiver w) + int (gap_before sq w * 352) + 352"
    and "rx_session w' = (rx_session w)\<lparr>cs_have_seq := True, cs_next_seq := sq + 1\<rparr>"
proof -
  let ?p = "audio_packet sq t ssrc first payload"
  have w': "w' = handle_audio_packet ?p (on_stats (\<lambda>x. x\<lparr>sx_datagrams := sx_datagrams x + 1\<rparr>) w)"
    unfolding assms(2) using assms(1) by (simp add: read_audio_data)
  note e = packet_effect [of ?p sq "on_stats (\<lambda>x. x\<lparr>sx_datagrams := sx_datagrams x + 1\<rparr>) w", folded w']
  show "mr_pcm (rx_receiver w') = mr_pcm (rx_receiver w) @ replicate (gap_before sq w * 1408) 0 @ decode_l16_to_le payload"
    using e(1) by simp
  show "mr_frames (rx_receiver w') = mr_frames (rx_receiver w) + int (gap_before sq w * 352) + 352"
    using e(2) by (simp add: length_decode assms(1))
  show "rx_session w' = (rx_session w)\<lparr>cs_have_seq := True, cs_next_seq := sq + 1\<rparr>"
    using e(3) by simp
qed

definition time_slot :: "byte list list \<Rightarrow> nat set \<Rightarrow> nat \<Rightarrow> byte list" where
  "time_slot ps received i = (if i \<in> received then decode_l16_to_le (ps ! i) else replicate 1408 0)"

definition receive :: "(nat \<Rightarrow> byte list) \<Rightarrow> nat list \<Rightarrow> reception \<Rightarrow> reception" where
  "receive packet is w = fold (\<lambda>i. read_audio (packet i)) is w"

definition close_enough :: "nat \<Rightarrow> nat \<Rightarrow> bool" where
  "close_enough i j \<longleftrightarrow> i < j \<and> j - Suc i < 512"

lemma close_enough_above: "successively close_enough (i # js) \<Longrightarrow> \<forall>j \<in> set js. i < j"
proof (induction js arbitrary: i)
  case (Cons j js)
  from Cons.prems have "i < j" "successively close_enough (j # js)"
    by (simp_all add: close_enough_def)
  with Cons.IH [of j] show ?case
    by auto
qed simp

lemma distance_of: "i < j \<Longrightarrow> j - Suc i < 512 \<Longrightarrow> unat (q0 + of_nat j - (q0 + of_nat i + 1) :: u16) = j - Suc i"
proof -
  assume "i < j" "j - Suc i < 512"
  then have "j = (j - Suc i) + Suc i"
    by simp
  then have "(of_nat j :: u16) = of_nat (j - Suc i) + of_nat (Suc i)"
    by (metis of_nat_add)
  then have "q0 + of_nat j - (q0 + of_nat i + 1) = (of_nat (j - Suc i) :: u16)"
    by (simp only: of_nat_Suc) simp
  then show ?thesis
    using \<open>j - Suc i < 512\<close> by (simp add: unsigned_of_nat take_bit_nat_eq_self)
qed

lemma concat_replicate: "concat (map (\<lambda>_. replicate n x) is) = replicate (length is * n) x"
  by (induction "is") (simp_all add: replicate_add)

lemma receive_rest:
  assumes "\<And>i. i < length ps \<Longrightarrow> packet i = audio_packet (q0 + of_nat i) (ts i) ssrc (first i) (ps ! i)"
    and "\<forall>p \<in> set ps. length p = 1408"
    and "successively close_enough (i # js)" "\<forall>j \<in> set js. j < length ps"
    and "cs_have_seq (rx_session w)" "cs_next_seq (rx_session w) = q0 + of_nat i + 1"
  shows "mr_pcm (rx_receiver (receive packet js w))
       = mr_pcm (rx_receiver w) @ concat (map (time_slot ps (set js)) [Suc i..<Suc (last (i # js))])
       \<and> mr_frames (rx_receiver (receive packet js w)) = mr_frames (rx_receiver w) + 352 * int (last (i # js) - i)
       \<and> rx_session (receive packet js w) = (rx_session w)\<lparr>cs_next_seq := q0 + of_nat (last (i # js)) + 1\<rparr>"
  using assms(3-6)
proof (induction js arbitrary: i w)
  case Nil
  then show ?case
    by (simp add: receive_def)
next
  case (Cons j js)
  have ij: "i < j" "j - Suc i < 512" and rest: "successively close_enough (j # js)" and jn: "j < length ps"
    using Cons.prems by (auto simp: close_enough_def)
  have above: "\<forall>k \<in> set js. j < k"
    by (rule close_enough_above [OF rest])
  let ?w = "read_audio (packet j) w"
  have pj: "packet j = audio_packet (q0 + of_nat j) (ts j) ssrc (first j) (ps ! j)"
    by (rule assms(1) [OF jn])
  have gap: "gap_before (q0 + of_nat j) w = j - Suc i"
    using Cons.prems(3,4) distance_of [OF ij, of q0] ij(2) by (simp add: gap_before_def packet_distance_def)
  have len: "length (ps ! j) = 1408"
    using assms(2) jn by simp
  have eq: "?w = read_audio (audio_packet (q0 + of_nat j) (ts j) ssrc (first j) (ps ! j)) w"
    by (simp only: pj)
  note e = data_effect [OF len eq]
  have s: "rx_session ?w = (rx_session w)\<lparr>cs_next_seq := q0 + of_nat j + 1\<rparr>"
    using e(3) Cons.prems(3) by simp
  have h: "cs_have_seq (rx_session ?w)" "cs_next_seq (rx_session ?w) = q0 + of_nat j + 1"
    using Cons.prems(3) by (simp_all add: s)
  have ih: "mr_pcm (rx_receiver (receive packet js ?w))
       = mr_pcm (rx_receiver ?w) @ concat (map (time_slot ps (set js)) [Suc j..<Suc (last (j # js))])
       \<and> mr_frames (rx_receiver (receive packet js ?w)) = mr_frames (rx_receiver ?w) + 352 * int (last (j # js) - j)
       \<and> rx_session (receive packet js ?w) = (rx_session ?w)\<lparr>cs_next_seq := q0 + of_nat (last (j # js)) + 1\<rparr>"
    using Cons.prems(2) by (intro Cons.IH rest h) simp
  have last_ge: "j \<le> last (j # js)"
    using above last_in_set [of "j # js"] by (auto simp: less_imp_le)
  have split: "[Suc i..<Suc (last (j # js))] = [Suc i..<j] @ j # [Suc j..<Suc (last (j # js))]"
    using upt_add_eq_append [of "Suc i" j "Suc (last (j # js)) - j"] upt_conv_Cons [of j "Suc (last (j # js))"] ij(1) last_ge
    by simp
  have m1: "map (time_slot ps (set (j # js))) [Suc i..<j] = map (\<lambda>_. replicate 1408 0) [Suc i..<j]"
    using above by (intro map_cong refl) (auto simp: time_slot_def)
  have m2: "map (time_slot ps (set (j # js))) [Suc j..<Suc (last (j # js))] = map (time_slot ps (set js)) [Suc j..<Suc (last (j # js))]"
    by (intro map_cong refl) (auto simp: time_slot_def)
  have slots: "concat (map (time_slot ps (set (j # js))) [Suc i..<Suc (last (j # js))])
      = replicate ((j - Suc i) * 1408) 0 @ decode_l16_to_le (ps ! j)
        @ concat (map (time_slot ps (set js)) [Suc j..<Suc (last (j # js))])"
    unfolding split map_append list.map concat_append concat.simps m1 m2
    by (simp add: concat_replicate) (simp add: time_slot_def)
  have r: "receive packet (j # js) w = receive packet js ?w"
    by (simp add: receive_def)
  have l: "last (i # j # js) = last (j # js)"
    by simp
  have "mr_pcm (rx_receiver (receive packet (j # js) w))
      = mr_pcm (rx_receiver w) @ concat (map (time_slot ps (set (j # js))) [Suc i..<Suc (last (j # js))])"
    unfolding slots r using ih e(1) by (simp add: gap)
  moreover have "mr_frames (rx_receiver (receive packet (j # js) w)) = mr_frames (rx_receiver w) + 352 * int (last (j # js) - i)"
  proof -
    have "mr_frames (rx_receiver ?w) = mr_frames (rx_receiver w) + int ((j - Suc i) * 352) + 352"
      using e(2) by (simp add: gap)
    then show ?thesis
      unfolding r using ih ij(1) last_ge by (simp add: of_nat_diff algebra_simps)
  qed
  moreover have "rx_session (receive packet (j # js) w) = (rx_session w)\<lparr>cs_next_seq := q0 + of_nat (last (j # js)) + 1\<rparr>"
    unfolding r using ih by (simp add: s)
  ultimately show ?case
    unfolding l by blast
qed

text \<open>
  C17: The capture keeps time over lost packets.  Of a stream of full stereo packets, numbered from
  any sequence number across its wrap-around, let any part arrive in order, with fewer than 512
  packets missing in a row.  The capture is then the stream from the first packet that arrived to
  the last: each packet that arrived is at its own position, byte order swapped for the WAV file, and
  silence of the same length stands for each one that did not.
\<close>

lemma capture_keeps_time:
  assumes "\<And>i. i < length ps \<Longrightarrow> packet i = audio_packet (base + of_nat i) (ts i) ssrc (first i) (ps ! i)"
    and "\<forall>p \<in> set ps. length p = 1408" "i < length ps"
    and "successively close_enough (i # js)" "\<forall>j \<in> set js. j < length ps"
    and "\<not> cs_have_seq (rx_session w)"
  shows "mr_pcm (rx_receiver (receive packet (i # js) w))
       = mr_pcm (rx_receiver w) @ concat (map (time_slot ps (set (i # js))) [i..<Suc (last (i # js))])
       \<and> mr_frames (rx_receiver (receive packet (i # js) w))
       = mr_frames (rx_receiver w) + 352 * (int (last (i # js) - i) + 1)"
proof -
  let ?w = "read_audio (packet i) w"
  have len: "length (ps ! i) = 1408"
    using assms(2,3) by simp
  have eq: "?w = read_audio (audio_packet (base + of_nat i) (ts i) ssrc (first i) (ps ! i)) w"
    by (simp only: assms(1) [OF assms(3)])
  note e = data_effect [OF len eq]
  have gap: "gap_before (base + of_nat i) w = 0"
    using assms(6) by (simp add: gap_before_def packet_distance_def)
  have h: "cs_have_seq (rx_session ?w)" "cs_next_seq (rx_session ?w) = base + of_nat i + 1"
    using e(3) by simp_all
  note r = receive_rest [OF assms(1,2,4,5) h]
  have above: "\<forall>k \<in> set js. i < k"
    by (rule close_enough_above [OF assms(4)])
  have "i \<le> last (i # js)"
    using above last_in_set [of "i # js"] by (auto simp: less_imp_le)
  then have up: "[i..<Suc (last (i # js))] = i # [Suc i..<Suc (last (i # js))]"
    by (simp only: upt_conv_Cons le_imp_less_Suc)
  have "map (time_slot ps (set (i # js))) [Suc i..<Suc (last (i # js))] = map (time_slot ps (set js)) [Suc i..<Suc (last (i # js))]"
    by (intro map_cong refl) (auto simp: time_slot_def)
  then have slots: "concat (map (time_slot ps (set (i # js))) [i..<Suc (last (i # js))])
      = decode_l16_to_le (ps ! i) @ concat (map (time_slot ps (set js)) [Suc i..<Suc (last (i # js))])"
    by (simp only: up list.map concat.simps) (simp add: time_slot_def)
  have st: "receive packet (i # js) w = receive packet js ?w"
    by (simp add: receive_def)
  show ?thesis
    unfolding slots st using r e(1,2) by (simp add: gap)
qed

definition demo_pcm :: "byte list list" where
  "demo_pcm = map (replicate 1408) [1, 2, 3]"

definition demo_packet :: "nat \<Rightarrow> byte list" where
  "demo_packet i = audio_packet (65535 + of_nat i) 0 7 (i = 0) (demo_pcm ! i)"

definition demo_reception :: reception where
  "demo_reception = accept_conn 9 ''10.0.0.2:5000'' (new_receiver ''Mock'' ''AA-BB'' 7000 44100 True 0)"

lemma demo_pcm_length: "\<forall>p \<in> set demo_pcm. length p = 1408" "length demo_pcm = 3"
  by (simp_all add: demo_pcm_def)

lemma demo_reception_fields:
  "\<not> cs_have_seq (rx_session demo_reception)" "mr_pcm (rx_receiver demo_reception) = []"
  "mr_frames (rx_receiver demo_reception) = 0"
  by (simp_all add: demo_reception_def accept_conn_def new_receiver_session_def new_receiver_def)

lemma capture_keeps_time_witness:
  "mr_frames (rx_receiver (receive demo_packet [0, 2] demo_reception)) = 3 * 352"
  using capture_keeps_time [where ps = demo_pcm and packet = demo_packet and base = 65535 and ts = "\<lambda>_. 0" and ssrc = 7
      and first = "\<lambda>i. i = 0" and i = 0 and js = "[2]" and w = demo_reception] demo_pcm_length
  by (simp add: demo_packet_def demo_reception_fields close_enough_def)

lemma retransmit_type: "retransmit_reply p ! Suc 0 AND 0x7F = 0x56" "drop 4 (retransmit_reply p) = p"
  "length (retransmit_reply p) = 4 + length p"
  by (simp_all add: retransmit_reply_def)

lemma unat_minus_of_nat: "0 < k \<Longrightarrow> k < 65536 \<Longrightarrow> unat (- of_nat k :: u16) = 65536 - k"
proof -
  assume k: "0 < k" "k < 65536"
  have "(of_nat (65536 - k) :: u16) + of_nat k = of_nat (65536 - k + k)"
    by (simp only: of_nat_add)
  also have "\<dots> = of_nat 65536"
    using k by simp
  also have "\<dots> = 0"
    by simp
  finally have "(- of_nat k :: u16) = of_nat (65536 - k)"
    by (metis eq_neg_iff_add_eq_0)
  then show ?thesis
    using k by (simp only: unsigned_of_nat) (simp add: take_bit_nat_eq_self)
qed

text \<open>The distance of a packet that comes \<open>k\<close> late, and of the live packet that follows it.\<close>

lemma late_gaps:
  assumes "cs_have_seq (rx_session w)" "2 \<le> k" "k \<le> 512"
  shows "cs_next_seq (rx_session w) = n \<Longrightarrow> gap_before (n - of_nat k) w = 0"
    and "cs_next_seq (rx_session w) = n - of_nat k + 1 \<Longrightarrow> gap_before n w = k - 1"
proof -
  show "gap_before (n - of_nat k) w = 0" if "cs_next_seq (rx_session w) = n"
  proof -
    have "packet_distance (n - of_nat k) w = unat (- of_nat k :: u16)"
      using assms(1) that by (simp add: packet_distance_def)
    then show ?thesis
      using assms(2,3) by (simp add: gap_before_def unat_minus_of_nat)
  qed
  show "gap_before n w = k - 1" if "cs_next_seq (rx_session w) = n - of_nat k + 1"
  proof -
    have "n - (n - of_nat k + 1) = (of_nat (k - 1) :: u16)"
      using assms(2) by (simp add: of_nat_diff)
    then have "packet_distance n w = unat (of_nat (k - 1) :: u16)"
      using assms(1) that by (simp only: packet_distance_def if_True)
    also have "\<dots> = k - 1"
      using assms(3) by (simp only: unsigned_of_nat) (simp add: take_bit_nat_eq_self)
    finally show ?thesis
      using assms(3) by (simp add: gap_before_def)
  qed
qed

text \<open>
  A retransmitted packet does harm.  A packet that comes back late, up to 512 behind, is not
  recognised as late, because the distance is computed without a sign (the branch that counts
  duplicates is never taken): it is appended at the end of the capture, the expected sequence number
  moves back, and the next live packet then looks like a new gap, for which silence is inserted and
  packets are requested again.
\<close>

lemma late_packet_breaks_time:
  assumes "cs_have_seq (rx_session w)" "cs_next_seq (rx_session w) = n" "2 \<le> k" "k \<le> 512"
    and "cs_control_sock (rx_session w) = Some c" "cs_control_addr (rx_session w) = Some to"
    and "length late = 1408" "length live = 1408"
    and "(report, mem', w1) = read_control (retransmit_reply (audio_packet (n - of_nat k) t1 ssrc f1 late)) mem w"
    and "w2 = read_audio (audio_packet n t2 ssrc f2 live) w1"
  shows "mr_pcm (rx_receiver w2)
       = mr_pcm (rx_receiver w) @ decode_l16_to_le late @ replicate ((k - 1) * 1408) 0 @ decode_l16_to_le live
       \<and> rx_out w2 = rx_out w @ [(to, retransmit_request (n - of_nat k + 1) (of_nat (k - 1)))]
       \<and> sx_duplicates (mr_stats (rx_receiver w2)) = sx_duplicates (mr_stats (rx_receiver w))"
proof -
  let ?p = "audio_packet (n - of_nat k) t1 ssrc f1 late" and ?q = "audio_packet n t2 ssrc f2 live"
  let ?w1 = "on_stats (\<lambda>x. x\<lparr>sx_datagrams := sx_datagrams x + 1\<rparr>) w1"
  have w1: "w1 = handle_audio_packet ?p w" and w2: "w2 = handle_audio_packet ?q ?w1"
    using assms(7-10) by (simp_all add: read_control_def retransmit_type Let_def read_audio_data)
  note e1 = packet_effect [of ?p "n - of_nat k" w, folded w1] and e2 = packet_effect [of ?q n ?w1, folded w2]
  have s1: "rx_session w1 = (rx_session w)\<lparr>cs_have_seq := True, cs_next_seq := n - of_nat k + 1\<rparr>"
    using e1(3) by simp
  have g: "gap_before (n - of_nat k) w = 0" "gap_before n w1 = k - 1"
    using late_gaps(1) [OF assms(1,3,4,2)] late_gaps(2) [of w1 k n] assms(3,4) by (simp_all add: s1)
  have "mr_pcm (rx_receiver w2)
       = mr_pcm (rx_receiver w) @ decode_l16_to_le late @ replicate ((k - 1) * 1408) 0 @ decode_l16_to_le live"
    using e1(1) e2(1) by (simp add: g)
  moreover have "rx_out w2 = rx_out w @ [(to, retransmit_request (n - of_nat k + 1) (of_nat (k - 1)))]"
    using e1(5) e2(5) assms(3) by (simp add: g s1 assms(5,6))
  moreover have "sx_duplicates (mr_stats (rx_receiver w2)) = sx_duplicates (mr_stats (rx_receiver w))"
    using e1(4) e2(4) by simp
  ultimately show ?thesis
    by blast
qed

lemma late_packet_breaks_time_witness:
  defines "w \<equiv> on_session (\<lambda>s. s\<lparr>cs_have_seq := True, cs_next_seq := 1, cs_control_sock := Some 6001,
                             cs_control_addr := Some (''10.0.0.2'', 6000)\<rparr>) demo_reception"
  shows "mr_pcm (rx_receiver (read_audio (audio_packet 1 0 7 False (replicate 1408 3))
           (snd (snd (read_control (retransmit_reply (audio_packet 65535 0 7 False (replicate 1408 2))) None w)))))
       = decode_l16_to_le (replicate 1408 2) @ replicate 1408 0 @ decode_l16_to_le (replicate 1408 3)"
proof -
  obtain report mem' w1 where r: "(report, mem', w1) = read_control (retransmit_reply (audio_packet (1 - of_nat 2) 0 7 False (replicate 1408 2))) None w"
    by (metis prod_cases3)
  have h: "cs_have_seq (rx_session w)" "cs_next_seq (rx_session w) = 1" "cs_control_sock (rx_session w) = Some 6001"
    "cs_control_addr (rx_session w) = Some (''10.0.0.2'', 6000)" "mr_pcm (rx_receiver w) = []"
    by (simp_all add: w_def demo_reception_fields)
  have q: "(1 - of_nat 2 :: u16) = 65535"
    by simp
  have "snd (snd (read_control (retransmit_reply (audio_packet 65535 0 7 False (replicate 1408 2))) None w)) = w1"
    using r unfolding q by (metis snd_conv)
  then show ?thesis
    using late_packet_breaks_time [OF h(1,2) _ _ h(3,4) _ _ r refl, of "replicate 1408 3" 0 False] h(5) by simp
qed

subsection \<open>The WAV file\<close>

text \<open>How a reader of the file takes its little-endian fields.\<close>

definition get_le16 :: "byte list \<Rightarrow> nat \<Rightarrow> u16" where
  "get_le16 b i = push_bit 8 (ucast (b ! (i + 1))) OR ucast (b ! i)"

definition get_le32 :: "byte list \<Rightarrow> nat \<Rightarrow> u32" where
  "get_le32 b i =
     push_bit 24 (ucast (b ! (i + 3))) OR push_bit 16 (ucast (b ! (i + 2)))
     OR push_bit 8 (ucast (b ! (i + 1))) OR ucast (b ! i)"

lemma get_put_le16: "length pre = i \<Longrightarrow> get_le16 (pre @ put_le16 w @ post) i = w"
  by (auto simp: get_le16_def put_le16_def put_be16_def nth_append be16_join)

lemma get_put_le32: "length pre = i \<Longrightarrow> get_le32 (pre @ put_le32 w @ post) i = w"
  by (auto simp: get_le32_def put_le32_def put_be32_def nth_append be32_join)

lemma length_put_le [simp]: "length (put_le16 w) = 2" "length (put_le32 v) = 4" "length (bytes_of s) = length s"
  by (simp_all add: put_le16_def put_le32_def bytes_of_def)

lemma unat_int32: "k < 2 ^ 32 \<Longrightarrow> unat (word_of_int (int k) :: u32) = k"
  by (simp only: of_int_of_nat_eq unsigned_of_nat) (simp add: take_bit_nat_eq_self)

text \<open>The fields of the header, behind which the captured bytes follow.\<close>

lemma wav_header_fields:
  assumes "n = length pcm" "length pcm < 2 ^ 32 - 36" "0 < rate" "rate < 2 ^ 30" "wav = wav_header rate n @ pcm"
  shows "take 4 wav = bytes_of ''RIFF''" "take 8 (drop 8 wav) = bytes_of ''WAVEfmt ''" "take 4 (drop 36 wav) = bytes_of ''data''"
    and "get_le32 wav 4 = word_of_int (int (36 + n))" "get_le16 wav 20 = 1" "get_le16 wav 22 = 2"
    and "get_le32 wav 24 = word_of_int rate" "get_le32 wav 28 = word_of_int (4 * rate)" "get_le16 wav 32 = 4"
    and "get_le16 wav 34 = 16" "get_le32 wav 40 = word_of_int (int n)" "drop 44 wav = pcm" "length wav = 44 + n"
proof -
  define v1 v2 v3 v4 v5 where "v1 = bytes_of ''RIFF'' @ put_le32 (word_of_int (36 + int n))"
    and "v2 = v1 @ bytes_of ''WAVEfmt '' @ put_le32 16"
    and "v3 = v2 @ put_le16 1 @ put_le16 2"
    and "v4 = v3 @ put_le32 (word_of_int rate) @ put_le32 (word_of_int (4 * rate))"
    and "v5 = v4 @ put_le16 4 @ put_le16 16 @ bytes_of ''data''"
  have br: "go_div (int64 (rate * 2 * 16)) 8 = 4 * rate"
    using assms(3,4) by (simp add: in_int64_def)
  have wav: "wav = v5 @ put_le32 (word_of_int (int n)) @ pcm"
    unfolding assms(5) wav_header_def br by (simp add: v1_def v2_def v3_def v4_def v5_def)
  have len: "length v1 = 8" "length v2 = 20" "length v3 = 24" "length v4 = 32" "length v5 = 40"
    by (simp_all add: v1_def v2_def v3_def v4_def v5_def)
  show "get_le32 wav 4 = word_of_int (int (36 + n))"
    using get_put_le32 [of "bytes_of ''RIFF''" 4] by (simp add: wav v1_def v2_def v3_def v4_def v5_def)
  show "get_le16 wav 20 = 1" "get_le16 wav 22 = 2"
    using get_put_le16 [OF len(2)] get_put_le16 [of "v2 @ put_le16 1" 22] len by (simp_all add: wav v3_def v4_def v5_def)
  show "get_le32 wav 24 = word_of_int rate" "get_le32 wav 28 = word_of_int (4 * rate)"
    using get_put_le32 [OF len(3)] get_put_le32 [of "v3 @ put_le32 (word_of_int rate)" 28] len by (simp_all add: wav v4_def v5_def)
  show "get_le16 wav 32 = 4" "get_le16 wav 34 = 16"
    using get_put_le16 [OF len(4)] get_put_le16 [of "v4 @ put_le16 4" 34] len by (simp_all add: wav v5_def)
  show "get_le32 wav 40 = word_of_int (int n)"
    using get_put_le32 [OF len(5)] by (simp add: wav)
  show "drop 44 wav = pcm" "length wav = 44 + n"
    using len by (simp_all add: wav assms(1))
  show "take 4 wav = bytes_of ''RIFF''" "take 8 (drop 8 wav) = bytes_of ''WAVEfmt ''" "take 4 (drop 36 wav) = bytes_of ''data''"
    using len by (simp_all add: wav v5_def) (simp_all add: v4_def v3_def v2_def v1_def)
qed



subsection \<open>The session description\<close>

lemma split_crlf_last: "CHR 0x0D \<notin> set s \<Longrightarrow> split_crlf s = [s]"
  by (induction s rule: split_crlf.induct) auto

lemma split_crlf_line: "CHR 0x0D \<notin> set l \<Longrightarrow> split_crlf (l @ crlf @ r) = l # split_crlf r"
proof (induction l)
  case Nil
  then show ?case
    by (simp add: crlf_def)
next
  case (Cons c l)
  then have ih: "split_crlf (l @ crlf @ r) = l # split_crlf r"
    by simp
  obtain d t where d: "l @ crlf @ r = d # t"
    by (cases l) (simp_all add: crlf_def)
  have "c \<noteq> CHR 0x0D"
    using Cons.prems by auto
  then show ?case
    using ih unfolding append_Cons d by simp
qed

lemma plain_in_itoa [simp]: "CHR 0x0D \<notin> set (itoa i)" "CHR '' '' \<notin> set (itoa i)" "CHR ''/'' \<notin> set (itoa i)"
  "CHR '':'' \<notin> set (itoa i)" "lf \<notin> set (itoa i)"
  by (rule not_in_itoa; simp add: is_digit_def less_eq_char_simp lf_def)+

lemma rtpmap_parts: "split_on (CHR ''/'') (rtpmap f) = [''L16'', itoa (sample_rate f), itoa (channels f)]"
proof -
  have "rtpmap f = ''L16'' @ CHR ''/'' # itoa (sample_rate f) @ CHR ''/'' # itoa (channels f)"
    by (simp add: rtpmap_def)
  then show ?thesis
    by (simp add: split_on_append split_on_notin)
qed

lemma rtpmap_trimmed: "trim_space (rtpmap f) = rtpmap f"
proof (rule trim_space_id)
  have "last (rtpmap f) = last (itoa (channels f))"
    by (simp add: rtpmap_def)
  then show "\<not> edge_byte (last (rtpmap f))"
    using set_itoa [OF last_in_set [OF itoa_nonempty [of "channels f"]]] by (simp add: digit_not_edge)
qed (simp_all add: rtpmap_def edge_byte_def space_runes_def)

lemma parse_sdp_build:
  assumes "in_int64 (sample_rate f)" "in_int64 (channels f)"
    and "CHR 0x0D \<notin> set local" "CHR 0x0D \<notin> set remote" "remote \<noteq> []" "trim_space remote = remote"
  shows "parse_sdp (build_sdp sid local remote f) s =
           s\<lparr>cs_remote_ip := remote, cs_codec := rtpmap f, cs_rate := sample_rate f, cs_channels := channels f\<rparr>"
proof -
  let ?o = "''o=iTunes '' @ itoa (uint sid) @ '' 0 IN IP4 '' @ local" and ?c = "''c=IN IP4 '' @ remote"
    and ?m = "''m=audio 0 RTP/AVP '' @ itoa payload_type" and ?r = "''a=rtpmap:'' @ itoa payload_type @ '' '' @ rtpmap f"
    and ?f = "''a=fmtp:'' @ itoa payload_type @ '' '' @ fmtp f"
  have sdp: "build_sdp sid local remote f
      = ''v=0'' @ crlf @ ?o @ crlf @ ''s=iTunes'' @ crlf @ ?c @ crlf @ ''t=0 0'' @ crlf @ ?m @ crlf @ ?r @ crlf @ ?f @ crlf @ []"
    by (simp add: build_sdp_def)
  have cr: "CHR 0x0D \<notin> set (rtpmap f)" "CHR 0x0D \<notin> set (fmtp f)"
    by (simp_all add: rtpmap_def fmtp_def)
  have lines: "split_crlf (build_sdp sid local remote f) = [''v=0'', ?o, ''s=iTunes'', ?c, ''t=0 0'', ?m, ?r, ?f, []]"
  proof -
    have n: "CHR 0x0D \<notin> set ''v=0''" "CHR 0x0D \<notin> set ?o" "CHR 0x0D \<notin> set ''s=iTunes''" "CHR 0x0D \<notin> set ?c"
      "CHR 0x0D \<notin> set ''t=0 0''" "CHR 0x0D \<notin> set ?m" "CHR 0x0D \<notin> set ?r" "CHR 0x0D \<notin> set ?f"
      using assms(3,4) cr by simp_all
    show ?thesis
      unfolding sdp by (simp only: n [THEN split_crlf_line] split_crlf.simps)
  qed
  have c: "sdp_line ?c s = s\<lparr>cs_remote_ip := remote\<rparr>" for s
    using assms(6) by (simp add: sdp_line_def)
  have "cut (CHR '' '') (''a=rtpmap:'' @ itoa payload_type @ CHR '' '' # rtpmap f) = (''a=rtpmap:'' @ itoa payload_type, rtpmap f, True)"
    using cut_append [of "CHR '' ''" "''a=rtpmap:'' @ itoa payload_type" "rtpmap f"] by simp
  then have r: "sdp_line ?r s = s\<lparr>cs_codec := rtpmap f, cs_rate := sample_rate f, cs_channels := channels f\<rparr>" for s
    using assms(1,2) by (simp add: sdp_line_def rtpmap_trimmed rtpmap_parts atoi_itoa Let_def)
  have other: "sdp_line ''v=0'' s = s" "sdp_line ?o s = s" "sdp_line ''s=iTunes'' s = s" "sdp_line ''t=0 0'' s = s"
    "sdp_line ?m s = s" "sdp_line ?f s = s" "sdp_line [] s = s" for s
    by (simp_all add: sdp_line_def)
  have "fold sdp_line (split_crlf (build_sdp sid local remote f)) s
      = s\<lparr>cs_remote_ip := remote, cs_codec := rtpmap f, cs_rate := sample_rate f, cs_channels := channels f\<rparr>"
    unfolding lines by (simp only: fold_simps other c r)
  then show ?thesis
    using assms(5) by (simp only: parse_sdp_def Let_def) simp
qed

text \<open>
  The receiver reads the ANNOUNCE back.  From the session description the sender builds for any
  valid PCM format it recovers codec, sample rate and channel count.  As the address of the sender it
  takes the \<open>c=\<close> line, where the sender writes the address of the receiver: its probes and
  retransmission requests only reach a sender on the same host.
\<close>

lemma announce_read_back:
  assumes "in_int64 (sample_rate f)" "in_int64 (channels f)"
    and "CHR 0x0D \<notin> set local" "CHR 0x0D \<notin> set remote" "remote \<noteq> []" "trim_space remote = remote"
  shows "parse_sdp (build_sdp sid local remote f) s =
           s\<lparr>cs_remote_ip := remote, cs_codec := rtpmap f, cs_rate := sample_rate f, cs_channels := channels f\<rparr>"
  using assms by (rule parse_sdp_build)

lemma announce_read_back_witness:
  "cs_codec (parse_sdp (build_sdp 7 ''10.0.0.2'' ''10.0.0.9'' \<lparr>sample_rate = 48000, channels = 1, bit_depth = 16\<rparr>)
     (rx_session demo_reception)) = rtpmap \<lparr>sample_rate = 48000, channels = 1, bit_depth = 16\<rparr>"
proof -
  have "trim_space ''10.0.0.9'' = ''10.0.0.9''"
    by (rule trim_space_id) (simp_all add: edge_byte_def space_runes_def)
  then show ?thesis
    using announce_read_back [of "\<lparr>sample_rate = 48000, channels = 1, bit_depth = 16\<rparr>" "''10.0.0.2''" "''10.0.0.9''" 7
        "rx_session demo_reception"]
    by (simp add: in_int64_def)
qed

end
