(* ===== verification/Loopback.thy ===== *)
theory Loopback
  imports Receiver Sender_Loop Mdns Target
begin

text \<open>
  The sender and the mock receiver together: what the one puts on the wire is what the other takes
  off it.  The sender is the streaming loop of theory Sender_Loop or the RTSP client of theory
  Sender, the receiver the one of theory Receiver; the network between them is the identity, a loss
  of datagrams, or a retransmission, as each property says.
\<close>

subsection \<open>The form of the audio datagrams\<close>

definition packet_form :: "nat \<Rightarrow> byte list \<Rightarrow> bool" where
  "packet_form n p \<longleftrightarrow> (\<exists>q t ssrc f payload. p = audio_packet q t ssrc f payload \<and> length payload = n)"

definition form_inv :: "nat \<Rightarrow> world \<Rightarrow> bool" where
  "form_inv n w \<longleftrightarrow>
     packet_bytes (w_sender w) = n \<and> (\<forall>p \<in> set (audio_packets (w_out w)). packet_form n p)
     \<and> (\<forall>p e. loop_pc (w_loop w) = Send p e \<longrightarrow> length p = n)"

lemma built_form: "length payload = n \<Longrightarrow> packet_form n (build_audio_packet payload f s)"
  unfolding packet_form_def build_audio_packet_def by blast

lemma audio_of_quiet: "quiet_step s l r \<Longrightarrow> audio_packets (snd (snd r)) = []"
  by (simp add: quiet_step_def)

lemma pace_send: "loop_pc (fst (snd (pace_step i n s l))) = Send p e \<Longrightarrow> n = Send p e \<or> loop_pc l = Send p e"
  by (auto simp: pace_step_def split: if_splits select_case.splits)

lemma send_after_read:
  "loop_pc (fst (snd (stream_step i s l))) = Send p e \<Longrightarrow> loop_pc l = Read \<and> length p = packet_bytes s"
  by (cases "loop_pc l")
    (auto simp: stream_step.simps pad_packet_def take_flush_request_def Let_def goto_def
      split: if_splits select_case.splits option.splits prod.splits dest!: pace_send)

lemma step_audio_form:
  assumes "rate_ok s" "\<forall>p e. loop_pc l = Send p e \<longrightarrow> length p = packet_bytes s"
    and "p \<in> set (audio_packets (snd (snd (stream_step i s l))))"
  shows "packet_form (packet_bytes s) p"
proof (cases "quiet_pc (loop_pc l)")
  case True
  from audio_of_quiet [OF stream_step_quiet [OF True assms(1)]] assms(3) show ?thesis
    by simp
next
  case False
  then show ?thesis
    using assms(2,3)
    by (cases "loop_pc l") (auto simp: stream_step.simps Let_def built_form split: if_splits select_case.splits)
qed

lemma form_other: "form_inv n w \<Longrightarrow> same_stream (w_sender w) (f (w_sender w)) \<Longrightarrow> form_inv n (on_sender f w)"
  using same_stream_bytes by (simp add: form_inv_def on_sender_def)

lemma form_step:
  assumes "world_ok w" "form_inv n w"
  shows "form_inv n (world_step e w)"
proof (cases e)
  case (Loop i)
  obtain s l out where r: "stream_step i (w_sender w) (w_loop w) = (s, l, out)"
    by (metis prod_cases3)
  have n: "packet_bytes (w_sender w) = n" and send: "\<forall>p e. loop_pc (w_loop w) = Send p e \<longrightarrow> length p = packet_bytes (w_sender w)"
    using assms(2) by (auto simp: form_inv_def)
  have rate: "rate_ok (w_sender w)"
    using assms(1) by (simp add: world_ok_def)
  have "packet_bytes s = n"
    using step_bytes [of i "w_sender w" "w_loop w"] by (simp add: r n)
  moreover have "\<forall>p \<in> set (audio_packets out). packet_form n p"
    using step_audio_form [OF rate send, of _ i] by (simp add: r n)
  moreover have "\<forall>p e. loop_pc l = Send p e \<longrightarrow> length p = n"
    using send_after_read [of i "w_sender w" "w_loop w"] by (simp add: r n)
  ultimately show ?thesis
    using assms(2) by (auto simp: Loop r form_inv_def)
next
  case (Swap pcm)
  then show ?thesis
    using assms(2) by (simp add: form_inv_def)
qed (use assms(2) in \<open>simp_all add: form_other\<close>)

lemma form_run: "world_ok w \<Longrightarrow> form_inv n w \<Longrightarrow> form_inv n (fold world_step es w)"
proof (induction es arbitrary: w)
  case (Cons e es)
  then show ?case
    using form_step streaming.step_inv by (simp del: world_step.simps)
qed simp

lemma form_start: "form_inv (packet_bytes s) (new_world s pcm)"
  by (simp add: form_inv_def new_world_def initial_loop_def)

subsection \<open>Receiving packets in order\<close>

lemma decode_append: "even (length a) \<Longrightarrow> decode_l16_to_le (a @ b) = decode_l16_to_le a @ decode_l16_to_le b"
  by (induction a rule: decode_l16_to_le.induct) auto

lemma decode_zeros: "decode_l16_to_le (replicate (2 * n) 0) = replicate (2 * n) 0"
  by (induction n) (simp_all add: numeral_eq_Suc)

lemma decode_concat: "\<forall>p \<in> set ps. even (length p) \<Longrightarrow> concat (map decode_l16_to_le ps) = decode_l16_to_le (concat ps)"
  by (induction ps) (simp_all add: decode_append)

lemma decode_prefix: "even (length a) \<Longrightarrow> prefix a b \<Longrightarrow> prefix (decode_l16_to_le a) (decode_l16_to_le b)"
  by (auto simp: prefix_def decode_append)

lemma in_order_effect:
  assumes "packet_form n p" "n \<le> 8180" "get_be16 p 2 = sq"
    and "cs_have_seq (rx_session v) \<longrightarrow> cs_next_seq (rx_session v) = sq"
  shows "mr_pcm (rx_receiver (read_audio p v)) = mr_pcm (rx_receiver v) @ decode_l16_to_le (drop 12 p)
       \<and> rx_out (read_audio p v) = rx_out v
       \<and> rx_session (read_audio p v) = (rx_session v)\<lparr>cs_have_seq := True, cs_next_seq := sq + 1\<rparr>"
proof -
  obtain q t ssrc f payload where p: "p = audio_packet q t ssrc f payload" "length payload = n"
    using assms(1) by (auto simp: packet_form_def)
  let ?v = "on_stats (\<lambda>x. x\<lparr>sx_datagrams := sx_datagrams x + 1\<rparr>) v"
  have r: "read_audio p v = handle_audio_packet p ?v"
    using assms(2) p by (simp add: read_audio_data)
  have gap: "gap_before sq v = 0"
    using assms(4) by (simp add: gap_before_def packet_distance_def)
  have len: "12 \<le> length p"
    by (simp add: p)
  note e = packet_effect [OF len assms(3), of ?v, folded r]
  show ?thesis
    using e(1,3,5) by (simp add: gap)
qed

lemma receive_in_order:
  assumes "\<forall>p \<in> set ps. packet_form n p" "n \<le> 8180" "\<forall>k < length ps. get_be16 (ps ! k) 2 = of_nat (j + k)"
    and "cs_have_seq (rx_session v) \<longrightarrow> cs_next_seq (rx_session v) = of_nat j"
  shows "mr_pcm (rx_receiver (fold read_audio ps v)) = mr_pcm (rx_receiver v) @ concat (map (\<lambda>p. decode_l16_to_le (drop 12 p)) ps)
       \<and> rx_out (fold read_audio ps v) = rx_out v"
  using assms
proof (induction ps arbitrary: v j)
  case (Cons p ps)
  have sq: "get_be16 p 2 = of_nat j"
    using Cons.prems(3) [rule_format, of 0] by simp
  have pf: "packet_form n p"
    using Cons.prems(1) by simp
  note e = in_order_effect [OF pf Cons.prems(2) sq Cons.prems(4)]
  have rest: "\<forall>k < length ps. get_be16 (ps ! k) 2 = of_nat (Suc j + k)"
    using Cons.prems(3) by (auto dest: spec [of _ "Suc _"])
  have "cs_have_seq (rx_session (read_audio p v)) \<longrightarrow> cs_next_seq (rx_session (read_audio p v)) = of_nat (Suc j)"
    using e by simp
  from Cons.IH [OF _ Cons.prems(2) rest this] Cons.prems(1) e show ?case
    by simp
qed simp

text \<open>After the data packets only zeros are sent.\<close>

definition audio_pcm :: "emission list \<Rightarrow> byte list" where
  "audio_pcm out = concat (map (drop 12) (audio_packets out))"

definition tail_inv :: "byte list \<Rightarrow> world \<Rightarrow> bool" where
  "tail_inv pcm w \<longleftrightarrow>
     (\<exists>k. audio_pcm (w_out w) = sent_pcm (w_out w) @ replicate k 0
          \<and> (k \<noteq> 0 \<longrightarrow> (\<exists>z. sent_pcm (w_out w) = pcm @ replicate z 0)))"

lemma audio_pcm_simps [simp]:
  "audio_pcm (a @ b) = audio_pcm a @ audio_pcm b" "audio_pcm [] = []" "audio_pcm [Data_Packet p] = drop 12 p"
  "audio_pcm [Drain_Packet p] = drop 12 p"
  by (simp_all add: audio_pcm_def)

lemma tail_step:
  assumes "world_ok w" "payload_inv pcm w" "tail_inv pcm w"
  shows "tail_inv pcm (world_step e w)"
proof (cases e)
  case (Loop i)
  obtain s l out where r: "stream_step i (w_sender w) (w_loop w) = (s, l, out)"
    by (metis prod_cases3)
  obtain k where k: "audio_pcm (w_out w) = sent_pcm (w_out w) @ replicate k 0"
    and full: "k \<noteq> 0 \<Longrightarrow> \<exists>z. sent_pcm (w_out w) = pcm @ replicate z 0"
    using assms(3) by (auto simp: tail_inv_def)
  have rate: "rate_ok (w_sender w)"
    using assms(1) by (simp add: world_ok_def)
  have w': "w_out (world_step e w) = w_out w @ out"
    by (simp add: Loop r)
  show ?thesis
  proof (cases "quiet_pc (loop_pc (w_loop w))")
    case True
    with stream_step_quiet [OF True rate, of i] have "audio_packets out = []" "data_packets out = []"
      by (simp_all add: quiet_step_def r)
    then show ?thesis
      using k full by (auto simp: tail_inv_def w' audio_pcm_def sent_pcm_def)
  next
    case False
    show ?thesis
    proof (cases "loop_pc (w_loop w)")
      case (Send p x)
      then have "audio_packets (w_out w) = data_packets (w_out w)"
        using assms(1) by (auto simp: world_ok_def world_inv_def)
      then have "audio_pcm (w_out w) = sent_pcm (w_out w)"
        by (simp add: audio_pcm_def sent_pcm_def)
      moreover have "audio_pcm out = sent_pcm out"
        using r Send by (auto simp: stream_step.simps Let_def goto_def split: if_splits)
      ultimately show ?thesis
        by (auto simp: tail_inv_def w' intro: exI [of _ 0])
    next
      case (Drain m)
      have "\<exists>j. audio_pcm out = replicate j 0 \<and> sent_pcm out = []"
        using r Drain by (auto simp: stream_step.simps goto_def split: if_splits select_case.splits intro: exI [of _ 0])
      then obtain j where "audio_pcm out = replicate j 0" "sent_pcm out = []"
        by blast
      moreover have "\<exists>z. sent_pcm (w_out w) = pcm @ replicate z 0"
        using assms(2) Drain by (auto simp: payload_inv_def)
      ultimately show ?thesis
        using k by (intro tail_inv_def [THEN iffD2] exI [of _ "k + j"]) (simp add: w' replicate_add)
    qed (use r k full False in \<open>auto simp: tail_inv_def w' stream_step.simps Let_def goto_def\<close>)
  qed
qed (use assms(3) in \<open>simp_all add: tail_inv_def on_sender_def\<close>)

lemma tail_run:
  "\<forall>e \<in> set es. \<not> swaps e \<Longrightarrow> world_ok w \<Longrightarrow> payload_inv pcm w \<Longrightarrow> tail_inv pcm w \<Longrightarrow> tail_inv pcm (fold world_step es w)"
proof (induction es arbitrary: w)
  case (Cons e es)
  have "payload_inv pcm (world_step e w)"
    using run_payload [of "[e]" w pcm] Cons.prems by (simp del: world_step.simps)
  moreover have "tail_inv pcm (world_step e w)"
    using tail_step Cons.prems by blast
  ultimately show ?case
    using Cons streaming.step_inv by (simp del: world_step.simps)
qed simp

lemma packet_bytes_valid:
  assumes "rate_ok s"
  shows "even (packet_bytes s)" "packet_bytes s \<le> 1408" "0 < packet_bytes s"
proof -
  have "channels (sd_format s) \<in> {1, 2}" "packet_size (sd_format s) = 704 * channels (sd_format s)"
    using assms packet_size_valid [of "sd_format s"] by (simp_all add: rate_ok_def validate_None)
  then show "even (packet_bytes s)" "packet_bytes s \<le> 1408" "0 < packet_bytes s"
    by (auto simp: packet_bytes_def)
qed

text \<open>
  The audio that left the sender: the source, padded with zeros, as far as the stream has come, and
  the silence of the drain behind it.
\<close>

lemma audio_pcm_run:
  assumes "startable s" "\<forall>e \<in> set es. \<not> swaps e" "w = fold world_step es (new_world s pcm)"
  shows "\<exists>n. prefix (audio_pcm (w_out w)) (pcm @ replicate n 0)
      \<and> (loop_pc (w_loop w) = Returned None \<longrightarrow> audio_pcm (w_out w) = pcm @ replicate n 0)"
proof -
  have start: "payload_inv pcm (new_world s pcm)" "tail_inv pcm (new_world s pcm)"
    by (auto simp: payload_inv_def tail_inv_def new_world_def initial_loop_def sent_pcm_def)
  note run = assms(2) new_world_ok [OF assms(1)] start(1)
  obtain z where z: "stage_ok z pcm (sent_pcm (w_out w)) (pcm_left (w_loop w)) (loop_pc (w_loop w))"
    using run_payload [OF run] assms(3) by (auto simp: payload_inv_def)
  obtain k where k: "audio_pcm (w_out w) = sent_pcm (w_out w) @ replicate k 0"
    "k \<noteq> 0 \<Longrightarrow> \<exists>z. sent_pcm (w_out w) = pcm @ replicate z 0"
    using tail_run [OF run start(2)] assms(3) by (auto simp: tail_inv_def)
  show ?thesis
  proof (cases "k = 0")
    case True
    then show ?thesis
      using k(1) z stage_prefix [OF z] by (intro exI [of _ z]) auto
  next
    case False
    then obtain m where "sent_pcm (w_out w) = pcm @ replicate m 0"
      using k(2) by blast
    then have "audio_pcm (w_out w) = pcm @ replicate (m + k) 0"
      using k(1) by (simp add: replicate_add)
    then show ?thesis
      by (intro exI [of _ "m + k"]) simp
  qed
qed

lemma even_concat: "\<forall>p \<in> set ps. even (length p) \<Longrightarrow> even (length (concat ps))"
  by (induction ps) simp_all

text \<open>What a receiver that hears every datagram of a run captures.\<close>

lemma capture_of_run:
  assumes "startable s" "w = fold world_step es (new_world s pcm)" "\<not> cs_have_seq (rx_session v)"
    and "u = fold read_audio (audio_packets (w_out w)) v"
  shows "mr_pcm (rx_receiver u) = mr_pcm (rx_receiver v) @ decode_l16_to_le (audio_pcm (w_out w)) \<and> rx_out u = rx_out v"
    and "even (length (audio_pcm (w_out w)))"
proof -
  let ?n = "packet_bytes s" and ?ps = "audio_packets (w_out w)"
  have ok: "world_ok w"
    using run_ok [OF assms(1)] assms(2) by simp
  have bytes: "even ?n" "?n \<le> 1408"
    using packet_bytes_valid assms(1) by (simp_all add: startable_def)
  have form: "form_inv ?n w"
    unfolding assms(2) by (rule form_run [OF new_world_ok [OF assms(1)] form_start])
  have u: "mr_pcm (rx_receiver u) = mr_pcm (rx_receiver v) @ concat (map (\<lambda>p. decode_l16_to_le (drop 12 p)) ?ps) \<and> rx_out u = rx_out v"
    unfolding assms(4)
  proof (rule receive_in_order [where j = 0])
    show "\<forall>p \<in> set ?ps. packet_form ?n p"
      using form by (simp add: form_inv_def)
    show "\<forall>k < length ?ps. get_be16 (?ps ! k) 2 = of_nat (0 + k)"
      using ok by (simp add: world_ok_def world_inv_def)
  qed (use bytes assms(3) in simp_all)
  have even: "\<forall>p \<in> set (map (drop 12) ?ps). even (length p)"
    using form bytes(1) by (auto simp: form_inv_def packet_form_def)
  show "mr_pcm (rx_receiver u) = mr_pcm (rx_receiver v) @ decode_l16_to_le (audio_pcm (w_out w)) \<and> rx_out u = rx_out v"
    using u decode_concat [OF even] by (simp add: audio_pcm_def comp_def)
  show "even (length (audio_pcm (w_out w)))"
    unfolding audio_pcm_def using even by (rule even_concat)
qed

text \<open>
  C4: The capture is the source.  When a stream runs over a network that loses nothing, with any
  interleaving of pauses, resumes, flushes, volume changes and a close (no seek), what the mock
  receiver captures is the PCM source with its bytes swapped for the WAV file, up to the point the
  stream has reached; once the stream has ended without an error it is all of it, followed by
  silence only.  The receiver asks for no packet again.
\<close>

lemma capture_is_source:
  assumes "startable s" "\<forall>e \<in> set es. \<not> swaps e" "w = fold world_step es (new_world s pcm)"
    and "\<not> cs_have_seq (rx_session v)" "u = fold read_audio (audio_packets (w_out w)) v"
  shows "\<exists>n. prefix (mr_pcm (rx_receiver u)) (mr_pcm (rx_receiver v) @ decode_l16_to_le (pcm @ replicate n 0))
           \<and> (loop_pc (w_loop w) = Returned None \<longrightarrow>
                mr_pcm (rx_receiver u) = mr_pcm (rx_receiver v) @ decode_l16_to_le (pcm @ replicate n 0))
           \<and> rx_out u = rx_out v"
proof -
  note u = capture_of_run [OF assms(1,3,4,5)]
  show ?thesis
    using u(1) audio_pcm_run [OF assms(1-3)] decode_prefix [OF u(2)] by auto
qed

lemma capture_is_source_witness:
  "\<exists>n. prefix (mr_pcm (rx_receiver (fold read_audio
        (audio_packets (w_out (fold world_step (replicate 6 (Loop smooth)) (new_world demo_sender [1, 2])))) demo_reception)))
      (decode_l16_to_le ([1, 2] @ replicate n 0))"
  using capture_is_source [OF demo_startable _ refl demo_reception_fields(1) refl, of "replicate 6 (Loop smooth)" "[1, 2]"]
  by (auto simp: demo_reception_fields)

subsection \<open>Retransmission\<close>

lemma retransmit_request_fields:
  "length (retransmit_request q n) = 8" "retransmit_request q n ! Suc 0 AND 0x7F = 0x55"
  "get_be16 (retransmit_request q n) 4 = q" "get_be16 (retransmit_request q n) 6 = n"
proof -
  show "length (retransmit_request q n) = 8" "retransmit_request q n ! Suc 0 AND 0x7F = 0x55"
    by (simp_all add: retransmit_request_def)
  show "get_be16 (retransmit_request q n) 4 = q"
    using get_put_be16 [of "[0x80, 0x55] @ put_be16 1" 4 q "put_be16 n"] by (simp add: retransmit_request_def)
  show "get_be16 (retransmit_request q n) 6 = n"
    using get_put_be16 [of "[0x80, 0x55] @ put_be16 1 @ put_be16 q" 6 n "[]"] by (simp add: retransmit_request_def)
qed

lemma serve_control_cap:
  assumes "128 \<le> c" "c < 65536"
  shows "serve_control (retransmit_request q (of_nat c)) s = serve_control (retransmit_request q 128) s"
proof -
  have "unat (of_nat c :: u16) = c"
    using assms(2) by (simp add: unsigned_of_nat take_bit_nat_eq_self)
  then show ?thesis
    using assms(1) by (simp add: serve_control_def retransmit_request_fields)
qed

text \<open>The request for a gap of \<open>d\<close> packets, answered out of the backlog.\<close>

lemma gap_request_answered:
  assumes "backlog_holds 0 ps s" "0 < d" "d < 512" "a + d < length ps" "length ps \<le> a + 1000"
  shows "map (drop 4) (serve_control (retransmit_request (of_nat a) (of_nat d)) s) = take (min d 128) (drop a ps)"
proof -
  have window: "window_start ps \<le> a"
    using assms(5) by (simp add: window_start_def backlog_size_def)
  have "serve_control (retransmit_request (of_nat a) (of_nat c)) s = map retransmit_reply (take c (drop a ps))"
    if "c \<le> d" "c \<le> 128" for c
    using that assms(3,4) window
    by (intro serve_control_window [OF assms(1)]) (simp_all add: retransmit_request_fields unsigned_of_nat take_bit_nat_eq_self)
  then have "serve_control (retransmit_request (of_nat a) (of_nat d)) s = map retransmit_reply (take (min d 128) (drop a ps))"
    using serve_control_cap [of d "of_nat a" s] assms(3)
    by (cases "d \<le> 128") (simp_all add: min_def, metis le_cases numeral_le_iff of_nat_numeral order_refl)
  then show ?thesis
    by (simp add: retransmit_type comp_def)
qed

text \<open>The datagrams of a run: numbered in order, in one form, the data packets first.\<close>

lemma run_datagrams:
  assumes "startable s" "w = fold world_step es (new_world s pcm)" "k < length (data_packets (w_out w))"
  shows "packet_form (packet_bytes s) (data_packets (w_out w) ! k)" "get_be16 (data_packets (w_out w) ! k) 2 = of_nat k"
    and "backlog_holds 0 (data_packets (w_out w)) (w_sender w)"
proof -
  have ok: "world_ok w"
    using run_ok [OF assms(1)] assms(2) by simp
  then show "backlog_holds 0 (data_packets (w_out w)) (w_sender w)"
    by (simp add: world_ok_def world_inv_def)
  obtain drains where split: "audio_packets (w_out w) = data_packets (w_out w) @ drains"
    using ok by (auto simp: world_ok_def world_inv_def)
  then have nth: "audio_packets (w_out w) ! k = data_packets (w_out w) ! k" "k < length (audio_packets (w_out w))"
    using assms(3) by (simp_all add: nth_append)
  have "\<forall>k < length (audio_packets (w_out w)). get_be16 (audio_packets (w_out w) ! k) 2 = of_nat k"
    using ok by (simp add: world_ok_def world_inv_def)
  with nth show "get_be16 (data_packets (w_out w) ! k) 2 = of_nat k"
    by metis
  have "form_inv (packet_bytes s) w"
    unfolding assms(2) by (rule form_run [OF new_world_ok [OF assms(1)] form_start])
  then show "packet_form (packet_bytes s) (data_packets (w_out w) ! k)"
    using assms(3) by (auto simp: form_inv_def split)
qed

text \<open>
  C18: A gap is asked for and answered.  When the receiver notices that packets are missing, it sends
  one request to the control port of the sender, and the sender, at any later moment while the
  packets are among its last thousand, answers with exactly the missing ones, byte for byte; of a gap
  of more than 128 packets only the first 128 come back.
\<close>

lemma lost_packets_are_resent:
  assumes "startable s" "w = fold world_step es (new_world s pcm)" "ps = data_packets (w_out w)"
    and "cs_have_seq (rx_session v)" "cs_next_seq (rx_session v) = of_nat a"
    and "cs_control_sock (rx_session v) = Some c" "cs_control_addr (rx_session v) = Some to"
    and "0 < d" "d < 512" "a + d < length ps" "length ps \<le> a + 1000"
  shows "\<exists>req. rx_out (read_audio (ps ! (a + d)) v) = rx_out v @ [(to, req)]
           \<and> map (drop 4) (serve_control req (w_sender w)) = take (min d 128) (drop a ps)"
proof -
  let ?p = "ps ! (a + d)" and ?v = "on_stats (\<lambda>x. x\<lparr>sx_datagrams := sx_datagrams x + 1\<rparr>) v"
  define sq where "sq = (of_nat (a + d) :: u16)"
  note run = run_datagrams [OF assms(1,2), of "a + d", folded assms(3), OF assms(10)]
  have sq: "get_be16 ?p 2 = sq"
    unfolding sq_def by (rule run(2))
  obtain q t ssrc f payload where p: "?p = audio_packet q t ssrc f payload" "length payload = packet_bytes s"
    using run(1) by (auto simp: packet_form_def)
  have r: "read_audio ?p v = handle_audio_packet ?p ?v"
    using p packet_bytes_valid(2) [of s] assms(1) by (simp add: read_audio_data startable_def)
  have "sq - of_nat a = of_nat d"
    by (simp add: sq_def)
  then have "packet_distance sq v = d"
    using assms(4,5,9) by (simp add: packet_distance_def unsigned_of_nat take_bit_nat_eq_self)
  then have gap: "gap_before sq v = d"
    using assms(9) by (simp add: gap_before_def)
  have "rx_out (read_audio ?p v) = rx_out v @ [(to, retransmit_request (of_nat a) (of_nat d))]"
    using packet_effect(5) [OF _ sq, of ?v] assms(5-8) unfolding r by (simp add: gap p)
  then show ?thesis
    using gap_request_answered [OF run(3) assms(8-11)] by blast
qed


lemma data_form: "world_ok w \<Longrightarrow> form_inv n w \<Longrightarrow> \<forall>p \<in> set (data_packets (w_out w)). packet_form n p"
  by (auto simp: world_ok_def world_inv_def form_inv_def)

lemma demo_two_packets:
  "length (data_packets (w_out (fold world_step (map Loop (replicate 600 smooth)) (new_world demo_sender (replicate 1408 1))))) = 2"
proof -
  let ?w = "fold world_step (map Loop (replicate 600 smooth)) (new_world demo_sender (replicate 1408 1))"
  have bytes: "packet_bytes demo_sender = 704"
    by (rule demo_packet_bytes) (simp add: demo_fields)
  have "running demo_sender"
    using demo_startable demo_fields(1,2) by (simp add: startable_def running_def fresh_sender_def channel_inv_def)
  then have "loop_pc (w_loop ?w) = Returned None"
    by (intro smooth_run) (simp_all add: smooth_input_def smooth_def new_world_def initial_loop_def going_def bytes packets_left_def)
  moreover have "payload_inv (replicate 1408 1) ?w"
  proof (rule run_payload)
    show "payload_inv (replicate 1408 1) (new_world demo_sender (replicate 1408 1))"
      by (auto simp: payload_inv_def new_world_def initial_loop_def sent_pcm_def)
  qed auto
  moreover have form: "form_inv 704 ?w"
    by (rule form_run [OF new_world_ok [OF demo_startable] form_start, unfolded bytes])
  ultimately obtain z where z: "z < 704" "sent_pcm (w_out ?w) = replicate 1408 1 @ replicate z 0"
    by (auto simp: payload_inv_def form_inv_def)
  have len: "\<forall>p \<in> set ps. packet_form 704 p \<Longrightarrow> length (concat (map (drop 12) ps)) = 704 * length ps" for ps
    by (induction ps) (auto simp: packet_form_def)
  have "\<forall>p \<in> set (data_packets (w_out ?w)). packet_form 704 p"
    by (rule data_form [OF run_ok [OF demo_startable] form])
  from len [OF this] z show ?thesis
    by (simp add: sent_pcm_def)
qed

lemma lost_packets_are_resent_witness:
  "\<exists>req p. map (drop 4) (serve_control req (w_sender
      (fold world_step (map Loop (replicate 600 smooth)) (new_world demo_sender (replicate 1408 1))))) = [p]"
proof -
  define w where "w = fold world_step (map Loop (replicate 600 smooth)) (new_world demo_sender (replicate 1408 1))"
  define v where "v = on_session (\<lambda>s. s\<lparr>cs_have_seq := True, cs_next_seq := of_nat 0, cs_control_sock := Some 6001,
      cs_control_addr := Some (''10.0.0.2'', 6000)\<rparr>) demo_reception"
  have v: "cs_have_seq (rx_session v)" "cs_next_seq (rx_session v) = of_nat 0" "cs_control_sock (rx_session v) = Some 6001"
    "cs_control_addr (rx_session v) = Some (''10.0.0.2'', 6000)"
    by (simp_all add: v_def)
  have two: "length (data_packets (w_out w)) = 2"
    unfolding w_def by (rule demo_two_packets)
  then obtain p q where pq: "data_packets (w_out w) = [p, q]"
    by (metis (no_types, opaque_lifting) length_0_conv length_Suc_conv numeral_2_eq_2)
  have "0 < (1 :: nat)" "(1 :: nat) < 512" "0 + 1 < length (data_packets (w_out w))" "length (data_packets (w_out w)) \<le> 0 + 1000"
    using two by simp_all
  from lost_packets_are_resent [OF demo_startable w_def refl v this]
  obtain req where "map (drop 4) (serve_control req (w_sender w)) = take (min 1 128) (drop 0 (data_packets (w_out w)))"
    by blast
  then have "map (drop 4) (serve_control req (w_sender w)) = [p]"
    by (simp add: pq)
  then show ?thesis
    unfolding w_def by (intro exI)
qed

subsection \<open>Clocks\<close>

lemma ntp_join: "push_bit 32 (ucast (fst (ntp_parts n))) OR ucast (snd (ntp_parts n)) = n"
proof -
  have "push_bit 32 (ucast (ucast (drop_bit 32 n) :: u32)) OR ucast (ucast (n AND mask 32) :: u32) = n"
    by (rule bit_word_eqI) (auto simp: bit_simps dest: bit_imp_le_length)
  then show ?thesis
    by (simp add: ntp_parts_def mask_eq_exp_minus_1)
qed

lemma read_sync_datagram:
  assumes "rtp_to_ntp (head_ts s) (sample_rate (sd_format s)) = Some n" "sync_datagram s = Some d"
  shows "read_sync rate d mem =
    (case mem of None \<Rightarrow> None
     | Some (last_now, last_rtp) \<Rightarrow>
         Some \<lparr>sr_latency = uint (rtptime s) - uint (rtptime s - word_of_int latency_frames), sr_delta_now = sint (rtptime s - last_now),
               sr_delta_ntp = sint (ntp_to_rtp n rate - last_rtp),
               sr_skew = sint (rtptime s - last_now) - sint (ntp_to_rtp n rate - last_rtp)\<rparr>,
     Some (rtptime s, ntp_to_rtp n rate))"
proof -
  have d: "d = sync_packet True (rtptime s - word_of_int latency_frames) (fst (ntp_parts n)) (snd (ntp_parts n)) (rtptime s)"
    using assms by (simp add: sync_datagram_def split: prod.splits)
  show ?thesis
    unfolding read_sync_def d by (simp only: sync_packet_fields Let_def ntp_join)
qed

lemma sint_small: "k < 2 ^ 31 \<Longrightarrow> sint (of_nat k :: u32) = int k"
  by (simp add: sint_uint unsigned_of_nat uint_nat take_bit_nat_eq_self signed_take_bit_int_eq_self)

text \<open>
  C38: The sync packets carry one clock.  Between two sync packets of one stretch of a stream (no
  resume or flush between them, less than 2^31 frames, and the RTP clock not within the latency of its
  wrap-around), the receiver finds the RTP time stamp and the NTP time stamp advanced by the same
  number of frames to within one, at every sample rate up to 65536 Hz, and the announced latency at
  the sender's constant.
\<close>

lemma sync_skew_bounded:
  assumes "0 < rate" "rate \<le> 65536" "sample_rate (sd_format s1) = rate" "sample_rate (sd_format s2) = rate"
    and "start_ts s2 = start_ts s1" "head_ts s2 = head_ts s1 + of_nat k" "0 < k" "k < 2 ^ 31 - 1"
    and "uint (head_ts s2 - start_ts s2) < 2 ^ 32 - latency_frames"
    and "sync_datagram s1 = Some d1" "sync_datagram s2 = Some d2"
  shows "\<exists>report. fst (read_sync rate d2 (snd (read_sync rate d1 mem))) = Some report
           \<and> sr_latency report = latency_frames \<and> sr_delta_now report = int k \<and> \<bar>sr_skew report\<bar> \<le> 1"
proof -
  obtain n1 n2 where n: "rtp_to_ntp (head_ts s1) rate = Some n1" "rtp_to_ntp (head_ts s2) rate = Some n2"
    using rtp_to_ntp_Some [of rate "head_ts s1"] rtp_to_ntp_Some [of rate "head_ts s2"] assms(1,2) by auto
  define x1 x2 where "x1 = ntp_to_rtp n1 rate" and "x2 = ntp_to_rtp n2 rate"
  have x: "x1 = head_ts s1 \<or> x1 = head_ts s1 - 1" "x2 = head_ts s2 \<or> x2 = head_ts s2 - 1"
    using rtp_ntp_close [OF assms(1,2) n(1)] rtp_ntp_close [OF assms(1,2) n(2)] by (auto simp: x1_def x2_def)
  have now: "rtptime s2 - rtptime s1 = of_nat k"
    by (simp add: rtptime_def assms(5,6))
  have "x2 - x1 = of_nat k \<or> x2 - x1 = of_nat (k + 1) \<or> x2 - x1 = of_nat (k - 1)"
    using x assms(6,7) by (auto simp: of_nat_diff)
  note moved = this
  have "sint (x2 - x1) = int k \<or> sint (x2 - x1) = int (k + 1) \<or> sint (x2 - x1) = int (k - 1)"
  proof -
    have sm: "sint v = int j" if "v = of_nat j" "j \<le> k + 1" for v :: u32 and j
      unfolding that(1) using that(2) assms(8) by (intro sint_small) simp
    show ?thesis
      using moved by (elim disjE) (drule sm, simp, blast)+
  qed
  then have skew: "\<bar>int k - sint (x2 - x1)\<bar> \<le> 1"
    using assms(7) by (auto simp: of_nat_diff)
  have lat: "uint (rtptime s2) - uint (rtptime s2 - word_of_int latency_frames) = latency_frames"
  proof -
    have "uint (head_ts s2 - start_ts s2 + word_of_int latency_frames)
        = (uint (head_ts s2 - start_ts s2) + latency_frames) mod 2 ^ 32"
      by (simp add: uint_word_ariths uint_word_of_int latency_frames_def rtp_time_scale_def mod_simps)
    also have "\<dots> = uint (head_ts s2 - start_ts s2) + latency_frames"
      using assms(9) uint_bounded [of "head_ts s2 - start_ts s2"]
      by (intro mod_pos_pos_trivial) (simp_all add: latency_frames_def rtp_time_scale_def)
    finally show ?thesis
      by (simp add: rtptime_def)
  qed
  have "sint (rtptime s2 - rtptime s1) = int k"
    unfolding now using assms(8) by (intro sint_small) simp
  then show ?thesis
    using read_sync_datagram [OF n(1) [folded assms(3)] assms(10), of rate mem]
      read_sync_datagram [OF n(2) [folded assms(4)] assms(11), of rate "Some (rtptime s1, x1)"] skew lat
    by (simp add: x1_def x2_def)
qed

lemma sync_skew_bounded_witness:
  "\<exists>d1 d2 report. sync_datagram (demo_sender\<lparr>head_ts := start_ts demo_sender\<rparr>) = Some d1
     \<and> sync_datagram (demo_sender\<lparr>head_ts := start_ts demo_sender + of_nat 44352\<rparr>) = Some d2
     \<and> fst (read_sync 44100 d2 (snd (read_sync 44100 d1 None))) = Some report \<and> \<bar>sr_skew report\<bar> \<le> 1"
proof -
  let ?s1 = "demo_sender\<lparr>head_ts := start_ts demo_sender\<rparr>" and ?s2 = "demo_sender\<lparr>head_ts := start_ts demo_sender + of_nat 44352\<rparr>"
  obtain d1 d2 where d: "sync_datagram ?s1 = Some d1" "sync_datagram ?s2 = Some d2"
    using sync_panic [of ?s1] sync_panic [of ?s2] by (auto simp: demo_fields validate_def)
  show ?thesis
    using sync_skew_bounded [of 44100 ?s1 ?s2 44352, OF _ _ _ _ _ _ _ _ _ d, of None] d
    by (auto simp: demo_fields latency_frames_def rtp_time_scale_def)
qed

text \<open>
  Clock probes are answered in kind.  Every probe the receiver sends, whenever the sender sees
  it, gets a reply that carries the time stamp of the probe back unchanged beside the sender's own
  wall clock, and that the receiver accepts and counts.
\<close>

lemma clock_probe_answered:
  shows "\<exists>reply. serve_timing now' (probe_packet now) = Some reply
       \<and> (get_be32 reply 8, get_be32 reply 12) = ntp_parts (ntp_now (unix_sec now) (nanosecond now))
       \<and> (get_be32 reply 16, get_be32 reply 20) = ntp_parts (ntp_now (unix_sec now') (nanosecond now'))
       \<and> read_timing reply v = on_stats (\<lambda>x. x\<lparr>sx_timing_replies := sx_timing_replies x + 1\<rparr>) v"
proof -
  obtain a b where ab: "ntp_parts (ntp_now (unix_sec now) (nanosecond now)) = (a, b)"
    by fastforce
  obtain c d where cd: "ntp_parts (ntp_now (unix_sec now') (nanosecond now')) = (c, d)"
    by fastforce
  have p: "probe_packet now = ([0x80, 0x53] @ put_be16 7 @ replicate 20 0) @ put_be32 a @ put_be32 b"
    by (simp add: probe_packet_def ab)
  have len: "length (probe_packet now) = 32"
    by (simp add: p)
  have "get_be32 (probe_packet now) 24 = a" "get_be32 (probe_packet now) 28 = b"
    using get_put_be32 [of "[0x80, 0x53] @ put_be16 7 @ replicate 20 0" 24 a "put_be32 b"]
      get_put_be32 [of "([0x80, 0x53] @ put_be16 7 @ replicate 20 0) @ put_be32 a" 28 b "[]"]
    by (simp_all add: p)
  then have s: "serve_timing now' (probe_packet now) = Some (timing_reply (probe_packet now ! 0) a b c d)"
    by (simp add: serve_timing_def parse_timing_request_def len cd)
  show ?thesis
    unfolding s ab cd by (intro exI [of _ "timing_reply (probe_packet now ! 0) a b c d"]) (simp add: timing_reply_fields read_timing_def)
qed

subsection \<open>Requests\<close>

definition clean_text :: "string \<Rightarrow> bool" where
  "clean_text s \<longleftrightarrow> CHR '' '' \<notin> set s \<and> CHR 0x0D \<notin> set s \<and> lf \<notin> set s"

definition conn_clean :: "rtsp_conn \<Rightarrow> bool" where
  "conn_clean c \<longleftrightarrow> header_ok (''DACP-ID'', dacp_id c) \<and> clean_text (local_ip c)"

definition request_uri :: "rtsp_conn \<Rightarrow> string \<Rightarrow> string" where
  "request_uri c uri = (if uri = [] then conn_uri c else uri)"

definition request_headers ::
  "rtsp_conn \<Rightarrow> int \<Rightarrow> string \<Rightarrow> (string \<times> string) list \<Rightarrow> string option \<Rightarrow> (string \<times> string) list" where
  "request_headers c cs content_type hs body =
     [(''CSeq'', itoa cs), (''DACP-ID'', dacp_id c), (''Active-Remote'', itoa (uint (active_remote c))),
      (''Client-Instance'', dacp_id c), (''User-Agent'', user_agent)]
     @ (if content_type \<noteq> [] then [(''Content-Type'', content_type)] else []) @ hs
     @ (case body of None \<Rightarrow> [] | Some b \<Rightarrow> [(''Content-Length'', itoa (int (length b)))])"

definition body_text :: "string option \<Rightarrow> string" where
  "body_text body = (case body of None \<Rightarrow> [] | Some b \<Rightarrow> b)"

lemma request_text_eq:
  "request_text c cs verb uri content_type hs body =
     (verb @ '' '' @ request_uri c uri @ '' RTSP/1.0'') @ crlf
     @ header_block (request_headers c cs content_type hs body) @ body_text body"
  by (simp add: request_text_def request_uri_def header_block_def request_headers_def body_text_def split: option.split)

lemma header_ok_itoa: "header_ok (''CSeq'', itoa i)" "header_ok (''Active-Remote'', itoa i)" "header_ok (''Content-Length'', itoa i)"
    "header_ok (''Session'', itoa i)" "header_ok (''Audio-Latency'', itoa i)"
proof -
  have k: "trim_space ''CSeq'' = ''CSeq''" "trim_space ''Active-Remote'' = ''Active-Remote''"
    "trim_space ''Content-Length'' = ''Content-Length''" "trim_space ''Session'' = ''Session''"
    "trim_space ''Audio-Latency'' = ''Audio-Latency''"
    by (rule trim_space_id; simp add: edge_byte_def space_runes_def)+
  show "header_ok (''CSeq'', itoa i)" "header_ok (''Active-Remote'', itoa i)" "header_ok (''Content-Length'', itoa i)"
    "header_ok (''Session'', itoa i)" "header_ok (''Audio-Latency'', itoa i)"
    by (simp_all add: header_ok_def k) (simp_all add: lf_def)
qed

lemma header_ok_key:
  assumes "header_ok (k, v)" "k' \<noteq> []" "\<not> edge_byte (hd k')" "\<not> edge_byte (last k')" "CHR '':'' \<notin> set k'" "lf \<notin> set k'"
  shows "header_ok (k', v)"
  using assms trim_space_id [of k'] by (simp add: header_ok_def)

lemma header_ok_agent: "header_ok (''User-Agent'', user_agent)"
  by (rule header_ok_eval) (simp_all add: user_agent_def edge_byte_def space_runes_def lf_def)

lemma request_headers_ok:
  assumes "conn_clean c" "list_all header_ok hs" "content_type \<noteq> [] \<Longrightarrow> header_ok (''Content-Type'', content_type)"
  shows "list_all header_ok (request_headers c cs content_type hs body)"
proof -
  have "header_ok (''DACP-ID'', dacp_id c)"
    using assms(1) by (simp add: conn_clean_def)
  moreover from this have "header_ok (''Client-Instance'', dacp_id c)"
    by (rule header_ok_key) (simp_all add: edge_byte_def space_runes_def lf_def)
  ultimately show ?thesis
    using assms(2,3) by (simp add: request_headers_def header_ok_itoa header_ok_agent split: option.split)
qed

lemma fold_store_other: "x \<notin> (to_lower \<circ> fst) ` set hs \<Longrightarrow> fold store_header hs m x = m x"
  by (induction hs arbitrary: m) (auto simp: store_header_def)

lemma fold_store_last: "fold store_header (hs @ [(k, v)]) m (to_lower k) = Some v"
  by (simp add: store_header_def)

lemma to_lower_headers:
  "to_lower ''CSeq'' = ''cseq''" "to_lower ''DACP-ID'' = ''dacp-id''" "to_lower ''Active-Remote'' = ''active-remote''"
  "to_lower ''Client-Instance'' = ''client-instance''" "to_lower ''User-Agent'' = ''user-agent''"
  "to_lower ''Content-Type'' = ''content-type''" "to_lower ''Content-Length'' = ''content-length''"
  "to_lower ''Session'' = ''session''" "to_lower ''Transport'' = ''transport''" "to_lower ''Server'' = ''server''"
  "to_lower ''Public'' = ''public''" "to_lower ''Audio-Latency'' = ''audio-latency''" "to_lower ''RTP-Info'' = ''rtp-info''"
  by (simp_all add: to_lower_def lower_char_def is_upper_def less_eq_char_simp)

text \<open>The header map the receiver builds, by the keys the sender uses itself.\<close>

definition extra_ok :: "(string \<times> string) list \<Rightarrow> bool" where
  "extra_ok hs \<longleftrightarrow> list_all header_ok hs
     \<and> (\<forall>k \<in> fst ` set hs. to_lower k \<notin> {''cseq'', ''content-type'', ''content-length''})"

definition received_headers ::
  "rtsp_conn \<Rightarrow> int \<Rightarrow> string \<Rightarrow> (string \<times> string) list \<Rightarrow> string option \<Rightarrow> headers" where
  "received_headers c cs content_type hs body = fold store_header (request_headers c cs content_type hs body) Map.empty"

lemma received_headers_lookup:
  assumes "extra_ok hs"
  shows "received_headers c cs content_type hs body ''cseq'' = Some (itoa cs)"
    "received_headers c cs content_type hs body ''content-type'' = (if content_type = [] then None else Some content_type)"
    "received_headers c cs content_type hs body ''content-length'' = map_option (\<lambda>b. itoa (int (length b))) body"
proof -
  have no: "x \<in> {''cseq'', ''content-type'', ''content-length''} \<Longrightarrow> fold store_header hs m x = m x" for x m
    using assms by (intro fold_store_other) (auto simp: extra_ok_def)
  show "received_headers c cs content_type hs body ''cseq'' = Some (itoa cs)"
    "received_headers c cs content_type hs body ''content-type'' = (if content_type = [] then None else Some content_type)"
    "received_headers c cs content_type hs body ''content-length'' = map_option (\<lambda>b. itoa (int (length b))) body"
    by (cases body; simp add: received_headers_def request_headers_def store_header_def to_lower_headers no)+
qed

lemma received_headers_extra:
  assumes "to_lower k \<notin> {''cseq'', ''content-type'', ''content-length''}"
  shows "received_headers c cs content_type [(k, v)] body (to_lower k) = Some v"
  using assms by (cases body) (simp_all add: received_headers_def request_headers_def store_header_def to_lower_headers)

lemma request_line_text:
  assumes "clean_text verb" "verb \<noteq> []" "clean_text uri"
  shows "request_line ((verb @ '' '' @ uri @ '' RTSP/1.0'') @ crlf @ rest) = Some (verb @ '' '' @ uri @ '' RTSP/1.0'', rest)"
proof -
  let ?l = "verb @ '' '' @ uri @ '' RTSP/1.0''"
  have "lf \<notin> set ?l" "last ?l \<notin> set crlf"
    using assms by (simp_all add: clean_text_def) (simp_all add: lf_def)
  then have "read_line (?l @ crlf @ rest) = Some (?l, rest)"
    by (subst read_line_crlf) (simp_all add: trim_right_id)
  then show ?thesis
    by (subst request_line.simps) simp
qed

lemma read_request_text:
  assumes "conn_clean c" "extra_ok hs" "content_type \<noteq> [] \<longrightarrow> header_ok (''Content-Type'', content_type)"
    and "clean_text verb" "verb \<noteq> []" "to_upper verb = verb" "clean_text uri"
    and "int (length (body_text body)) \<le> max_alloc"
  shows "read_request (request_text c cs verb uri content_type hs body @ s) =
           Inr (\<lparr>nq_method = verb, nq_uri = request_uri c uri, nq_proto = ''RTSP/1.0'',
                 nq_headers = received_headers c cs content_type hs body, nq_body = body_text body\<rparr>, s)
       \<and> received_headers c cs content_type hs body ''cseq'' = Some (itoa cs)"
proof -
  have uri: "clean_text (request_uri c uri)"
    using assms(1,7) by (auto simp: request_uri_def conn_uri_def clean_text_def conn_clean_def) (simp_all add: lf_def)
  have ok: "list_all header_ok (request_headers c cs content_type hs body)"
    using assms(1-3) by (intro request_headers_ok) (simp_all add: extra_ok_def)
  define l where "l = verb @ '' '' @ request_uri c uri @ '' RTSP/1.0''"
  have split: "split_n (CHR '' '') 3 l = [verb, request_uri c uri, ''RTSP/1.0'']"
    using assms(4) uri split_n3 [of "CHR '' ''" verb "request_uri c uri" "''RTSP/1.0''"] by (simp add: clean_text_def l_def)
  have body: "read_body (received_headers c cs content_type hs body) (body_text body @ s) = Inr (body_text body, s)"
    using received_headers_lookup(3) [OF assms(2), of c cs content_type body] assms(8)
    by (intro read_body_exact) (cases body; simp add: body_text_def)
  have line: "request_line (request_text c cs verb uri content_type hs body @ s)
      = Some (l, header_block (request_headers c cs content_type hs body) @ body_text body @ s)"
    unfolding l_def using request_line_text [OF assms(4,5) uri] by (simp add: request_text_eq)
  show ?thesis
    using received_headers_lookup(1) [OF assms(2)] body read_headers_block [OF ok]
    by (simp add: read_request_def line split assms(6) received_headers_def Let_def)
qed

text \<open>
  Every request arrives as it was meant.  For any verb, URI, content type, extra headers and
  body the sender puts into a request, the receiver's reader takes exactly that request off the
  stream: the verb, the URI, all headers under their lower-case names with the CSeq the sender
  expects back, the body byte for byte, and nothing of what follows it.
\<close>

lemma request_read_back:
  assumes "conn_clean c" "extra_ok hs" "content_type \<noteq> [] \<longrightarrow> header_ok (''Content-Type'', content_type)"
    and "clean_text verb" "verb \<noteq> []" "to_upper verb = verb" "clean_text uri"
    and "int (length (body_text body)) \<le> max_alloc"
  shows "read_request (request_text c cs verb uri content_type hs body @ s) =
           Inr (\<lparr>nq_method = verb, nq_uri = request_uri c uri, nq_proto = ''RTSP/1.0'',
                 nq_headers = received_headers c cs content_type hs body, nq_body = body_text body\<rparr>, s)
       \<and> received_headers c cs content_type hs body ''cseq'' = Some (itoa cs)"
  using assms by (rule read_request_text)

definition demo_conn :: rtsp_conn where
  "demo_conn = \<lparr>cseq = 3, session_id = 7, dacp_id = ''AB'', active_remote = 9, local_ip = ''10.0.0.2'',
     remote_ip = ''10.0.0.9'', pending_request = [], unread = []\<rparr>"

lemma demo_conn_clean: "conn_clean demo_conn"
proof -
  have "header_ok (''DACP-ID'', ''AB'')"
    by (rule header_ok_eval) (simp_all add: edge_byte_def space_runes_def lf_def)
  then show ?thesis
    by (simp add: conn_clean_def demo_conn_def) (simp add: clean_text_def lf_def)
qed

lemma methods_clean:
  "m \<in> {''OPTIONS'', ''ANNOUNCE'', ''SETUP'', ''RECORD'', ''SET_PARAMETER'', ''FLUSH'', ''POST'', ''TEARDOWN''} \<Longrightarrow>
   clean_text m \<and> m \<noteq> [] \<and> to_upper m = m"
  by (auto simp: clean_text_def lf_def to_upper_def upper_char_def is_lower_def less_eq_char_simp)

lemma request_read_back_witness:
  "\<exists>m. read_request (request_text demo_conn 3 ''POST'' ''/feedback'' [] [] None @ ''next'')
     = Inr (\<lparr>nq_method = ''POST'', nq_uri = ''/feedback'', nq_proto = ''RTSP/1.0'', nq_headers = m, nq_body = []\<rparr>, ''next'')"
  using request_read_back [of demo_conn "[]" "[]" "''POST''" "''/feedback''" None 3 "''next''"] demo_conn_clean
    methods_clean [of "''POST''"]
  by (auto simp: extra_ok_def body_text_def max_alloc_def request_uri_def clean_text_def lf_def)

subsection \<open>Replies\<close>

definition reply_list :: "string list \<Rightarrow> rtsp_reply \<Rightarrow> (string \<times> string) list" where
  "reply_list ord r =
     (if rp_headers r ''Server'' = None then [(''Server'', server_name)] else [])
     @ map (\<lambda>k. (k, get_or_empty (rp_headers r) k)) ord
     @ (if rp_body r \<noteq> [] then [(''Content-Length'', itoa (int (length (rp_body r))))] else [])"

lemma write_response_eq:
  "write_response ord r = reply_text (rp_code r) (rp_message r) (reply_list ord r) (rp_body r)"
  by (cases "rp_headers r ''Server'' = None"; cases "rp_body r = []")
    (auto simp: write_response_def reply_text_def header_block_def reply_list_def comp_def)

definition clean_reply :: "rtsp_reply \<Rightarrow> bool" where
  "clean_reply r \<longleftrightarrow>
     rp_body r = [] \<and> in_int64 (rp_code r) \<and> rp_message r \<noteq> [] \<and> lf \<notin> set (rp_message r) \<and> CHR 0x0D \<notin> set (rp_message r)
     \<and> rp_headers r ''Server'' \<noteq> None
     \<and> inj_on to_lower (dom (rp_headers r)) \<and> ''content-length'' \<notin> to_lower ` dom (rp_headers r)
     \<and> (\<forall>k v. rp_headers r k = Some v \<longrightarrow> header_ok (k, v))"

lemma fold_store_keys:
  assumes "inj_on to_lower (set ord)" "k \<in> set ord"
  shows "fold store_header (map (\<lambda>k. (k, f k)) ord) m (to_lower k) = Some (f k)"
  using assms
proof (induction ord rule: rev_induct)
  case (snoc a ord)
  show ?case
  proof (cases "to_lower a = to_lower k")
    case True
    then have "a = k"
      using snoc.prems inj_onD [OF snoc.prems(1) True] by simp
    then show ?thesis
      by (simp add: store_header_def)
  next
    case False
    then show ?thesis
      using snoc by (auto simp: store_header_def inj_on_def)
  qed
qed simp

lemma read_clean_reply:
  assumes "clean_reply r" "set ord = dom (rp_headers r)" "rp_headers r ''CSeq'' = Some (itoa n)" "in_int64 n"
  shows "\<exists>resp. read_response n (write_response ord r) = (Inr resp, []) \<and> rs_code resp = rp_code r \<and> rs_message resp = rp_message r
       \<and> rs_body resp = [] \<and> (\<forall>k v. rp_headers r k = Some v \<longrightarrow> rs_headers resp (to_lower k) = Some v)"
proof -
  let ?hs = "map (\<lambda>k. (k, get_or_empty (rp_headers r) k)) ord"
  have hs: "reply_list ord r = ?hs"
    using assms(1) by (simp add: reply_list_def clean_reply_def)
  have inj: "inj_on to_lower (set ord)"
    using assms(1,2) by (simp add: clean_reply_def)
  have found: "fold store_header ?hs m (to_lower k) = Some v" if "rp_headers r k = Some v" for k v m
    using fold_store_keys [OF inj, of k "get_or_empty (rp_headers r)" m] that assms(2) by (auto simp: get_or_empty_def)
  have none: "fold store_header ?hs Map.empty ''content-length'' = None"
    using assms(1,2) by (subst fold_store_other) (auto simp: clean_reply_def)
  have "list_all header_ok ?hs"
    using assms(1,2) by (auto simp: list_all_iff clean_reply_def get_or_empty_def)
  then have ok: "reply_ok (rp_code r) (rp_message r) ?hs []"
    using assms(1) none by (simp add: reply_ok_def clean_reply_def)
  have cs: "get_or_empty (fold store_header ?hs Map.empty) ''cseq'' = itoa n"
    using found [OF assms(3)] by (simp add: get_or_empty_def to_lower_headers)
  have "rp_body r = []"
    using assms(1) by (simp add: clean_reply_def)
  then have "read_response n (write_response ord r) =
      (Inr \<lparr>rs_proto = ''RTSP/1.0'', rs_code = rp_code r, rs_message = rp_message r, rs_headers = fold store_header ?hs Map.empty,
            rs_body = []\<rparr>, [])"
    using read_response_reply [OF ok, of n "[]"] by (simp add: write_response_eq hs cs atoi_itoa [OF assms(4)])
  then show ?thesis
    using found by auto
qed

lemma known_keys_inj: "inj_on to_lower {''CSeq'', ''Server'', ''Public'', ''Content-Type'', ''Audio-Latency'', ''Session'', ''Transport''}"
  unfolding inj_on_def by (simp add: to_lower_headers)

lemma transport_header:
  assumes "set v \<subseteq> - {CHR 0x0D, lf}" "v \<noteq> []" "\<not> edge_byte (hd v)" "\<not> edge_byte (last v)"
  shows "header_ok (''Transport'', v)"
  by (rule header_ok_eval) (use assms in \<open>auto simp: edge_byte_def space_runes_def lf_def\<close>)

lemma last_itoa: "\<not> edge_byte (last (itoa i))"
  using set_itoa [OF last_in_set [OF itoa_nonempty [of i]]] by (simp add: digit_not_edge)

lemma setup_transport_ok: "header_ok (''Transport'', setup_transport a c t)"
proof (rule transport_header)
  have "last (setup_transport a c t) = last (itoa t)"
    by (simp add: setup_transport_def)
  then show "\<not> edge_byte (last (setup_transport a c t))"
    using last_itoa by simp
qed (auto simp: setup_transport_def edge_byte_def space_runes_def, simp_all add: lf_def)

lemma fixed_headers_ok:
  "header_ok (''Server'', server_name)" "header_ok (''Public'', public_methods)" "header_ok (''Content-Type'', ''application/sdp'')"
  by (rule header_ok_eval; simp add: server_name_def public_methods_def edge_byte_def space_runes_def lf_def)+

lemma known_reply:
  assumes "dom (rp_headers r) \<subseteq> {''CSeq'', ''Server'', ''Public'', ''Content-Type'', ''Audio-Latency'', ''Session'', ''Transport''}"
    and "rp_body r = []" "in_int64 (rp_code r)" "rp_message r \<in> {''OK'', ''Not Found'', ''Method Not Allowed'', ''Internal Server Error''}"
    and "rp_headers r ''Server'' \<noteq> None" "\<And>k v. rp_headers r k = Some v \<Longrightarrow> header_ok (k, v)"
  shows "clean_reply r"
proof -
  have "inj_on to_lower (dom (rp_headers r))"
    by (rule inj_on_subset [OF known_keys_inj assms(1)])
  moreover have "''content-length'' \<notin> to_lower ` dom (rp_headers r)"
    using assms(1) by (auto simp: to_lower_headers dest!: subsetD)
  moreover have "rp_message r \<noteq> [] \<and> lf \<notin> set (rp_message r) \<and> CHR 0x0D \<notin> set (rp_message r)"
    using assms(4) by (auto simp: lf_def)
  ultimately show ?thesis
    using assms(2,3,5,6) by (auto simp: clean_reply_def)
qed

lemma base_headers_simp:
  "nq_headers q ''cseq'' = Some (itoa n) \<Longrightarrow> base_headers q = [''CSeq'' \<mapsto> itoa n, ''Server'' \<mapsto> server_name]"
  by (simp add: base_headers_def get_or_empty_def)

subsection \<open>One exchange\<close>

definition sent_request :: "rtsp_conn \<Rightarrow> int \<Rightarrow> string \<Rightarrow> string \<Rightarrow> string \<Rightarrow> (string \<times> string) list \<Rightarrow> string option \<Rightarrow> rtsp_request" where
  "sent_request c cs verb uri content_type hs body =
     \<lparr>nq_method = verb, nq_uri = request_uri c uri, nq_proto = ''RTSP/1.0'',
      nq_headers = received_headers c cs content_type hs body, nq_body = body_text body\<rparr>"

definition sendable :: "rtsp_conn \<Rightarrow> string \<Rightarrow> string \<Rightarrow> string \<Rightarrow> (string \<times> string) list \<Rightarrow> string option \<Rightarrow> bool" where
  "sendable c verb uri content_type hs body \<longleftrightarrow>
     conn_clean c \<and> extra_ok hs \<and> (content_type \<noteq> [] \<longrightarrow> header_ok (''Content-Type'', content_type))
     \<and> clean_text verb \<and> verb \<noteq> [] \<and> to_upper verb = verb \<and> clean_text uri
     \<and> int (length (body_text body)) \<le> max_alloc"

lemma sent_request_read:
  assumes "sendable c verb uri content_type hs body"
  shows "read_request (request_text c cs verb uri content_type hs body @ s)
       = Inr (sent_request c cs verb uri content_type hs body, s)"
    and "nq_headers (sent_request c cs verb uri content_type hs body) ''cseq'' = Some (itoa cs)"
  using assms read_request_text [of c hs content_type verb uri body cs s] received_headers_lookup(1) [of hs c cs content_type body]
  by (auto simp: sendable_def sent_request_def)

lemma exchange:
  assumes "sendable c verb uri content_type hs body" "unread c = []" "in_int64 (cseq c)"
    and handled: "serve_request (io n) (sent_request c (cseq c) verb uri content_type hs body) w = (r, w')"
    and reply: "clean_reply r" "set (io_order (io n)) = dom (rp_headers r)" "rp_headers r ''CSeq'' = Some (itoa (cseq c))"
    and "io_write_ok (io n)" "\<not> rp_close r"
  shows "serve_conn io n (request_text c (cseq c) verb uri content_type hs body @ rest) w
       = (case serve_conn io (Suc n) rest w' of (replies, w'') \<Rightarrow> (write_response (io_order (io n)) r # replies, w''))"
    and "\<exists>resp. conn_do c verb uri content_type hs body True (write_response (io_order (io n)) r)
           = (Inr resp, c\<lparr>cseq := int64 (cseq c + 1),
                pending_request := request_text c (cseq c) verb uri content_type hs body, unread := []\<rparr>)
         \<and> rs_code resp = rp_code r \<and> (\<forall>k v. rp_headers r k = Some v \<longrightarrow> rs_headers resp (to_lower k) = Some v)"
proof -
  show "serve_conn io n (request_text c (cseq c) verb uri content_type hs body @ rest) w
       = (case serve_conn io (Suc n) rest w' of (replies, w'') \<Rightarrow> (write_response (io_order (io n)) r # replies, w''))"
    using handled assms(8,9) by (subst serve_conn.simps) (simp add: sent_request_read [OF assms(1)])
  from read_clean_reply [OF reply assms(3)] obtain resp where
    "read_response (cseq c) (write_response (io_order (io n)) r) = (Inr resp, [])" "rs_code resp = rp_code r"
    "\<forall>k v. rp_headers r k = Some v \<longrightarrow> rs_headers resp (to_lower k) = Some v"
    by blast
  then show "\<exists>resp. conn_do c verb uri content_type hs body True (write_response (io_order (io n)) r)
           = (Inr resp, c\<lparr>cseq := int64 (cseq c + 1),
                pending_request := request_text c (cseq c) verb uri content_type hs body, unread := []\<rparr>)
         \<and> rs_code resp = rp_code r \<and> (\<forall>k v. rp_headers r k = Some v \<longrightarrow> rs_headers resp (to_lower k) = Some v)"
    using assms(2) by (auto simp: conn_do_def Let_def)
qed

text \<open>The replies of the receiver, for each request whose CSeq header holds a number.\<close>

lemma base_headers_read:
  assumes "nq_headers q ''cseq'' = Some (itoa n)"
  shows "base_headers q ''CSeq'' = Some (itoa n)" "base_headers q ''Server'' = Some server_name"
    "dom (base_headers q) = {''CSeq'', ''Server''}"
  using base_headers_simp [OF assms] by auto

definition known_headers :: "headers \<Rightarrow> bool" where
  "known_headers m \<longleftrightarrow>
     dom m \<subseteq> {''CSeq'', ''Server'', ''Public'', ''Content-Type'', ''Audio-Latency'', ''Session'', ''Transport''}
     \<and> m ''Server'' \<noteq> None \<and> (\<forall>k v. m k = Some v \<longrightarrow> header_ok (k, v))"

lemma known_headers_base:
  assumes "nq_headers q ''cseq'' = Some (itoa n)"
  shows "known_headers (base_headers q)"
proof -
  have ok: "header_ok (k, v)" if "base_headers q k = Some v" for k v
  proof -
    have "k \<in> {''CSeq'', ''Server''}"
      using that unfolding base_headers_read(3) [OF assms, symmetric] by (rule domI)
    then show ?thesis
      using that base_headers_read(1,2) [OF assms] header_ok_itoa(1) [of n] fixed_headers_ok(1) by (elim insertE) simp_all
  qed
  then show ?thesis
    using base_headers_read(2) [OF assms] unfolding known_headers_def base_headers_read(3) [OF assms] by simp
qed

lemma known_headers_upd:
  assumes "known_headers m" "header_ok (k, v)"
    and "k \<in> {''CSeq'', ''Server'', ''Public'', ''Content-Type'', ''Audio-Latency'', ''Session'', ''Transport''}"
  shows "known_headers (m(k \<mapsto> v))"
  using assms unfolding known_headers_def dom_fun_upd by (simp only: option.distinct if_False insert_subset) simp

lemma known_headers_reply: "known_headers m \<Longrightarrow> clean_reply (ok_reply m)"
  by (rule known_reply) (simp_all add: known_headers_def ok_reply_def plain_reply_def in_int64_def)

lemma split_semis:
  assumes "\<forall>p \<in> set ps. CHR '';'' \<notin> set p" "ps \<noteq> []"
  shows "split_on (CHR '';'') (join '';'' ps) = ps"
  using split_on_join [of ps "CHR '';''"] assms by simp

lemma port_option:
  "trim_space (k @ CHR ''='' # itoa i) = k @ CHR ''='' # itoa i" "cut (CHR ''='') (k @ CHR ''='' # itoa i) = (k, itoa i, True)"
    "trim_space (itoa i) = itoa i"
  if "k \<noteq> []" "\<not> edge_byte (hd k)" "CHR ''='' \<notin> set k"
proof -
  show "trim_space (k @ CHR ''='' # itoa i) = k @ CHR ''='' # itoa i"
    using that last_itoa [of i] by (intro trim_space_id) auto
  show "cut (CHR ''='') (k @ CHR ''='' # itoa i) = (k, itoa i, True)"
    using that by (simp add: cut_append)
  have "\<not> edge_byte (hd (itoa i))"
    using set_itoa [OF hd_in_set [OF itoa_nonempty [of i]]] by (simp add: digit_not_edge)
  then show "trim_space (itoa i) = itoa i"
    using last_itoa by (intro trim_space_id) auto
qed

lemma plain_parts:
  "trim_space ''RTP/AVP/UDP'' = ''RTP/AVP/UDP''" "trim_space ''unicast'' = ''unicast''"
  "trim_space ''interleaved=0-1'' = ''interleaved=0-1''" "trim_space ''mode=record'' = ''mode=record''"
  "trim_space ''interleaved'' = ''interleaved''" "trim_space ''0-1'' = ''0-1''" "trim_space ''mode'' = ''mode''"
  "trim_space ''record'' = ''record''" "trim_space ''server_port'' = ''server_port''"
  "trim_space ''control_port'' = ''control_port''" "trim_space ''timing_port'' = ''timing_port''"
  by (rule trim_space_id; simp add: edge_byte_def space_runes_def)+

definition transport_parts :: "(string \<times> int) list \<Rightarrow> string list" where
  "transport_parts ports = [''RTP/AVP/UDP'', ''unicast'', ''interleaved=0-1'', ''mode=record''] @ map (\<lambda>(k, i). k @ ''='' @ itoa i) ports"

lemma transports_joined:
  "transport_request c t = join '';'' (transport_parts [(''control_port'', c), (''timing_port'', t)])"
  "setup_transport a c t = join '';'' (transport_parts [(''server_port'', a), (''control_port'', c), (''timing_port'', t)])"
  by (simp_all add: transport_request_def setup_transport_def transport_parts_def)

lemma semi_itoa [simp]: "CHR '';'' \<notin> set (itoa i)"
  by (rule not_in_itoa) (simp_all add: is_digit_def less_eq_char_simp)

lemma request_ports:
  "parse_transport_options (transport_request c t) ''control_port'' = Some (itoa c)"
  "parse_transport_options (transport_request c t) ''timing_port'' = Some (itoa t)"
proof -
  have s: "split_on (CHR '';'') (transport_request c t) = transport_parts [(''control_port'', c), (''timing_port'', t)]"
    unfolding transports_joined by (rule split_semis) (auto simp: transport_parts_def)
  show "parse_transport_options (transport_request c t) ''control_port'' = Some (itoa c)"
    "parse_transport_options (transport_request c t) ''timing_port'' = Some (itoa t)"
    using port_option [of "''control_port''" c] port_option [of "''timing_port''" t]
    by (simp_all add: parse_transport_options_def s transport_parts_def plain_parts edge_byte_def space_runes_def)
qed

lemma reply_ports:
  "snd (parse_transport (setup_transport a c t)) ''server_port'' = Some (itoa a)"
  "snd (parse_transport (setup_transport a c t)) ''control_port'' = Some (itoa c)"
  "snd (parse_transport (setup_transport a c t)) ''timing_port'' = Some (itoa t)"
proof -
  have s: "split_on (CHR '';'') (setup_transport a c t)
      = transport_parts [(''server_port'', a), (''control_port'', c), (''timing_port'', t)]"
    unfolding transports_joined by (rule split_semis) (auto simp: transport_parts_def)
  show "snd (parse_transport (setup_transport a c t)) ''server_port'' = Some (itoa a)"
    "snd (parse_transport (setup_transport a c t)) ''control_port'' = Some (itoa c)"
    "snd (parse_transport (setup_transport a c t)) ''timing_port'' = Some (itoa t)"
    using port_option [of "''server_port''" a] port_option [of "''control_port''" c] port_option [of "''timing_port''" t]
    by (simp_all add: parse_transport_def s transport_parts_def plain_parts edge_byte_def space_runes_def Let_def)
qed

subsection \<open>The handshake\<close>

definition options_text :: "rtsp_conn \<Rightarrow> string" where
  "options_text c = request_text c (cseq c) ''OPTIONS'' ''*'' [] [] None"

definition announce_body :: "rtsp_conn \<Rightarrow> audio_format \<Rightarrow> string" where
  "announce_body c f = build_sdp (session_id c) (local_ip c) (remote_ip c) f"

definition announce_text :: "rtsp_conn \<Rightarrow> audio_format \<Rightarrow> string" where
  "announce_text c f = request_text c (cseq c) ''ANNOUNCE'' [] ''application/sdp'' [] (Some (announce_body c f))"

definition setup_text :: "rtsp_conn \<Rightarrow> int \<Rightarrow> int \<Rightarrow> string" where
  "setup_text c cp tp = request_text c (cseq c) ''SETUP'' [] [] [(''Transport'', transport_request cp tp)] None"

definition speakable :: "rtsp_conn \<Rightarrow> audio_format \<Rightarrow> bool" where
  "speakable c f \<longleftrightarrow>
     conn_clean c \<and> in_int64 (cseq c) \<and> unread c = []
     \<and> remote_ip c \<noteq> [] \<and> trim_space (remote_ip c) = remote_ip c \<and> CHR 0x0D \<notin> set (remote_ip c)
     \<and> in_int64 (sample_rate f) \<and> in_int64 (channels f) \<and> int (length (announce_body c f)) \<le> max_alloc"

lemma conn_upd [simp]:
  "conn_clean (c\<lparr>cseq := n, pending_request := p, unread := u\<rparr>) = conn_clean c"
  "request_text (c\<lparr>cseq := n, pending_request := p, unread := u\<rparr>) = request_text c"
  "sent_request (c\<lparr>cseq := n, pending_request := p, unread := u\<rparr>) = sent_request c"
  subgoal by (simp add: conn_clean_def)
  subgoal by (intro ext) (simp add: request_text_def conn_uri_def)
  subgoal by (intro ext) (simp add: sent_request_def received_headers_def request_headers_def request_uri_def conn_uri_def)
  done

lemma sendable_upd [simp]: "sendable (c\<lparr>cseq := n, pending_request := p, unread := u\<rparr>) = sendable c"
  by (intro ext) (simp add: sendable_def)

lemma setup_sendable: "header_ok (''Transport'', transport_request c t)"
proof (rule transport_header)
  have "last (transport_request c t) = last (itoa t)"
    by (simp add: transport_request_def)
  then show "\<not> edge_byte (last (transport_request c t))"
    using last_itoa by simp
qed (auto simp: transport_request_def edge_byte_def space_runes_def, simp_all add: lf_def)

lemma handshake_sendable:
  assumes "conn_clean c"
  shows "sendable c ''OPTIONS'' ''*'' [] [] None"
    and "int (length b) \<le> max_alloc \<Longrightarrow> sendable c ''ANNOUNCE'' [] ''application/sdp'' [] (Some b)"
    and "sendable c ''SETUP'' [] [] [(''Transport'', transport_request cp tp)] None"
  using assms methods_clean [of "''OPTIONS''"] methods_clean [of "''ANNOUNCE''"] methods_clean [of "''SETUP''"] fixed_headers_ok(3)
    setup_sendable [of cp tp]
  by (simp_all add: sendable_def extra_ok_def body_text_def max_alloc_def to_lower_headers) (simp_all add: clean_text_def lf_def)

lemma options_handled:
  assumes "nq_headers q ''cseq'' = Some (itoa n)" "nq_method q = ''OPTIONS''"
  shows "handle ports q w = (ok_reply ((base_headers q)(''Public'' \<mapsto> public_methods)), w)"
  using assms(2) by (simp add: handle_def Let_def)

lemma announce_handled:
  assumes "nq_method q = ''ANNOUNCE''"
  shows "handle ports q w = (ok_reply ((base_headers q)(''Content-Type'' \<mapsto> ''application/sdp'')), on_session (parse_sdp (nq_body q)) w)"
  using assms by (simp add: handle_def Let_def)

definition set_up :: "int \<Rightarrow> int \<Rightarrow> int \<Rightarrow> int \<Rightarrow> int \<Rightarrow> receiver_session \<Rightarrow> receiver_session" where
  "set_up a c t cp tp s =
     s\<lparr>cs_audio_sock := Some a, cs_control_sock := Some c, cs_timing_sock := Some t, cs_control_port := cp,
       cs_timing_port := tp, cs_control_addr := Some (cs_remote_ip s, cp)\<rparr>"

lemma setup_handled:
  assumes "nq_method q = ''SETUP''" "nq_headers q ''transport'' = Some (transport_request cp tp)" "in_int64 cp" "in_int64 tp"
  shows "handle (Some a, Some c, Some t) q w =
     (ok_reply ((base_headers q)(''Session'' \<mapsto> itoa (uint (cs_id (rx_session w))), ''Transport'' \<mapsto> setup_transport a c t)),
      (on_session (set_up a c t cp tp) w)\<lparr>rx_open := t # c # a # rx_open w\<rparr>)"
proof -
  have "get_or_empty (nq_headers q) ''transport'' = transport_request cp tp"
    using assms(2) by (simp add: get_or_empty_def)
  then show ?thesis
    using assms(1,3,4)
    by (simp add: handle_def handle_setup_def Let_def set_up_def sender_port_def request_ports atoi_itoa)
qed

lemma use_setup_reply:
  assumes "rs_headers resp (to_lower ''Transport'') = Some (setup_transport a c t)" "0 < a" "in_int64 a" "in_int64 c" "in_int64 t"
  shows "use_transport resp s = (None, s\<lparr>server_port := a, control_port := c, timing_port := t, audio_ready := True\<rparr>)"
  using assms reply_ports [of a c t]
  by (simp add: use_transport_def header_def get_or_empty_def option_port_def atoi_itoa Let_def)

definition next_conn :: "rtsp_conn \<Rightarrow> string \<Rightarrow> rtsp_conn" where
  "next_conn c p = c\<lparr>cseq := int64 (cseq c + 1), pending_request := p, unread := []\<rparr>"

definition handshake_text :: "rtsp_conn \<Rightarrow> audio_format \<Rightarrow> int \<Rightarrow> int \<Rightarrow> string" where
  "handshake_text c f cp tp =
     (let c1 = next_conn c (options_text c);
          c2 = next_conn c1 (announce_text c1 f)
      in options_text c @ announce_text c1 f @ setup_text c2 cp tp)"

definition handshake_io :: "(nat \<Rightarrow> conn_io) \<Rightarrow> int \<Rightarrow> int \<Rightarrow> int \<Rightarrow> bool" where
  "handshake_io io a c t \<longleftrightarrow>
     (\<forall>i < 3. io_write_ok (io i)) \<and> io_ports (io 2) = (Some a, Some c, Some t)
     \<and> set (io_order (io 0)) = {''CSeq'', ''Server'', ''Public''}
     \<and> set (io_order (io 1)) = {''CSeq'', ''Server'', ''Content-Type''}
     \<and> set (io_order (io 2)) = {''CSeq'', ''Server'', ''Session'', ''Transport''}"

lemma next_conn_speakable:
  assumes "speakable c f"
  shows "speakable (next_conn c p) f" "sd_conn s = c \<Longrightarrow> sendable (next_conn c p) = sendable c"
    "unread (next_conn c p) = []" "in_int64 (cseq (next_conn c p))"
    "session_id (next_conn c p) = session_id c" "local_ip (next_conn c p) = local_ip c" "remote_ip (next_conn c p) = remote_ip c"
  using assms by (simp_all add: next_conn_def speakable_def announce_body_def)

lemma speakable_simps:
  assumes "speakable c f"
  shows "unread c = []" "in_int64 (cseq c)" "conn_clean c" "sendable c ''OPTIONS'' ''*'' [] [] None"
    "sendable c ''ANNOUNCE'' [] ''application/sdp'' [] (Some (announce_body c f))"
    "sendable c ''SETUP'' [] [] [(''Transport'', transport_request cp tp)] None"
  using assms handshake_sendable [of c] by (simp_all add: speakable_def)

lemma speakable_sdp:
  assumes "speakable c f"
  shows "parse_sdp (announce_body c f) s
       = s\<lparr>cs_remote_ip := remote_ip c, cs_codec := rtpmap f, cs_rate := sample_rate f, cs_channels := channels f\<rparr>"
  unfolding announce_body_def
  by (rule parse_sdp_build) (use assms in \<open>simp_all add: speakable_def conn_clean_def clean_text_def\<close>)

lemma options_exchange:
  assumes "speakable c f" "io_write_ok (io n)" "set (io_order (io n)) = {''CSeq'', ''Server'', ''Public''}"
  shows "\<exists>a resp. (\<forall>rest. serve_conn io n (options_text c @ rest) w
        = (case serve_conn io (Suc n) rest (on_stats (\<lambda>x. x\<lparr>sx_requests := sx_requests x + 1\<rparr>) w) of (as, w') \<Rightarrow> (a # as, w')))
      \<and> conn_do c ''OPTIONS'' ''*'' [] [] None True a = (Inr resp, next_conn c (options_text c))"
proof -
  note sp = speakable_simps [OF assms(1)]
  let ?q = "sent_request c (cseq c) ''OPTIONS'' ''*'' [] [] None"
  let ?m = "(base_headers ?q)(''Public'' \<mapsto> public_methods)"
  have q: "nq_headers ?q ''cseq'' = Some (itoa (cseq c))" "nq_method ?q = ''OPTIONS''"
    using sent_request_read(2) [OF sp(4)] by (simp_all add: sent_request_def)
  have h: "serve_request (io n) ?q w = (ok_reply ?m, on_stats (\<lambda>x. x\<lparr>sx_requests := sx_requests x + 1\<rparr>) w)"
    unfolding serve_request_def by (rule options_handled [OF q])
  have cl: "clean_reply (ok_reply ?m)"
    by (intro known_headers_reply known_headers_upd known_headers_base [OF q(1)] fixed_headers_ok) simp
  have rp: "rp_headers (ok_reply ?m) = ?m" "\<not> rp_close (ok_reply ?m)"
    by (simp_all add: ok_reply_def plain_reply_def)
  have d: "set (io_order (io n)) = dom (rp_headers (ok_reply ?m))"
    unfolding rp dom_fun_upd base_headers_read(3) [OF q(1)] assms(3) by (simp only: option.distinct if_False insert_commute)
  have cs: "rp_headers (ok_reply ?m) ''CSeq'' = Some (itoa (cseq c))"
    using base_headers_read(1) [OF q(1)] unfolding rp by simp
  note ex = exchange [where io = io and n = n, OF sp(4,1,2) h cl d cs assms(2) rp(2)]
  from ex(2) ex(1) show ?thesis
    unfolding options_text_def next_conn_def by blast
qed

lemma announce_exchange:
  assumes "speakable c f" "io_write_ok (io n)" "set (io_order (io n)) = {''CSeq'', ''Server'', ''Content-Type''}"
  shows "\<exists>a resp. (\<forall>rest. serve_conn io n (announce_text c f @ rest) w
        = (case serve_conn io (Suc n) rest (on_session (parse_sdp (announce_body c f))
                  (on_stats (\<lambda>x. x\<lparr>sx_requests := sx_requests x + 1\<rparr>) w)) of (as, w') \<Rightarrow> (a # as, w')))
      \<and> conn_do c ''ANNOUNCE'' [] ''application/sdp'' [] (Some (announce_body c f)) True a = (Inr resp, next_conn c (announce_text c f))
      \<and> rs_code resp = 200"
proof -
  note sp = speakable_simps [OF assms(1)]
  let ?q = "sent_request c (cseq c) ''ANNOUNCE'' [] ''application/sdp'' [] (Some (announce_body c f))"
  let ?m = "(base_headers ?q)(''Content-Type'' \<mapsto> ''application/sdp'')"
  have q: "nq_headers ?q ''cseq'' = Some (itoa (cseq c))" "nq_method ?q = ''ANNOUNCE''" "nq_body ?q = announce_body c f"
    using sent_request_read(2) [OF sp(5)] by (simp_all add: sent_request_def body_text_def)
  have h: "serve_request (io n) ?q w = (ok_reply ?m, on_session (parse_sdp (announce_body c f))
             (on_stats (\<lambda>x. x\<lparr>sx_requests := sx_requests x + 1\<rparr>) w))"
    unfolding serve_request_def by (simp only: announce_handled [OF q(2)] q(3))
  have cl: "clean_reply (ok_reply ?m)"
    by (intro known_headers_reply known_headers_upd known_headers_base [OF q(1)] fixed_headers_ok) simp
  have rp: "rp_headers (ok_reply ?m) = ?m" "\<not> rp_close (ok_reply ?m)" "rp_code (ok_reply ?m) = 200"
    by (simp_all add: ok_reply_def plain_reply_def)
  have d: "set (io_order (io n)) = dom (rp_headers (ok_reply ?m))"
    unfolding rp dom_fun_upd base_headers_read(3) [OF q(1)] assms(3) by (simp only: option.distinct if_False insert_commute)
  have cs: "rp_headers (ok_reply ?m) ''CSeq'' = Some (itoa (cseq c))"
    using base_headers_read(1) [OF q(1)] unfolding rp by simp
  note ex = exchange [where io = io and n = n, OF sp(5,1,2) h cl d cs assms(2) rp(2)]
  from ex(2) ex(1) show ?thesis
    unfolding announce_text_def next_conn_def rp(3) by blast
qed

lemma setup_exchange:
  assumes "speakable c f" "io_write_ok (io n)" "set (io_order (io n)) = {''CSeq'', ''Server'', ''Session'', ''Transport''}"
    and "io_ports (io n) = (Some a, Some b, Some t)" "in_int64 cp" "in_int64 tp"
  shows "\<exists>reply resp. (\<forall>rest. serve_conn io n (setup_text c cp tp @ rest) w
        = (case serve_conn io (Suc n) rest ((on_session (set_up a b t cp tp)
                  (on_stats (\<lambda>x. x\<lparr>sx_requests := sx_requests x + 1\<rparr>) w))\<lparr>rx_open := t # b # a # rx_open w\<rparr>) of
             (as, w') \<Rightarrow> (reply # as, w')))
      \<and> conn_do c ''SETUP'' [] [] [(''Transport'', transport_request cp tp)] None True reply = (Inr resp, next_conn c (setup_text c cp tp))
      \<and> rs_code resp = 200 \<and> rs_headers resp (to_lower ''Transport'') = Some (setup_transport a b t)"
proof -
  note sp = speakable_simps(1-5) [OF assms(1)] speakable_simps(6) [OF assms(1), of cp tp]
  let ?q = "sent_request c (cseq c) ''SETUP'' [] [] [(''Transport'', transport_request cp tp)] None"
  let ?w = "on_stats (\<lambda>x. x\<lparr>sx_requests := sx_requests x + 1\<rparr>) w"
  let ?m = "(base_headers ?q)(''Session'' \<mapsto> itoa (uint (cs_id (rx_session ?w))), ''Transport'' \<mapsto> setup_transport a b t)"
  have "received_headers c (cseq c) [] [(''Transport'', transport_request cp tp)] None (to_lower ''Transport'')
      = Some (transport_request cp tp)"
    by (rule received_headers_extra) (simp add: to_lower_headers)
  then have q: "nq_headers ?q ''cseq'' = Some (itoa (cseq c))" "nq_method ?q = ''SETUP''"
      "nq_headers ?q ''transport'' = Some (transport_request cp tp)"
    using sent_request_read(2) [OF sp(6)] by (simp_all add: sent_request_def to_lower_headers)
  have h: "serve_request (io n) ?q w = (ok_reply ?m, (on_session (set_up a b t cp tp) ?w)\<lparr>rx_open := t # b # a # rx_open w\<rparr>)"
    unfolding serve_request_def assms(4) setup_handled [OF q(2,3) assms(5,6)] on_stats_simps(3) ..
  have cl: "clean_reply (ok_reply ?m)"
    by (intro known_headers_reply known_headers_upd known_headers_base [OF q(1)] header_ok_itoa setup_transport_ok) simp_all
  have rp: "rp_headers (ok_reply ?m) = ?m" "\<not> rp_close (ok_reply ?m)" "rp_code (ok_reply ?m) = 200"
    by (simp_all add: ok_reply_def plain_reply_def)
  have d: "set (io_order (io n)) = dom (rp_headers (ok_reply ?m))"
    unfolding rp dom_fun_upd base_headers_read(3) [OF q(1)] assms(3) by (simp only: option.distinct if_False insert_commute)
  have cs: "rp_headers (ok_reply ?m) ''CSeq'' = Some (itoa (cseq c))"
    using base_headers_read(1) [OF q(1)] unfolding rp by simp
  have tr: "rp_headers (ok_reply ?m) ''Transport'' = Some (setup_transport a b t)"
    unfolding rp by simp
  note ex = exchange [where io = io and n = n, OF sp(6,1,2) h cl d cs assms(2) rp(2)]
  from ex(2) ex(1) tr show ?thesis
    unfolding setup_text_def next_conn_def rp(3) by blast
qed

definition count_request :: "reception \<Rightarrow> reception" where
  "count_request w = on_stats (\<lambda>x. x\<lparr>sx_requests := sx_requests x + 1\<rparr>) w"

lemma handshake_io_simps:
  assumes "handshake_io io a c t"
  shows "io_write_ok (io 0)" "io_write_ok (io (Suc 0))" "io_write_ok (io (Suc (Suc 0)))"
    "io_ports (io (Suc (Suc 0))) = (Some a, Some c, Some t)"
    "set (io_order (io 0)) = {''CSeq'', ''Server'', ''Public''}"
    "set (io_order (io (Suc 0))) = {''CSeq'', ''Server'', ''Content-Type''}"
    "set (io_order (io (Suc (Suc 0)))) = {''CSeq'', ''Server'', ''Session'', ''Transport''}"
  using assms by (simp_all add: handshake_io_def numeral_2_eq_2)

lemma next_conn_ids [simp]:
  "session_id (next_conn c p) = session_id c" "local_ip (next_conn c p) = local_ip c" "remote_ip (next_conn c p) = remote_ip c"
  by (simp_all add: next_conn_def)

text \<open>The three exchanges in a row: what the receiver serves is what the client reads.\<close>

lemma handshake_exchanges:
  assumes "speakable c0 f" "handshake_io io a c t" "in_int64 cp" "in_int64 tp"
    and c1: "c1 = next_conn c0 (options_text c0)" and c2: "c2 = next_conn c1 (announce_text c1 f)"
    and w1: "w1 = on_session (parse_sdp (announce_body c1 f)) (count_request (count_request w))"
    and w2: "w2 = (on_session (set_up a c t cp tp) (count_request w1))\<lparr>rx_open := t # c # a # rx_open w1\<rparr>"
  shows "\<exists>r0 r1 r2 p0 p1 p2.
      (\<forall>rest. serve_conn io 0 (handshake_text c0 f cp tp @ rest) w
         = (case serve_conn io 3 rest w2 of (as, w') \<Rightarrow> (r0 # r1 # r2 # as, w')))
    \<and> conn_do c0 ''OPTIONS'' ''*'' [] [] None True r0 = (Inr p0, c1)
    \<and> conn_do c1 ''ANNOUNCE'' [] ''application/sdp'' [] (Some (announce_body c1 f)) True r1 = (Inr p1, c2) \<and> rs_code p1 = 200
    \<and> conn_do c2 ''SETUP'' [] [] [(''Transport'', transport_request cp tp)] None True r2
        = (Inr p2, next_conn c2 (setup_text c2 cp tp))
    \<and> rs_code p2 = 200 \<and> rs_headers p2 (to_lower ''Transport'') = Some (setup_transport a c t)"
proof -
  note io = handshake_io_simps [OF assms(2)]
  have s1: "speakable c1 f"
    unfolding c1 by (rule next_conn_speakable(1) [OF assms(1)])
  have s2: "speakable c2 f"
    unfolding c2 by (rule next_conn_speakable(1) [OF s1])
  obtain r0 p0 where e0: "\<forall>rest. serve_conn io 0 (options_text c0 @ rest) w
        = (case serve_conn io (Suc 0) rest (count_request w) of (as, w') \<Rightarrow> (r0 # as, w'))"
      "conn_do c0 ''OPTIONS'' ''*'' [] [] None True r0 = (Inr p0, c1)"
    using options_exchange [where io = io and n = 0 and w = w, OF assms(1) io(1,5)] unfolding c1 count_request_def by blast
  obtain r1 p1 where e1: "\<forall>rest. serve_conn io (Suc 0) (announce_text c1 f @ rest) (count_request w)
        = (case serve_conn io (Suc (Suc 0)) rest w1 of (as, w') \<Rightarrow> (r1 # as, w'))"
      "conn_do c1 ''ANNOUNCE'' [] ''application/sdp'' [] (Some (announce_body c1 f)) True r1 = (Inr p1, c2)" "rs_code p1 = 200"
    using announce_exchange [where io = io and n = "Suc 0" and w = "count_request w", OF s1 io(2,6)]
    unfolding c2 w1 count_request_def by blast
  obtain r2 p2 where e2: "\<forall>rest. serve_conn io (Suc (Suc 0)) (setup_text c2 cp tp @ rest) w1
        = (case serve_conn io (Suc (Suc (Suc 0))) rest w2 of (as, w') \<Rightarrow> (r2 # as, w'))"
      "conn_do c2 ''SETUP'' [] [] [(''Transport'', transport_request cp tp)] None True r2 = (Inr p2, next_conn c2 (setup_text c2 cp tp))"
      "rs_code p2 = 200" "rs_headers p2 (to_lower ''Transport'') = Some (setup_transport a c t)"
    using setup_exchange [where io = io and n = "Suc (Suc 0)" and w = w1, OF s2 io(3,7,4) assms(3,4)]
    unfolding w2 count_request_def by blast
  have "serve_conn io 0 (handshake_text c0 f cp tp @ rest) w
         = (case serve_conn io 3 rest w2 of (as, w') \<Rightarrow> (r0 # r1 # r2 # as, w'))" for rest
    using e0(1) e1(1) e2(1)
    by (simp add: handshake_text_def Let_def c1 [symmetric] c2 [symmetric] numeral_3_eq_3 split: prod.split)
  then show ?thesis
    using e0(2) e1(2,3) e2(2-4) by blast
qed

text \<open>The connection and the sender after a handshake.\<close>

definition shaken_conn :: "rtsp_conn \<Rightarrow> audio_format \<Rightarrow> int \<Rightarrow> int \<Rightarrow> rtsp_conn" where
  "shaken_conn c f cp tp =
     (let c1 = next_conn c (options_text c); c2 = next_conn c1 (announce_text c1 f)
      in next_conn c2 (setup_text c2 cp tp))"

definition shaken :: "int \<Rightarrow> int \<Rightarrow> int \<Rightarrow> int \<Rightarrow> int \<Rightarrow> sender \<Rightarrow> sender" where
  "shaken a c t cp tp s =
     s\<lparr>sd_conn := shaken_conn (sd_conn s) (sd_format s) cp tp, control_port := c, timing_port := t, sockets_open := True,
       server_port := a, audio_ready := True\<rparr>"

definition shaken_session :: "rtsp_conn \<Rightarrow> audio_format \<Rightarrow> int \<Rightarrow> int \<Rightarrow> int \<Rightarrow> int \<Rightarrow> int \<Rightarrow> receiver_session \<Rightarrow> receiver_session" where
  "shaken_session conn f a c t cp tp v =
     v\<lparr>cs_remote_ip := remote_ip conn, cs_codec := rtpmap f, cs_rate := sample_rate f, cs_channels := channels f,
       cs_audio_sock := Some a, cs_control_sock := Some c, cs_timing_sock := Some t, cs_control_port := cp,
       cs_timing_port := tp, cs_control_addr := Some (remote_ip conn, cp)\<rparr>"

lemma handshake_served:
  assumes "speakable (sd_conn s) (sd_format s)" "handshake_io io a c t"
    and "0 < a" "in_int64 a" "in_int64 c" "in_int64 t" "in_int64 cp" "in_int64 tp"
  obtains r0 r1 r2 w' where
    "\<forall>rest. serve_conn io 0 (handshake_text (sd_conn s) (sd_format s) cp tp @ rest) w
       = (case serve_conn io 3 rest w' of (as, w'') \<Rightarrow> (r0 # r1 # r2 # as, w''))"
    "\<forall>rev0 rev1 rev2. handshake False (rev0, True, r0) (rev1, True, r1) (Some cp) (Some tp) True (rev2, True, r2) s
       = (None, shaken a c t cp tp s)"
    "rx_session w' = shaken_session (sd_conn s) (sd_format s) a c t cp tp (rx_session w)"
    "rx_open w' = t # c # a # rx_open w" "rx_out w' = rx_out w" "mr_pcm (rx_receiver w') = mr_pcm (rx_receiver w)"
proof -
  define f c0 c1 c2 where "f = sd_format s" and "c0 = sd_conn s" and "c1 = next_conn c0 (options_text c0)"
    and "c2 = next_conn c1 (announce_text c1 f)"
  define w1 w2 where "w1 = on_session (parse_sdp (announce_body c1 f)) (count_request (count_request w))"
    and "w2 = (on_session (set_up a c t cp tp) (count_request w1))\<lparr>rx_open := t # c # a # rx_open w1\<rparr>"
  have s0: "speakable c0 f" and s1: "speakable c1 f"
    using assms(1) next_conn_speakable(1) [of c0 f] by (simp_all add: c0_def f_def c1_def)
  obtain r0 r1 r2 p0 p1 p2 where served: "\<forall>rest. serve_conn io 0 (handshake_text c0 f cp tp @ rest) w
         = (case serve_conn io 3 rest w2 of (as, w') \<Rightarrow> (r0 # r1 # r2 # as, w'))"
    and conn: "conn_do c0 ''OPTIONS'' ''*'' [] [] None True r0 = (Inr p0, c1)"
      "conn_do c1 ''ANNOUNCE'' [] ''application/sdp'' [] (Some (announce_body c1 f)) True r1 = (Inr p1, c2)" "rs_code p1 = 200"
      "conn_do c2 ''SETUP'' [] [] [(''Transport'', transport_request cp tp)] None True r2 = (Inr p2, next_conn c2 (setup_text c2 cp tp))"
      "rs_code p2 = 200" "rs_headers p2 (to_lower ''Transport'') = Some (setup_transport a c t)"
    using handshake_exchanges [OF s0 assms(2,7,8) c1_def c2_def w1_def w2_def] by iprover
  define u where "u = s\<lparr>sd_conn := c2, control_port := cp, timing_port := tp, sockets_open := True\<rparr>"
  have "handshake False (rev0, True, r0) (rev1, True, r1) (Some cp) (Some tp) True (rev2, True, r2) s
      = (None, u\<lparr>sd_conn := next_conn c2 (setup_text c2 cp tp), server_port := a, control_port := c, timing_port := t, audio_ready := True\<rparr>)"
    for rev0 rev1 rev2
    using conn use_setup_reply [OF conn(6) assms(3-6)]
    by (simp add: handshake_def request_def ordered_def c0_def [symmetric] f_def [symmetric] announce_body_def c1_def
        open_udp_sockets_def u_def)
  then have "\<forall>rev0 rev1 rev2. handshake False (rev0, True, r0) (rev1, True, r1) (Some cp) (Some tp) True (rev2, True, r2) s
      = (None, shaken a c t cp tp s)"
    by (simp add: u_def shaken_def shaken_conn_def c0_def c1_def c2_def f_def Let_def)
  moreover have "rx_session w2 = shaken_session c0 f a c t cp tp (rx_session w)"
    by (simp add: w2_def w1_def set_up_def speakable_sdp [OF s1] count_request_def shaken_session_def) (simp add: c1_def)
  moreover have "rx_open w2 = t # c # a # rx_open w" "rx_out w2 = rx_out w" "mr_pcm (rx_receiver w2) = mr_pcm (rx_receiver w)"
    by (simp_all add: w2_def w1_def count_request_def)
  ultimately show ?thesis
    using that [of r0 r1 r2 w2] served unfolding c0_def f_def by blast
qed

text \<open>
  C5: The handshake opens a session on both sides.  A sender runs its handshake against the receiver:
  the receiver takes OPTIONS, ANNOUNCE and SETUP off the connection, and its three replies, in any
  order of their headers, let the handshake succeed.  The sender then streams to the receiver's audio
  port and knows its control and timing ports; the receiver knows the sender's control and timing
  ports and the codec, sample rate and channel count of the stream, and holds its three sockets open.
  The address it keeps for the sender is the one of the \<open>c=\<close> line, its own.
\<close>

lemma handshake_with_receiver:
  assumes "speakable (sd_conn s) (sd_format s)" "handshake_io io a c t"
    and "0 < a" "in_int64 a" "in_int64 c" "in_int64 t" "in_int64 cp" "in_int64 tp"
  shows "\<exists>r0 r1 r2 w' s'.
      serve_conn io 0 (handshake_text (sd_conn s) (sd_format s) cp tp) w = ([r0, r1, r2], w')
    \<and> handshake False (rev0, True, r0) (rev1, True, r1) (Some cp) (Some tp) True (rev2, True, r2) s = (None, s')
    \<and> server_port s' = a \<and> control_port s' = c \<and> timing_port s' = t \<and> audio_ready s' \<and> sockets_open s'
    \<and> rx_session w' = (rx_session w)\<lparr>cs_remote_ip := remote_ip (sd_conn s), cs_codec := rtpmap (sd_format s),
          cs_rate := sample_rate (sd_format s), cs_channels := channels (sd_format s),
          cs_audio_sock := Some a, cs_control_sock := Some c, cs_timing_sock := Some t, cs_control_port := cp,
          cs_timing_port := tp, cs_control_addr := Some (remote_ip (sd_conn s), cp)\<rparr>
    \<and> rx_open w' = t # c # a # rx_open w"
proof -
  obtain r0 r1 r2 w' where served: "\<forall>rest. serve_conn io 0 (handshake_text (sd_conn s) (sd_format s) cp tp @ rest) w
       = (case serve_conn io 3 rest w' of (as, w'') \<Rightarrow> (r0 # r1 # r2 # as, w''))"
    and ok: "\<forall>rev0 rev1 rev2. handshake False (rev0, True, r0) (rev1, True, r1) (Some cp) (Some tp) True (rev2, True, r2) s
       = (None, shaken a c t cp tp s)"
    and rx: "rx_session w' = shaken_session (sd_conn s) (sd_format s) a c t cp tp (rx_session w)" "rx_open w' = t # c # a # rx_open w"
    by (rule handshake_served [OF assms])
  have "serve_conn io 3 [] w' = ([], w')"
    by (subst serve_conn.simps) (simp add: read_request_def request_line.simps read_line_def)
  then have "serve_conn io 0 (handshake_text (sd_conn s) (sd_format s) cp tp) w = ([r0, r1, r2], w')"
    using served [rule_format, of "[]"] by simp
  then show ?thesis
    using ok rx by (intro exI conjI) (assumption, blast, simp_all add: shaken_def shaken_session_def)
qed

definition demo_io :: "nat \<Rightarrow> conn_io" where
  "demo_io n =
     \<lparr>io_ports = (Some 6000, Some 6001, Some 6002),
      io_order = [''CSeq'', ''Server''] @ (if n = 0 then [''Public''] else if n = 1 then [''Content-Type''] else [''Session'', ''Transport'']),
      io_write_ok = True\<rparr>"

lemma handshake_with_receiver_witness:
  defines "s \<equiv> initial_sender \<lparr>cf_address = ''10.0.0.9'', cf_port = 7000, cf_format = \<lparr>sample_rate = 48000, channels = 1, bit_depth = 16\<rparr>,
                  cf_local_ip = [], cf_volume = 20\<rparr> \<lparr>sample_rate = 48000, channels = 1, bit_depth = 16\<rparr> demo_conn 0 0"
  shows "\<exists>r0 r1 r2 w' s'.
      serve_conn demo_io 0 (handshake_text (sd_conn s) (sd_format s) 5001 5002) demo_reception = ([r0, r1, r2], w')
    \<and> handshake False (False, True, r0) (False, True, r1) (Some 5001) (Some 5002) True (False, True, r2) s = (None, s')
    \<and> server_port s' = 6000 \<and> cs_channels (rx_session w') = 1"
proof -
  have c: "sd_conn s = demo_conn" and f: "sd_format s = \<lparr>sample_rate = 48000, channels = 1, bit_depth = 16\<rparr>"
    by (simp_all add: s_def initial_sender_def Let_def)
  have "trim_space ''10.0.0.9'' = ''10.0.0.9''"
    by (rule trim_space_id) (simp_all add: edge_byte_def space_runes_def)
  moreover have "remote_ip demo_conn = ''10.0.0.9''" "local_ip demo_conn = ''10.0.0.2''" "session_id demo_conn = 7"
      "cseq demo_conn = 3" "unread demo_conn = []"
    by (simp_all add: demo_conn_def)
  moreover have "itoa (uint (7 :: u32)) = ''7''" "itoa 48000 = ''48000''" "itoa 1 = ''1''" "itoa 96 = ''96''" "itoa 352 = ''352''" "itoa 16 = ''16''"
    by (simp_all add: itoa_def nat_str.simps digit_char_def)
  ultimately have sp: "speakable (sd_conn s) (sd_format s)"
    unfolding c f by (simp add: speakable_def demo_conn_clean in_int64_def announce_body_def build_sdp_def max_alloc_def
        rtpmap_def fmtp_def payload_type_def frames_per_packet_def crlf_def)
  have io: "handshake_io demo_io 6000 6001 6002"
    by (simp add: handshake_io_def demo_io_def insert_commute)
  have ports: "in_int64 6000" "in_int64 6001" "in_int64 6002" "in_int64 5001" "in_int64 5002"
    by (simp_all add: in_int64_def)
  obtain r0 r1 r2 w' s' where
    "serve_conn demo_io 0 (handshake_text (sd_conn s) (sd_format s) 5001 5002) demo_reception = ([r0, r1, r2], w')"
    "handshake False (False, True, r0) (False, True, r1) (Some 5001) (Some 5002) True (False, True, r2) s = (None, s')"
    "server_port s' = 6000" and w: "rx_session w' = (rx_session demo_reception)\<lparr>cs_remote_ip := remote_ip (sd_conn s),
        cs_codec := rtpmap (sd_format s), cs_rate := sample_rate (sd_format s), cs_channels := channels (sd_format s),
        cs_audio_sock := Some 6000, cs_control_sock := Some 6001, cs_timing_sock := Some 6002, cs_control_port := 5001,
        cs_timing_port := 5002, cs_control_addr := Some (remote_ip (sd_conn s), 5001)\<rparr>"
    using handshake_with_receiver [OF sp io _ ports, of demo_reception False False False] zero_less_numeral by iprover
  moreover have "cs_channels (rx_session w') = 1"
    unfolding w f by simp
  ultimately show ?thesis
    by iprover
qed

end
