(* ===== verification/Serve.thy ===== *)
theory Serve
  imports Loopback
begin

text \<open>
  The goroutines that serve the sender's two sockets (\<open>serveTiming\<close>, \<open>serveControl\<close> of
  internal/raop/sender.go).  Each read has a deadline of two seconds; what a read gives, and the
  state of the sender when it returns, is an input.
\<close>

subsection \<open>The loops\<close>

datatype socket_event = Datagram "byte list" time | Read_Timeout | Read_Broken

text \<open>
  \<open>answer\<close> gives the replies to a datagram and \<open>n\<close> the size of the buffer, to which a longer datagram
  is cut.  The result is what was sent, and whether the loop has returned.
\<close>

fun socket_loop ::
  "(time \<Rightarrow> byte list \<Rightarrow> sender \<Rightarrow> byte list list) \<Rightarrow> nat \<Rightarrow> (socket_event \<times> sender) list \<Rightarrow> byte list list \<times> bool" where
  "socket_loop answer n [] = ([], False)"
| "socket_loop answer n ((Datagram d now, s) # evs) =
     (case socket_loop answer n evs of (replies, returned) \<Rightarrow> (answer now (take n d) s @ replies, returned))"
| "socket_loop answer n ((Read_Timeout, s) # evs) = (if stop_closed s then ([], True) else socket_loop answer n evs)"
| "socket_loop answer n ((Read_Broken, s) # evs) = ([], True)"

definition timing_answer :: "time \<Rightarrow> byte list \<Rightarrow> sender \<Rightarrow> byte list list" where
  "timing_answer now buf s = (case serve_timing now buf of None \<Rightarrow> [] | Some reply \<Rightarrow> [reply])"

definition serve_timing_loop :: "(socket_event \<times> sender) list \<Rightarrow> byte list list \<times> bool" where
  "serve_timing_loop = socket_loop timing_answer 128"

definition serve_control_loop :: "(socket_event \<times> sender) list \<Rightarrow> byte list list \<times> bool" where
  "serve_control_loop = socket_loop (\<lambda>now buf s. serve_control buf s) 2048"

subsection \<open>As long as the sender is open\<close>

definition open_event :: "socket_event \<times> sender \<Rightarrow> bool" where
  "open_event ev \<longleftrightarrow> fst ev \<noteq> Read_Broken \<and> \<not> stop_closed (snd ev)"

definition answers_of :: "(time \<Rightarrow> byte list \<Rightarrow> sender \<Rightarrow> byte list list) \<Rightarrow> nat \<Rightarrow> (socket_event \<times> sender) list \<Rightarrow> byte list list" where
  "answers_of answer n evs =
     concat (map (\<lambda>(ev, s). case ev of Datagram d now \<Rightarrow> answer now (take n d) s | _ \<Rightarrow> []) evs)"

lemma socket_loop_open:
  assumes "\<forall>ev \<in> set evs. open_event ev"
  shows "socket_loop answer n (evs @ rest) = map_prod ((@) (answers_of answer n evs)) id (socket_loop answer n rest)"
  using assms
proof (induction evs)
  case (Cons ev evs)
  obtain e s where ev: "ev = (e, s)"
    by fastforce
  with Cons show ?case
    by (cases e) (auto simp: answers_of_def open_event_def map_prod_def split: prod.split)
qed (simp add: answers_of_def map_prod_def split: prod.split)

definition is_datagram :: "socket_event \<times> sender \<Rightarrow> bool" where
  "is_datagram ev \<longleftrightarrow> (case fst ev of Datagram d now \<Rightarrow> True | _ \<Rightarrow> False)"

lemma is_datagram_simps [simp]:
  "is_datagram (Datagram d now, s)" "\<not> is_datagram (Read_Timeout, s)" "\<not> is_datagram (Read_Broken, s)"
  by (simp_all add: is_datagram_def)

lemma probe_answered:
  obtains reply where "timing_answer now (take 128 (probe_packet t)) s = [reply]"
    "\<forall>w. read_timing reply w = on_stats (\<lambda>x. x\<lparr>sx_timing_replies := sx_timing_replies x + 1\<rparr>) w"
proof -
  have "length (probe_packet t) = 32"
    by (simp add: probe_packet_def split: prod.split)
  moreover obtain reply where r: "serve_timing now (probe_packet t) = Some reply"
    using clock_probe_answered by blast
  moreover have "read_timing reply w = on_stats (\<lambda>x. x\<lparr>sx_timing_replies := sx_timing_replies x + 1\<rparr>) w" for w
    using clock_probe_answered [of now t w] r by auto
  ultimately show ?thesis
    using that [of reply] by (simp add: timing_answer_def)
qed

definition count_reply :: "reception \<Rightarrow> reception" where
  "count_reply w = on_stats (\<lambda>x. x\<lparr>sx_timing_replies := sx_timing_replies x + 1\<rparr>) w"

lemma count_reply_times: "sx_timing_replies (mr_stats (rx_receiver ((count_reply ^^ n) w))) = sx_timing_replies (mr_stats (rx_receiver w)) + int n"
  by (induction n) (simp_all add: count_reply_def)

lemma probes_answered:
  assumes "\<forall>d now s. (Datagram d now, s) \<in> set evs \<longrightarrow> (\<exists>t. d = probe_packet t)"
  shows "length (answers_of timing_answer 128 evs) = length (filter is_datagram evs)
    \<and> fold read_timing (answers_of timing_answer 128 evs) w = (count_reply ^^ length (filter is_datagram evs)) w"
  using assms
proof (induction evs arbitrary: w)
  case (Cons ev evs)
  obtain e s where ev: "ev = (e, s)"
    by fastforce
  have IH: "length (answers_of timing_answer 128 evs) = length (filter is_datagram evs)"
      "fold read_timing (answers_of timing_answer 128 evs) v = (count_reply ^^ length (filter is_datagram evs)) v" for v
    using Cons.IH [of v] Cons.prems by auto
  show ?case
  proof (cases e)
    case (Datagram d now)
    then obtain t where t: "d = probe_packet t"
      using Cons.prems [rule_format, of d now s] ev by auto
    obtain reply where reply: "timing_answer now (take 128 (probe_packet t)) s = [reply]"
      "\<forall>w. read_timing reply w = on_stats (\<lambda>x. x\<lparr>sx_timing_replies := sx_timing_replies x + 1\<rparr>) w"
      by (rule probe_answered [of now t s])
    from reply(1) t have "answers_of timing_answer 128 (ev # evs) = reply # answers_of timing_answer 128 evs"
      by (simp add: answers_of_def ev Datagram)
    then show ?thesis
      using IH by (simp add: ev Datagram reply(2) funpow_swap1 flip: count_reply_def)
  qed (use IH in \<open>simp_all add: ev answers_of_def\<close>)
qed (simp add: answers_of_def)



end
