(* ===== verification/Calls.thy ===== *)
theory Calls
  imports Loopback
begin

text \<open>
  The RTSP connection between the sender and the mock receiver as a procedure call: one exchange over
  the byte stream runs the receiver's handler once and returns its reply.  On top of it, what a volume
  request does on both sides.
\<close>

subsection \<open>Requests as calls\<close>

definition plain_outcome :: "rtsp_reply \<Rightarrow> bool" where
  "plain_outcome r \<longleftrightarrow>
     known_headers (rp_headers r) \<and> rp_body r = [] \<and> rp_code r \<in> {200, 404, 405, 500}
     \<and> rp_message r \<in> {''OK'', ''Not Found'', ''Method Not Allowed'', ''Internal Server Error''}"

lemma plain_outcome_reply:
  assumes "known_headers m" "code \<in> {200, 404, 405, 500}"
    and "message \<in> {''OK'', ''Not Found'', ''Method Not Allowed'', ''Internal Server Error''}"
  shows "plain_outcome (plain_reply code message m)" "plain_outcome ((plain_reply code message m)\<lparr>rp_close := b\<rparr>)"
  using assms by (simp_all add: plain_outcome_def plain_reply_def)

lemma plain_outcome_clean: "plain_outcome r \<Longrightarrow> clean_reply r"
  by (rule known_reply) (auto simp: plain_outcome_def known_headers_def in_int64_def)

lemma setup_outcome:
  assumes "nq_headers q ''cseq'' = Some (itoa n)"
  shows "plain_outcome (fst (handle_setup ports (base_headers q) q w))"
    and "rp_headers (fst (handle_setup ports (base_headers q) q w)) ''CSeq'' = Some (itoa n)"
proof -
  have failed: "plain_outcome (plain_reply 500 ''Internal Server Error'' (base_headers q))"
    by (rule plain_outcome_reply) (simp_all add: known_headers_base [OF assms])
  have "plain_outcome (ok_reply ((base_headers q)(''Session'' \<mapsto> itoa i, ''Transport'' \<mapsto> setup_transport a c t)))" for i a c t
    unfolding ok_reply_def
    by (intro plain_outcome_reply known_headers_upd known_headers_base [OF assms] setup_transport_ok header_ok_itoa) simp_all
  with failed show "plain_outcome (fst (handle_setup ports (base_headers q) q w))"
    by (simp add: handle_setup_def Let_def split: prod.split option.split)
  show "rp_headers (fst (handle_setup ports (base_headers q) q w)) ''CSeq'' = Some (itoa n)"
    using base_headers_read(1) [OF assms]
    by (simp add: handle_setup_def Let_def plain_reply_def ok_reply_def split: prod.split option.split)
qed

lemma handle_outcome:
  assumes "nq_headers q ''cseq'' = Some (itoa n)" "nq_method q \<noteq> ''GET_PARAMETER''"
  shows "plain_outcome (fst (handle ports q w))" and "rp_headers (fst (handle ports q w)) ''CSeq'' = Some (itoa n)"
proof -
  note base = known_headers_base [OF assms(1)]
  have base_ok: "plain_outcome (plain_reply 200 ''OK'' (base_headers q))" "plain_outcome (plain_reply 404 ''Not Found'' (base_headers q))"
    "plain_outcome (plain_reply 405 ''Method Not Allowed'' (base_headers q))"
    "plain_outcome ((plain_reply 200 ''OK'' (base_headers q))\<lparr>rp_close := True\<rparr>)"
    by (rule plain_outcome_reply; simp add: base)+
  have more: "plain_outcome (plain_reply 200 ''OK'' ((base_headers q)(''Public'' \<mapsto> public_methods)))"
    "plain_outcome (plain_reply 200 ''OK'' ((base_headers q)(''Content-Type'' \<mapsto> ''application/sdp'')))"
    "plain_outcome (plain_reply 200 ''OK'' ((base_headers q)(''Audio-Latency'' \<mapsto> itoa latency_frames)))"
    by (intro plain_outcome_reply known_headers_upd base fixed_headers_ok header_ok_itoa; simp)+
  show "plain_outcome (fst (handle ports q w))"
    using assms(2) base_ok more setup_outcome(1) [OF assms(1)] by (simp add: handle_def Let_def ok_reply_def)
  show "rp_headers (fst (handle ports q w)) ''CSeq'' = Some (itoa n)"
    using assms(2) base_headers_read(1) [OF assms(1)] setup_outcome(2) [OF assms(1)]
    by (simp add: handle_def Let_def ok_reply_def plain_reply_def)
qed

lemma call_served:
  assumes "sendable c verb uri content_type hs body" "io_write_ok (io n)"
    and "serve_request (io n) (sent_request c (cseq c) verb uri content_type hs body) w = (r, w')"
  shows "serve_conn io n (request_text c (cseq c) verb uri content_type hs body @ rest) w
       = (if rp_close r then ([write_response (io_order (io n)) r], w')
          else (case serve_conn io (Suc n) rest w' of (replies, w'') \<Rightarrow> (write_response (io_order (io n)) r # replies, w'')))"
  using assms(2,3) by (subst serve_conn.simps) (simp add: sent_request_read [OF assms(1)])

text \<open>
  A call over the connection, whatever the request: the handler runs once, on the request as it was
  meant, and the caller gets the reply of the handler.
\<close>

lemma call_over_connection:
  assumes "sendable c verb uri content_type hs body" "verb \<noteq> ''GET_PARAMETER''"
    and "unread c = []" "in_int64 (cseq c)" "io_write_ok (io n)"
    and "serve_request (io n) (sent_request c (cseq c) verb uri content_type hs body) w = (r, w')"
    and "set (io_order (io n)) = dom (rp_headers r)"
  shows "\<exists>a resp.
      (\<forall>rest. serve_conn io n (request_text c (cseq c) verb uri content_type hs body @ rest) w
        = (if rp_close r then ([a], w') else (case serve_conn io (Suc n) rest w' of (as, w'') \<Rightarrow> (a # as, w''))))
    \<and> conn_do c verb uri content_type hs body True a
        = (Inr resp, next_conn c (request_text c (cseq c) verb uri content_type hs body))
    \<and> rs_code resp = rp_code r \<and> rs_message resp = rp_message r \<and> rs_body resp = rp_body r
    \<and> (\<forall>k v. rp_headers r k = Some v \<longrightarrow> header (Some resp) k = v)"
proof -
  let ?q = "sent_request c (cseq c) verb uri content_type hs body" and ?a = "write_response (io_order (io n)) r"
  have q: "nq_headers ?q ''cseq'' = Some (itoa (cseq c))" "nq_method ?q \<noteq> ''GET_PARAMETER''"
    using sent_request_read(2) [OF assms(1)] assms(2) by (simp_all add: sent_request_def)
  have "r = fst (handle (io_ports (io n)) ?q (on_stats (\<lambda>x. x\<lparr>sx_requests := sx_requests x + 1\<rparr>) w))"
    using assms(6) by (simp add: serve_request_def)
  then have out: "plain_outcome r" "rp_headers r ''CSeq'' = Some (itoa (cseq c))"
    using handle_outcome [OF q] by simp_all
  from read_clean_reply [OF plain_outcome_clean [OF out(1)] assms(7) out(2) assms(4)]
  obtain resp where resp: "read_response (cseq c) ?a = (Inr resp, [])" "rs_code resp = rp_code r"
    "rs_message resp = rp_message r" "rs_body resp = []"
    "\<forall>k v. rp_headers r k = Some v \<longrightarrow> rs_headers resp (to_lower k) = Some v"
    by blast
  have "conn_do c verb uri content_type hs body True ?a
        = (Inr resp, next_conn c (request_text c (cseq c) verb uri content_type hs body))"
    using resp(1) assms(3) by (simp add: conn_do_def Let_def next_conn_def)
  moreover have "rs_body resp = rp_body r" "\<forall>k v. rp_headers r k = Some v \<longrightarrow> header (Some resp) k = v"
    using resp(4,5) out(1) by (auto simp: plain_outcome_def header_def get_or_empty_def)
  ultimately show ?thesis
    using call_served [where io = io and n = n, OF assms(1,5,6)] resp(2,3) by blast
qed

text \<open>
  C6: An RTSP exchange is a call.  Whatever request the sender can put on the connection (any method
  but GET_PARAMETER, which it never sends), the receiver's handler runs exactly once, on exactly that
  request, and what the sender gets back is what the handler returned: status, message, body and every
  header, under any order in which the receiver writes its headers; the connection goes on unless
  the handler closes it.
\<close>

lemma exchange_refines_call:
  assumes "sendable c verb uri content_type hs body" "verb \<noteq> ''GET_PARAMETER''"
    and "unread c = []" "in_int64 (cseq c)" "io_write_ok (io n)"
    and "serve_request (io n) (sent_request c (cseq c) verb uri content_type hs body) w = (r, w')"
    and "set (io_order (io n)) = dom (rp_headers r)"
  shows "\<exists>a resp.
      serve_conn io n (request_text c (cseq c) verb uri content_type hs body @ rest) w
        = (if rp_close r then ([a], w') else (case serve_conn io (Suc n) rest w' of (as, w'') \<Rightarrow> (a # as, w'')))
    \<and> conn_do c verb uri content_type hs body True a
        = (Inr resp, c\<lparr>cseq := int64 (cseq c + 1),
             pending_request := request_text c (cseq c) verb uri content_type hs body, unread := []\<rparr>)
    \<and> rs_code resp = rp_code r \<and> rs_message resp = rp_message r \<and> rs_body resp = rp_body r
    \<and> (\<forall>k v. rp_headers r k = Some v \<longrightarrow> header (Some resp) k = v)"
  using call_over_connection [where io = io and n = n, OF assms] unfolding next_conn_def by blast

lemma exchange_refines_call_witness:
  "\<exists>a resp. fst (serve_conn (\<lambda>n. \<lparr>io_ports = (None, None, None), io_order = [''Server'', ''CSeq''], io_write_ok = True\<rparr>) 0
        (request_text demo_conn 3 ''SETUP'' [] [] [(''Transport'', transport_request 5001 5002)] None) demo_reception) = [a]
    \<and> fst (conn_do demo_conn ''SETUP'' [] [] [(''Transport'', transport_request 5001 5002)] None True a) = Inr resp
    \<and> rs_code resp = 500 \<and> header (Some resp) ''Server'' = server_name"
proof -
  let ?io = "\<lambda>n :: nat. \<lparr>io_ports = (None, None, None), io_order = [''Server'', ''CSeq''], io_write_ok = True\<rparr>"
    and ?hs = "[(''Transport'', transport_request 5001 5002)]"
  let ?q = "sent_request demo_conn (cseq demo_conn) ''SETUP'' [] [] ?hs None"
  have c: "sendable demo_conn ''SETUP'' [] [] ?hs None" "unread demo_conn = []" "cseq demo_conn = 3" "in_int64 (cseq demo_conn)"
    using handshake_sendable(3) [OF demo_conn_clean] by (simp_all add: demo_conn_def in_int64_def)
  have m: "nq_method ?q = ''SETUP''" "nq_headers ?q ''cseq'' = Some (itoa 3)"
    using sent_request_read(2) [OF c(1)] c(3) by (simp_all add: sent_request_def)
  obtain r w' where r: "serve_request (?io 0) ?q demo_reception = (r, w')"
    by fastforce
  have reply: "r = plain_reply 500 ''Internal Server Error'' (base_headers ?q)"
    using r m(1) by (simp add: serve_request_def handle_def handle_setup_def Let_def)
  then have d: "set (io_order (?io 0)) = dom (rp_headers r)" "rp_code r = 500" "\<not> rp_close r" "rp_headers r ''Server'' = Some server_name"
    using base_headers_read [OF m(2)] by (simp_all add: plain_reply_def insert_commute)
  have empty: "serve_conn ?io (Suc 0) [] w' = ([], w')"
    by (subst serve_conn.simps) (simp add: read_request_def request_line.simps read_line_def)
  obtain a resp where "serve_conn ?io 0 (request_text demo_conn 3 ''SETUP'' [] [] ?hs None) demo_reception = ([a], w')"
    "fst (conn_do demo_conn ''SETUP'' [] [] ?hs None True a) = Inr resp" "rs_code resp = 500" "header (Some resp) ''Server'' = server_name"
    using exchange_refines_call [where io = ?io and n = 0 and rest = "[]", OF c(1) _ c(2,4) _ r d(1)] d(2-4)
    by (auto simp: c(3) empty)
  then show ?thesis
    by (intro exI [of _ a] exI [of _ resp]) simp
qed

subsection \<open>The volume on the other side\<close>

lemma decimal_text:
  "c \<in> set (format_float6 x) \<Longrightarrow> is_digit c \<or> c = CHR ''-'' \<or> c = CHR ''.''"
  "format_float6 x \<noteq> []" "\<not> edge_byte (hd (format_float6 x))" "\<not> edge_byte (last (format_float6 x))"
proof -
  have digits: "is_digit d" if "d \<in> set (nat_str n)" for d n
    using nat_str_digits [of n] that by (auto simp: list_all_iff)
  have ne: "nat_str n \<noteq> []" for n
    using nat_str_digits [of n] by simp
  have zero: "is_digit (CHR ''0'')"
    by (simp add: is_digit_def less_eq_char_simp)
  define u where "u = nat \<bar>round_even (x * 1000000)\<bar>"
  have "set (format_float6 x) \<subseteq> {CHR ''-'', CHR ''.'', CHR ''0''} \<union> set (nat_str (u div 1000000)) \<union> set (nat_str (u mod 1000000))"
    unfolding format_float6_def Let_def pad6_def u_def [symmetric] by (cases "x < 0") auto
  note sub = this
  show cs: "is_digit c \<or> c = CHR ''-'' \<or> c = CHR ''.''" if "c \<in> set (format_float6 x)" for c
    using subsetD [OF sub that] by (elim UnE insertE emptyE) (simp, simp, simp add: zero, (drule digits, simp)+)
  show n: "format_float6 x \<noteq> []"
    by (simp add: format_float6_def Let_def)
  have dot: "\<not> edge_byte (CHR ''.'')"
    by (simp add: edge_byte_def space_runes_def)
  have edge: "\<not> edge_byte c" if "c \<in> set (format_float6 x)" for c
    using cs [OF that] digit_not_edge [of c] dot by (elim disjE) simp_all
  show "\<not> edge_byte (hd (format_float6 x))" "\<not> edge_byte (last (format_float6 x))"
    using edge hd_in_set [OF n] last_in_set [OF n] by simp_all
qed

lemma volume_body_parsed: "parse_parameters (volume_body p) s = s\<lparr>cs_volume := format_float6 (percent_to_dbfs p)\<rparr>"
proof -
  let ?t = "format_float6 (percent_to_dbfs p)"
  have "CHR 0x0D \<notin> set ?t"
    using decimal_text(1) [of "CHR 0x0D"] by (auto simp: is_digit_def less_eq_char_simp)
  then have one: "split_crlf (volume_body p) = [volume_body p]"
    by (intro split_crlf_last) (simp add: volume_body_def)
  have "cut (CHR '':'') (''volume'' @ CHR '':'' # CHR '' '' # ?t) = (''volume'', CHR '' '' # ?t, True)"
    by (rule cut_append) simp
  then have "cut (CHR '':'') (volume_body p) = (''volume'', CHR '' '' # ?t, True)"
    by (simp add: volume_body_def)
  moreover have "trim_space ''volume'' = ''volume''"
    by (rule trim_space_id) (simp_all add: edge_byte_def space_runes_def)
  moreover have "to_lower ''volume'' = ''volume''"
    by (simp add: to_lower_def lower_char_def is_upper_def less_eq_char_simp)
  moreover have "trim_space (CHR '' '' # ?t) = ?t"
    using trim_space_id [OF decimal_text(2-4)] by (simp add: trim_space_Cons_space)
  ultimately show ?thesis
    by (simp add: parse_parameters_def parameter_line_def one)
qed

lemma length_nat_str: "length (nat_str n) \<le> Suc n"
proof (induction n rule: nat_str.induct)
  case (1 n)
  show ?case
  proof (cases "n < 10")
    case False
    then have "length (nat_str (n div 10)) \<le> Suc (n div 10)"
      by (rule "1.IH")
    moreover have "Suc (Suc (n div 10)) \<le> Suc n"
      using False by simp
    ultimately show ?thesis
      using False by (subst nat_str.simps) simp
  qed (subst nat_str.simps, simp)
qed

lemma volume_range: "\<bar>percent_to_dbfs p\<bar> \<le> 144"
proof (cases "0 < p \<and> p < 100")
  case True
  then have p: "(0 :: rat) \<le> of_int p" "(of_int p :: rat) \<le> 100"
    using of_int_le_iff [of 0 p, where 'a = rat] of_int_le_iff [of p 100, where 'a = rat] by simp_all
  show ?thesis
  proof -
    have "\<bar>percent_to_dbfs p - (- 30 + of_int p * 3 / 10)\<bar> \<le> 1"
      using percent_to_dbfs_near(1) [of p] True by simp
    then show ?thesis
      using p by linarith
  qed
qed (auto simp: percent_to_dbfs_def)

lemma volume_body_short: "int (length (volume_body p)) \<le> max_alloc"
proof -
  define u where "u = nat \<bar>round_even (percent_to_dbfs p * 1000000)\<bar>"
  have "\<bar>of_int (round_even (percent_to_dbfs p * 1000000)) :: rat\<bar> \<le> 144000001"
    using volume_range [of p] round_even_error [of "percent_to_dbfs p * 1000000"] by linarith
  then have "\<bar>round_even (percent_to_dbfs p * 1000000)\<bar> \<le> 144000001"
    by (metis (mono_tags, lifting) of_int_abs of_int_le_iff of_int_numeral)
  then have "u \<le> 144000001"
    by (simp add: u_def)
  moreover have "length (nat_str (u div 1000000)) \<le> Suc (u div 1000000)" "length (nat_str (u mod 1000000)) \<le> Suc (u mod 1000000)"
    by (rule length_nat_str)+
  moreover have "u mod 1000000 < 1000000"
    by simp
  moreover have "length (volume_body p) \<le> 9 + length (nat_str (u div 1000000)) + 1 + (6 + length (nat_str (u mod 1000000)))"
    by (cases "percent_to_dbfs p < 0") (simp_all add: volume_body_def format_float6_def Let_def u_def [symmetric] pad6_def)
  ultimately have "length (volume_body p) \<le> 9 + 145 + 1 + 1000006"
    by linarith
  then show ?thesis
    by (simp add: max_alloc_def)
qed

lemma volume_sendable:
  assumes "conn_clean c"
  shows "sendable c ''SET_PARAMETER'' [] ''text/parameters'' [] (Some (volume_body p))"
proof -
  have "header_ok (''Content-Type'', ''text/parameters'')"
    by (rule header_ok_eval) (simp_all add: edge_byte_def space_runes_def lf_def)
  then show ?thesis
    using assms methods_clean [of "''SET_PARAMETER''"] volume_body_short [of p]
    by (simp add: sendable_def extra_ok_def body_text_def) (simp add: clean_text_def lf_def)
qed

lemma volume_handled:
  assumes "nq_method q = ''SET_PARAMETER''" "nq_headers q ''content-type'' = Some ''text/parameters''"
  shows "handle ports q w = (ok_reply (base_headers q), on_session (parse_parameters (nq_body q)) w)"
proof -
  have "to_lower ''text/parameters'' = ''text/parameters''"
    by (simp add: to_lower_def lower_char_def is_upper_def less_eq_char_simp)
  then show ?thesis
    using assms by (simp add: handle_def Let_def get_or_empty_def)
qed

definition volume_text :: "rtsp_conn \<Rightarrow> int \<Rightarrow> string" where
  "volume_text c p = request_text c (cseq c) ''SET_PARAMETER'' [] ''text/parameters'' [] (Some (volume_body (clamp_percent p)))"

lemma volume_exchange:
  assumes "conn_clean (sd_conn s)" "unread (sd_conn s) = []" "in_int64 (cseq (sd_conn s))"
    and "io_write_ok (io n)" "set (io_order (io n)) = {''CSeq'', ''Server''}"
  obtains a where
    "\<forall>rest. serve_conn io n (volume_text (sd_conn s) p @ rest) w
       = (case serve_conn io (Suc n) rest (on_session (parse_parameters (volume_body (clamp_percent p))) (count_request w)) of
            (as, w'') \<Rightarrow> (a # as, w''))"
    "\<forall>rv. set_volume (rv, True, a) p s
       = (None, s\<lparr>sd_conn := next_conn (sd_conn s) (volume_text (sd_conn s) p), sd_volume := clamp_percent p\<rparr>)"
proof -
  let ?c = "sd_conn s" and ?b = "Some (volume_body (clamp_percent p))"
  let ?q = "sent_request ?c (cseq ?c) ''SET_PARAMETER'' [] ''text/parameters'' [] ?b"
  let ?w = "on_session (parse_parameters (volume_body (clamp_percent p))) (count_request w)"
  note ok = volume_sendable [OF assms(1), of "clamp_percent p"]
  have q: "nq_headers ?q ''cseq'' = Some (itoa (cseq ?c))" "nq_method ?q = ''SET_PARAMETER''"
      "nq_headers ?q ''content-type'' = Some ''text/parameters''" "nq_body ?q = volume_body (clamp_percent p)"
    using sent_request_read(2) [OF ok] received_headers_lookup(2) [of "[]" ?c "cseq ?c" "''text/parameters''" ?b]
    by (simp_all add: sent_request_def extra_ok_def body_text_def)
  have served: "serve_request (io n) ?q w = (ok_reply (base_headers ?q), ?w)"
    unfolding serve_request_def volume_handled [OF q(2,3)] q(4) count_request_def ..
  have reply: "rp_headers (ok_reply (base_headers ?q)) = base_headers ?q" "rp_code (ok_reply (base_headers ?q)) = 200"
      "rp_close (ok_reply (base_headers ?q)) = False"
    by (simp_all add: ok_reply_def plain_reply_def)
  have order: "set (io_order (io n)) = dom (rp_headers (ok_reply (base_headers ?q)))"
    using assms(5) base_headers_read(3) [OF q(1)] unfolding reply by simp
  obtain a resp where a:
    "\<forall>rest. serve_conn io n (volume_text ?c p @ rest) w = (case serve_conn io (Suc n) rest ?w of (as, w'') \<Rightarrow> (a # as, w''))"
    and resp: "conn_do ?c ''SET_PARAMETER'' [] ''text/parameters'' [] ?b True a
        = (Inr resp, next_conn ?c (volume_text ?c p))" "rs_code resp = 200"
    using call_over_connection [where io = io and n = n, OF ok _ assms(2,3,4) served order]
    unfolding reply if_False volume_text_def [symmetric] by auto
  have "set_volume (rv, True, a) p s = (None, s\<lparr>sd_conn := next_conn ?c (volume_text ?c p), sd_volume := clamp_percent p\<rparr>)" for rv
    using resp by (simp add: set_volume_def Let_def request_def ordered_def)
  then show ?thesis
    using that a by blast
qed

text \<open>
  C37: The volume set is the volume heard.  When the sender sets the volume on a connection to the
  receiver, the receiver holds the decibel value of that percentage, as the very digits the sender
  printed, and the sender records the percentage, both with a value out of range cut to 0..100;
  nothing else changes at the receiver.
\<close>

lemma volume_reaches_receiver:
  assumes "conn_clean (sd_conn s)" "unread (sd_conn s) = []" "in_int64 (cseq (sd_conn s))"
    and "io_write_ok (io n)" "set (io_order (io n)) = {''CSeq'', ''Server''}"
    and "payload = request_text (sd_conn s) (cseq (sd_conn s)) ''SET_PARAMETER'' [] ''text/parameters'' []
           (Some (volume_body (clamp_percent p)))"
  shows "\<exists>a w' s'. serve_conn io n (payload @ rest) w = (case serve_conn io (Suc n) rest w' of (as, w'') \<Rightarrow> (a # as, w''))
       \<and> set_volume (rv, True, a) p s = (None, s') \<and> sd_volume s' = clamp_percent p
       \<and> rx_session w' = (rx_session w)\<lparr>cs_volume := format_float6 (percent_to_dbfs (clamp_percent p))\<rparr>
       \<and> mr_pcm (rx_receiver w') = mr_pcm (rx_receiver w) \<and> rx_out w' = rx_out w \<and> rx_open w' = rx_open w"
proof -
  let ?w = "on_session (parse_parameters (volume_body (clamp_percent p))) (count_request w)"
  have t: "payload = volume_text (sd_conn s) p"
    by (simp add: assms(6) volume_text_def)
  obtain a where "\<forall>rest. serve_conn io n (payload @ rest) w = (case serve_conn io (Suc n) rest ?w of (as, w'') \<Rightarrow> (a # as, w''))"
    "\<forall>rv. set_volume (rv, True, a) p s
       = (None, s\<lparr>sd_conn := next_conn (sd_conn s) payload, sd_volume := clamp_percent p\<rparr>)"
    unfolding t by (rule volume_exchange [where io = io and n = n, OF assms(1-5)])
  then show ?thesis
    by (intro exI [of _ a] exI [of _ ?w]
        exI [of _ "s\<lparr>sd_conn := next_conn (sd_conn s) payload, sd_volume := clamp_percent p\<rparr>"]) (simp add: volume_body_parsed count_request_def)
qed

lemma volume_reaches_receiver_witness:
  defines "s \<equiv> initial_sender \<lparr>cf_address = ''10.0.0.9'', cf_port = 7000, cf_format = \<lparr>sample_rate = 48000, channels = 1, bit_depth = 16\<rparr>,
                  cf_local_ip = [], cf_volume = 20\<rparr> \<lparr>sample_rate = 48000, channels = 1, bit_depth = 16\<rparr> demo_conn 0 0"
    and "io \<equiv> \<lambda>n :: nat. \<lparr>io_ports = (None, None, None), io_order = [''Server'', ''CSeq''], io_write_ok = True\<rparr>"
  shows "\<exists>a s' w'. set_volume (False, True, a) 130 s = (None, s') \<and> sd_volume s' = 100
     \<and> serve_conn io 0 (request_text demo_conn 3 ''SET_PARAMETER'' [] ''text/parameters'' [] (Some (volume_body 100))) demo_reception
        = ([a], w') \<and> cs_volume (rx_session w') = ''0.000000''"
proof -
  have c: "sd_conn s = demo_conn" "unread demo_conn = []" "cseq demo_conn = 3" "clamp_percent 130 = 100"
    by (simp_all add: s_def initial_sender_def Let_def demo_conn_def clamp_percent_def)
  have tx: "format_float6 (percent_to_dbfs 100) = ''0.000000''"
    by (simp add: percent_to_dbfs_def format_float6_def round_even_def pad6_def) (simp add: nat_str.simps digit_char_def numeral_eq_Suc)
  obtain a w' s' where
    served: "serve_conn io 0 (request_text demo_conn 3 ''SET_PARAMETER'' [] ''text/parameters'' [] (Some (volume_body 100)) @ [])
       demo_reception = (case serve_conn io (Suc 0) [] w' of (as, w'') \<Rightarrow> (a # as, w''))"
    and ok: "set_volume (False, True, a) 130 s = (None, s')" "sd_volume s' = 100"
    and w': "rx_session w' = (rx_session demo_reception)\<lparr>cs_volume := format_float6 (percent_to_dbfs 100)\<rparr>"
    using volume_reaches_receiver [where io = io and n = 0 and s = s and p = 130 and w = demo_reception and rest = "[]" and rv = False,
        OF _ _ _ _ _ refl] demo_conn_clean
    by (auto simp: c io_def in_int64_def insert_commute)
  have "serve_conn io (Suc 0) [] w' = ([], w')"
    by (subst serve_conn.simps) (simp add: read_request_def request_line.simps read_line_def)
  then show ?thesis
    using served ok w' tx by auto
qed

subsection \<open>Recording starts\<close>

definition record_text :: "rtsp_conn \<Rightarrow> string" where
  "record_text c = request_text c (cseq c) ''RECORD'' [] [] [] None"

definition recording :: "reception \<Rightarrow> reception" where
  "recording w = on_session (\<lambda>s. s\<lparr>cs_recording := True\<rparr>) (count_request w)"

lemma record_exchange:
  assumes "conn_clean (sd_conn s)" "unread (sd_conn s) = []" "in_int64 (cseq (sd_conn s))"
    and "io_write_ok (io n)" "set (io_order (io n)) = {''CSeq'', ''Server'', ''Audio-Latency''}"
  obtains a where
    "\<forall>rest. serve_conn io n (record_text (sd_conn s) @ rest) w
       = (case serve_conn io (Suc n) rest (recording w) of (as, w'') \<Rightarrow> (a # as, w''))"
    "\<forall>rv. record_request (rv, True, a) s = (None, s\<lparr>sd_conn := next_conn (sd_conn s) (record_text (sd_conn s))\<rparr>)"
proof -
  let ?c = "sd_conn s"
  let ?q = "sent_request ?c (cseq ?c) ''RECORD'' [] [] [] None"
  let ?m = "(base_headers ?q)(''Audio-Latency'' \<mapsto> itoa latency_frames)"
  have ok: "sendable ?c ''RECORD'' [] [] [] None"
    using assms(1) methods_clean [of "''RECORD''"]
    by (simp add: sendable_def extra_ok_def body_text_def max_alloc_def) (simp add: clean_text_def)
  have q: "nq_headers ?q ''cseq'' = Some (itoa (cseq ?c))" "nq_method ?q = ''RECORD''"
    using sent_request_read(2) [OF ok] by (simp_all add: sent_request_def)
  have served: "serve_request (io n) ?q w = (ok_reply ?m, recording w)"
    unfolding serve_request_def recording_def count_request_def using q(2) by (simp add: handle_def Let_def)
  have reply: "rp_headers (ok_reply ?m) = ?m" "rp_code (ok_reply ?m) = 200" "rp_close (ok_reply ?m) = False"
    by (simp_all add: ok_reply_def plain_reply_def)
  have order: "set (io_order (io n)) = dom (rp_headers (ok_reply ?m))"
    unfolding reply dom_fun_upd base_headers_read(3) [OF q(1)] assms(5) by (simp only: option.distinct if_False insert_commute)
  obtain a resp where a:
    "\<forall>rest. serve_conn io n (record_text ?c @ rest) w = (case serve_conn io (Suc n) rest (recording w) of (as, w'') \<Rightarrow> (a # as, w''))"
    and resp: "conn_do ?c ''RECORD'' [] [] [] None True a = (Inr resp, next_conn ?c (record_text ?c))" "rs_code resp = 200"
    using call_over_connection [where io = io and n = n, OF ok _ assms(2,3,4) served order]
    unfolding reply if_False record_text_def [symmetric] by auto
  have "record_request (rv, True, a) s = (None, s\<lparr>sd_conn := next_conn ?c (record_text ?c)\<rparr>)" for rv
    using resp by (simp add: record_request_def request_def ordered_def)
  then show ?thesis
    using that a by blast
qed

end
