(* ===== verification/Announce.thy ===== *)
theory Announce
  imports Receiver Target Mdns
begin

text \<open>
  The mock receiver on the network (\<open>advertise\<close> of cmd/mockreceiver/main.go) and what the bridge makes
  of it: its two TXT records read by the browser's parser, its two services merged in the registry, and
  the target of a kernel.
\<close>

subsection \<open>TXT records\<close>

definition plain_pair :: "string \<times> string \<Rightarrow> bool" where
  "plain_pair p \<longleftrightarrow>
     (case p of (k, v) \<Rightarrow>
        k \<noteq> [] \<and> CHR ''='' \<notin> set k \<and> \<not> edge_byte (hd k) \<and> \<not> edge_byte (last k) \<and> to_lower k = k
        \<and> v \<noteq> [] \<and> \<not> edge_byte (hd v) \<and> \<not> edge_byte (last v))"

definition txt_text :: "string \<times> string \<Rightarrow> string" where
  "txt_text p = fst p @ ''='' @ snd p"

lemma txt_field_plain: "plain_pair p \<Longrightarrow> txt_field m (txt_text p) = m(fst p \<mapsto> snd p)"
proof -
  assume p: "plain_pair p"
  obtain k v where kv: "p = (k, v)"
    by fastforce
  have "cut (CHR ''='') (k @ CHR ''='' # v) = (k, v, True)"
    using p kv by (intro cut_append) (simp add: plain_pair_def)
  moreover have "trim_space k = k" "trim_space v = v"
    using p kv by (auto simp: plain_pair_def intro!: trim_space_id)
  ultimately show ?thesis
    using p kv by (simp add: txt_field_def txt_text_def plain_pair_def)
qed

lemma parse_txt_plain: "list_all plain_pair ps \<Longrightarrow> parse_txt (map txt_text ps) = map_of (rev ps)"
proof (induction ps rule: rev_induct)
  case (snoc p ps)
  then show ?case
    using txt_field_plain [of p "parse_txt (map txt_text ps)"]
    by (cases p) (simp add: parse_txt_def)
qed (simp add: parse_txt_def)

definition raop_pairs :: "receiver \<Rightarrow> (string \<times> string) list" where
  "raop_pairs r =
     [(''txtvers'', ''1''), (''ch'', ''2''), (''cn'', ''0,1''), (''et'', ''0,3,5''), (''sv'', ''false''), (''da'', ''true''),
      (''sr'', itoa (mr_rate r)), (''ss'', ''16''), (''pw'', ''false''), (''vn'', ''65537''), (''tp'', ''UDP''), (''md'', ''0,1,2''),
      (''sm'', ''false''), (''ek'', ''1''), (''vs'', ''130.14''), (''am'', ''AudioAccessory5,1'')]"

definition airplay_pairs :: "receiver \<Rightarrow> (string \<times> string) list" where
  "airplay_pairs r =
     [(''deviceid'', mr_mac r), (''features'', ''0x4A7FCA00,0x3C356BD0''), (''flags'', ''0x4''), (''sf'', ''0x4''),
      (''model'', ''AudioAccessory5,1''), (''srcvers'', ''130.14''), (''protovers'', ''1.1''), (''pk'', replicate 64 (CHR ''0'')),
      (''pi'', ''00000000-0000-0000-0000-000000000000''), (''gid'', ''00000000-0000-0000-0000-000000000000'')]"

lemma records_of_pairs: "raop_records r = map txt_text (raop_pairs r)" "airplay_records r = map txt_text (airplay_pairs r)"
  by (simp_all add: raop_records_def raop_pairs_def airplay_records_def airplay_pairs_def txt_text_def)

lemma plain_not_edge: "33 \<le> (of_char c :: nat) \<Longrightarrow> (of_char c :: nat) < 127 \<Longrightarrow> \<not> edge_byte c"
  by (auto simp: edge_byte_def space_runes_def)

lemma edge_itoa: "\<not> edge_byte (hd (itoa i))" "\<not> edge_byte (last (itoa i))"
  using set_itoa [OF hd_in_set [OF itoa_nonempty [of i]]] set_itoa [OF last_in_set [OF itoa_nonempty [of i]]]
  by (auto simp: digit_not_edge)

lemma rate_plain: "plain_pair (''sr'', itoa i)"
  by (simp add: plain_pair_def edge_itoa itoa_nonempty) (simp add: plain_not_edge to_lower_def lower_char_def is_upper_def)

lemma raop_plain: "list_all plain_pair (raop_pairs r)"
proof -
  have "list_all plain_pair
     [(''txtvers'', ''1''), (''ch'', ''2''), (''cn'', ''0,1''), (''et'', ''0,3,5''), (''sv'', ''false''), (''da'', ''true''),
      (''ss'', ''16''), (''pw'', ''false''), (''vn'', ''65537''), (''tp'', ''UDP''), (''md'', ''0,1,2''),
      (''sm'', ''false''), (''ek'', ''1''), (''vs'', ''130.14''), (''am'', ''AudioAccessory5,1'')]"
    by (simp add: plain_pair_def) (simp add: plain_not_edge to_lower_def lower_char_def is_upper_def)
  then show ?thesis
    using rate_plain [of "mr_rate r"] by (simp add: raop_pairs_def)
qed

lemma mac_edges:
  assumes "canonical_mac m"
  shows "m \<noteq> []" "\<not> edge_byte (hd m)" "\<not> edge_byte (last m)"
proof -
  obtain h where h: "length h = 12" "list_all is_hex_digit h" "m = join '':'' (pairs h)"
    using assms by (auto simp: canonical_mac_def)
  obtain a b c d e f g i j k l n where e: "h = [a, b, c, d, e, f, g, i, j, k, l, n]"
    using length_12 [OF h(1)] by blast
  show "m \<noteq> []" "\<not> edge_byte (hd m)" "\<not> edge_byte (last m)"
    using h(2) by (simp_all add: h(3) e)
qed

lemma airplay_plain:
  assumes "canonical_mac (mr_mac r)"
  shows "list_all plain_pair (airplay_pairs r)"
  unfolding airplay_pairs_def
  by (simp add: plain_pair_def mac_edges [OF assms]) (simp add: plain_not_edge to_lower_def lower_char_def is_upper_def)

lemma raop_txt:
  "parse_txt (raop_records r) ''cn'' = Some ''0,1''" "parse_txt (raop_records r) ''pw'' = Some ''false''"
  "parse_txt (raop_records r) ''sf'' = None" "parse_txt (raop_records r) ''flags'' = None"
  "parse_txt (raop_records r) ''deviceid'' = None"
  unfolding records_of_pairs parse_txt_plain [OF raop_plain] by (simp_all add: raop_pairs_def)

lemma airplay_txt:
  assumes "canonical_mac (mr_mac r)"
  shows "parse_txt (airplay_records r) ''cn'' = None" "parse_txt (airplay_records r) ''pw'' = None"
    "parse_txt (airplay_records r) ''sf'' = Some ''0x4''" "parse_txt (airplay_records r) ''deviceid'' = Some (mr_mac r)"
  unfolding records_of_pairs parse_txt_plain [OF airplay_plain [OF assms(1)]] by (simp_all add: airplay_pairs_def)

lemma no_password:
  "\<not> password_required (parse_txt (raop_records r))"
  "canonical_mac (mr_mac r) \<Longrightarrow> \<not> password_required (parse_txt (airplay_records r))"
proof -
  have t: "trim_space [] = []" "trim_space ''0x4'' = ''0x4''"
    by simp (rule trim_space_id; simp add: edge_byte_def space_runes_def)
  have f: "\<not> equal_fold ''false'' ''true''" "\<not> equal_fold [] ''true''"
    by (simp_all add: equal_fold_def to_lower_def lower_char_def is_upper_def)
  have "parse_hex_mask ''0x4'' = 4"
    by (simp add: parse_hex_mask_def t to_lower_def lower_char_def is_upper_def trim_prefix_def hex_digit_value_def Let_def
        int64_def less_eq_char_simp)
  then show "canonical_mac (mr_mac r) \<Longrightarrow> \<not> password_required (parse_txt (airplay_records r))"
    using f t by (simp add: password_required_def txt_get_def airplay_txt)
  show "\<not> password_required (parse_txt (raop_records r))"
    using f t by (simp add: password_required_def txt_get_def raop_txt parse_hex_mask_def)
qed

subsection \<open>What a browser hears\<close>

text \<open>
  \<open>advertise\<close>: the services that stay registered, and the one whose registration failed.
  \<open>zeroconf.Register\<close> is an input: whether it takes the RAOP and the AirPlay service.
\<close>

record service_record =
  sv_kind :: string
  sv_instance :: string
  sv_port :: int
  sv_text :: "string list"

definition raop_service :: "receiver \<Rightarrow> service_record" where
  "raop_service r = \<lparr>sv_kind = service_raop, sv_instance = raop_instance r, sv_port = mr_port r, sv_text = raop_records r\<rparr>"

definition airplay_service :: "receiver \<Rightarrow> service_record" where
  "airplay_service r = \<lparr>sv_kind = service_airplay, sv_instance = mr_name r, sv_port = mr_port r, sv_text = airplay_records r\<rparr>"

definition advertise :: "bool \<Rightarrow> bool \<Rightarrow> receiver \<Rightarrow> service_record list \<times> string option" where
  "advertise raop_ok airplay_ok r =
     (if \<not> raop_ok then ([], Some service_raop)
      else if \<not> airplay_ok then ([], Some service_airplay)
      else ([raop_service r, airplay_service r], None))"

text \<open>
  The entry under which a service is browsed: its port and TXT record as registered, its instance
  label in one of the presentations of DNS-SD (\<open>unescape_presentation\<close> of theory Mdns), and the
  address of its host.
\<close>

definition heard_as :: "string \<Rightarrow> service_record \<Rightarrow> service_entry \<Rightarrow> bool" where
  "heard_as addr sv e \<longleftrightarrow>
     unescape_dns_label (trim_suffix (se_instance e) ''.'') = sv_instance sv \<and> se_port e = sv_port sv
     \<and> se_text e = sv_text sv \<and> first_ipv4 e = addr"

definition well_named :: "receiver \<Rightarrow> bool" where
  "well_named r \<longleftrightarrow> canonical_mac (mr_mac r) \<and> mr_name r \<noteq> [] \<and> trim_space (mr_name r) = mr_name r \<and> mr_port r \<noteq> 0"

lemma mac_of_instance:
  assumes "canonical_mac m"
  shows "normalize_mac (filter (\<lambda>c. c \<noteq> CHR '':'') m) = m" "CHR ''@'' \<notin> set m" "normalize_mac m = m" "m \<noteq> []"
proof -
  obtain h where h: "length h = 12" "list_all is_hex_digit h" "to_upper h = h" "m = join '':'' (pairs h)"
    using assms by (auto simp: canonical_mac_def)
  obtain a b c d e f g i j k l n where e: "h = [a, b, c, d, e, f, g, i, j, k, l, n]"
    using length_12 [OF h(1)] by blast
  have f: "filter (\<lambda>c. c \<noteq> CHR '':'') m = h"
    using h(2) by (simp add: h(4) e)
  have "trim_space h = h"
    using h(2) by (intro trim_space_id) (simp_all add: e)
  moreover have "strip_separators h = h"
    using h(2) by (simp add: e strip_separators_def)
  ultimately show "normalize_mac (filter (\<lambda>c. c \<noteq> CHR '':'') m) = m"
    unfolding f using h by (simp add: normalize_mac_def)
  have "\<not> is_hex_digit (CHR ''@'')"
    by (simp add: is_hex_digit_def less_eq_char_simp)
  then show "CHR ''@'' \<notin> set m"
    using h(2) by (auto simp: h(4) e)
  show "normalize_mac m = m"
    by (rule canonical_mac_fixed(1) [OF assms])
  show "m \<noteq> []"
    using mac_edges(1) [OF assms] .
qed

text \<open>What the browser makes of the two entries.\<close>

definition raop_observation :: "receiver \<Rightarrow> string \<Rightarrow> time \<Rightarrow> device" where
  "raop_observation r addr t =
     empty_device\<lparr>dev_id := mr_mac r @ ''@'' @ mr_name r, dev_name := mr_name r, dev_model := ''AudioAccessory5,1'',
       dev_address := addr, dev_port := mr_port r, dev_protocol := ''raop'', last_seen := t, dev_source := source_mdns,
       raop_port := mr_port r, dev_mac := mr_mac r, dev_txt := parse_txt (raop_records r)\<rparr>"

definition airplay_observation :: "receiver \<Rightarrow> string \<Rightarrow> time \<Rightarrow> device" where
  "airplay_observation r addr t =
     empty_device\<lparr>dev_id := mr_mac r @ ''@'' @ mr_name r, dev_name := mr_name r, dev_model := ''AudioAccessory5,1'',
       dev_address := addr, dev_port := mr_port r, dev_features := ''0x4A7FCA00,0x3C356BD0'', dev_protocol := ''airplay2'',
       last_seen := t, dev_source := source_mdns, airplay_port := mr_port r, dev_mac := mr_mac r,
       dev_txt := parse_txt (airplay_records r)\<rparr>"

lemma raop_heard:
  assumes "well_named r" "heard_as addr (raop_service r) e" "addr \<noteq> []"
  shows "observe t service_raop e = Some (raop_observation r addr t)"
proof -
  have c: "canonical_mac (mr_mac r)" "mr_name r \<noteq> []" "trim_space (mr_name r) = mr_name r"
    using assms(1) by (simp_all add: well_named_def)
  note mac = mac_of_instance [OF c(1)]
  have e: "unescape_dns_label (trim_suffix (se_instance e) ''.'') = raop_instance r" "se_port e = mr_port r"
    "se_text e = raop_records r" "first_ipv4 e = addr"
    using assms(2) by (simp_all add: heard_as_def raop_service_def)
  have "cut (CHR ''@'') (raop_instance r) = (filter (\<lambda>c. c \<noteq> CHR '':'') (mr_mac r), mr_name r, True)"
    unfolding raop_instance_def using mac(2) by (simp add: cut_append)
  then have i: "mac_from_instance_name (raop_instance r) = mr_mac r"
      "(case cut (CHR ''@'') (raop_instance r) of (_, name, found) \<Rightarrow> if found then trim_space name else trim_space (raop_instance r)) = mr_name r"
    using mac(1) c(3) by (simp_all add: mac_from_instance_name_def)
  have p: "\<not> equal_fold ''false'' ''true''"
    by (simp add: equal_fold_def to_lower_def lower_char_def is_upper_def)
  have m: "txt_get (parse_txt (raop_records r)) ''am'' = ''AudioAccessory5,1''" "txt_get (parse_txt (raop_records r)) ''pw'' = ''false''"
    unfolding records_of_pairs parse_txt_plain [OF raop_plain] by (simp_all add: raop_pairs_def txt_get_def)
  show ?thesis
    using e i p mac(4) c(2) no_password(1) [of r] assms(3) m
    by (simp add: observe_def observe_service_def name_observation_def Let_def empty_device_def raop_observation_def)
qed

lemma airplay_heard:
  assumes "well_named r" "heard_as addr (airplay_service r) e" "addr \<noteq> []"
  shows "observe t service_airplay e = Some (airplay_observation r addr t)"
proof -
  have c: "canonical_mac (mr_mac r)" "mr_name r \<noteq> []" "trim_space (mr_name r) = mr_name r"
    using assms(1) by (simp_all add: well_named_def)
  note mac = mac_of_instance [OF c(1)]
  have e: "unescape_dns_label (trim_suffix (se_instance e) ''.'') = mr_name r" "se_port e = mr_port r"
    "se_text e = airplay_records r" "first_ipv4 e = addr"
    using assms(2) by (simp_all add: heard_as_def airplay_service_def)
  have m: "txt_get (parse_txt (airplay_records r)) ''model'' = ''AudioAccessory5,1''"
      "txt_get (parse_txt (airplay_records r)) ''features'' = ''0x4A7FCA00,0x3C356BD0''"
      "txt_get (parse_txt (airplay_records r)) ''deviceid'' = mr_mac r"
    unfolding records_of_pairs parse_txt_plain [OF airplay_plain [OF c(1)]] by (simp_all add: airplay_pairs_def txt_get_def)
  show ?thesis
    using e c(2,3) mac(3,4) no_password(2) [OF c(1)] assms(3) m
    by (simp add: observe_def observe_service_def name_observation_def Let_def empty_device_def airplay_observation_def)
qed

text \<open>The one entry of the registry for both services, and what it offers a kernel.\<close>

lemma announced_macs:
  assumes "well_named r" "addr \<noteq> []"
  shows "heard_as addr (raop_service r) e \<Longrightarrow> announced_mac service_raop e = mr_mac r"
    and "heard_as addr (airplay_service r) e \<Longrightarrow> announced_mac service_airplay e = mr_mac r"
proof -
  have "dev_mac (raop_observation r addr t) = mr_mac r" "dev_mac (airplay_observation r addr t) = mr_mac r" for t
    by (simp_all add: raop_observation_def airplay_observation_def)
  then show "heard_as addr (raop_service r) e \<Longrightarrow> announced_mac service_raop e = mr_mac r"
    "heard_as addr (airplay_service r) e \<Longrightarrow> announced_mac service_airplay e = mr_mac r"
    using observe_mac(1) [OF raop_heard [OF assms(1) _ assms(2)]] observe_mac(1) [OF airplay_heard [OF assms(1) _ assms(2)]]
    by metis+
qed

definition usable_by :: "receiver \<Rightarrow> string \<Rightarrow> target \<Rightarrow> bool" where
  "usable_by r addr t \<longleftrightarrow>
     tg_id t = mr_mac r @ ''@'' @ mr_name r \<and> tg_name t = mr_name r \<and> tg_address t = addr \<and> tg_port t = mr_port r
     \<and> tg_protocol t = ''airplay2'' \<and> \<not> tg_requires_password t \<and> accepts_pcm t"

lemma observation_fields:
  "dev_id (raop_observation r addr t) = mr_mac r @ ''@'' @ mr_name r" "dev_name (raop_observation r addr t) = mr_name r"
  "dev_address (raop_observation r addr t) = addr" "dev_port (raop_observation r addr t) = mr_port r"
  "dev_protocol (raop_observation r addr t) = ''raop''" "\<not> requires_password (raop_observation r addr t)"
  "raop_port (raop_observation r addr t) = mr_port r" "airplay_port (raop_observation r addr t) = 0"
  "dev_mac (raop_observation r addr t) = mr_mac r" "dev_txt (raop_observation r addr t) = parse_txt (raop_records r)"
  "dev_id (airplay_observation r addr t) = mr_mac r @ ''@'' @ mr_name r" "dev_name (airplay_observation r addr t) = mr_name r"
  "dev_address (airplay_observation r addr t) = addr" "dev_port (airplay_observation r addr t) = mr_port r"
  "dev_protocol (airplay_observation r addr t) = ''airplay2''" "\<not> requires_password (airplay_observation r addr t)"
  "raop_port (airplay_observation r addr t) = 0" "airplay_port (airplay_observation r addr t) = mr_port r"
  "dev_mac (airplay_observation r addr t) = mr_mac r" "dev_txt (airplay_observation r addr t) = parse_txt (airplay_records r)"
  by (simp_all add: raop_observation_def airplay_observation_def empty_device_def)

text \<open>The entry that two observations of one named speaker make together.\<close>

lemma both_stored_target:
  assumes "devices reg (registry_key a) = None"
    and "dev_id a \<noteq> []" "dev_name b \<noteq> []" "dev_address b \<noteq> []"
    and "airplay_port a = p \<and> airplay_port b = 0 \<and> dev_protocol a = ''airplay2'' \<or> airplay_port b = p \<and> dev_protocol b = ''airplay2''"
    and "p \<noteq> 0" "\<not> requires_password a" "\<not> requires_password b"
  shows "target_from_device (both_stored t1 t2 reg a b) =
     \<lparr>tg_id = dev_id a, tg_name = dev_name b, tg_address = dev_address b, tg_port = p, tg_protocol = ''airplay2'',
      tg_requires_password = False, tg_txt = merge_txt (dev_txt a) (dev_txt b)\<rparr>"
proof -
  have "dev_id (upserted t1 reg a) = dev_id a"
    using assms(1,2) by (simp add: upserted_def)
  moreover have "requires_password (stamp t1 a) = requires_password a" "requires_password (stamp t2 b) = requires_password b"
    by (simp_all add: stamp_def Let_def)
  ultimately show ?thesis
    using assms(2-8) by (auto simp: both_stored_def target_from_device_def merge_device_def Let_def)
qed

lemma usable_codecs:
  assumes "tg_txt t ''cn'' = Some ''0,1''"
  shows "accepts_pcm t"
proof -
  have "trim_space ''0,1'' = ''0,1''" "trim_space ''0'' = ''0''" "trim_space ''1'' = ''1''"
    by (rule trim_space_id; simp add: plain_not_edge)+
  then have "target_codecs t = [0, 1]"
    using assms by (simp add: target_codecs_def txt_get_def codec_part_def Let_def is_digit_def digit_val_def int64_def
      less_eq_char_simp List.map_filter_simps)
  then show ?thesis
    by (simp add: accepts_pcm_def)
qed

lemma both_observed_usable:
  assumes "well_named r" "addr \<noteq> []"
    and "a = raop_observation r addr t1 \<and> b = airplay_observation r addr t2
       \<or> a = airplay_observation r addr t1 \<and> b = raop_observation r addr t2"
    and "devices reg (mr_mac r) = None"
  shows "usable_by r addr (target_from_device (both_stored t1 t2 reg a b))"
proof -
  have c: "canonical_mac (mr_mac r)" "mr_name r \<noteq> []" "mr_port r \<noteq> 0"
    using assms(1) by (simp_all add: well_named_def)
  note mac = mac_of_instance [OF c(1)]
  have z: "trim_space ''0,1'' = ''0,1''"
    by (rule trim_space_id) (simp_all add: plain_not_edge)
  have k: "devices reg (registry_key a) = None"
    using assms(3,4) mac by (auto simp: registry_key_def observation_fields)
  have "merge_txt (dev_txt a) (dev_txt b) ''cn'' = Some ''0,1''"
    using assms(3) raop_txt(1) [of r] airplay_txt(1) [OF c(1)] z by (auto simp: merge_txt_def observation_fields)
  moreover have "target_from_device (both_stored t1 t2 reg a b) =
     \<lparr>tg_id = dev_id a, tg_name = dev_name b, tg_address = dev_address b, tg_port = mr_port r, tg_protocol = ''airplay2'',
      tg_requires_password = False, tg_txt = merge_txt (dev_txt a) (dev_txt b)\<rparr>"
    using assms(2,3) c by (intro both_stored_target [OF k]) (auto simp: observation_fields)
  ultimately show ?thesis
    using assms(3) by (auto simp: usable_by_def observation_fields intro: usable_codecs)
qed

lemma heard_both:
  assumes "well_named r" "addr \<noteq> []" "heard_as addr (raop_service r) er" "heard_as addr (airplay_service r) ea"
    and "devices reg (mr_mac r) = None"
    and "reg' = ingest t2 (ingest t1 reg service_raop (Some er)) service_airplay (Some ea)
       \<or> reg' = ingest t2 (ingest t1 reg service_airplay (Some ea)) service_raop (Some er)"
  obtains d where "devices reg' = (devices reg)(mr_mac r \<mapsto> d)" "usable_by r addr (target_from_device d)"
proof -
  have mac: "mr_mac r \<noteq> []"
    using assms(1) mac_of_instance(4) by (simp add: well_named_def)
  note m = announced_macs [OF assms(1,2)]
  note usable = both_observed_usable [OF assms(1,2) _ assms(5)]
  from assms(6) show ?thesis
  proof
    assume r': "reg' = ingest t2 (ingest t1 reg service_raop (Some er)) service_airplay (Some ea)"
    have "devices reg' = (devices reg)(mr_mac r \<mapsto> both_stored t1 t2 reg (raop_observation r addr t1) (airplay_observation r addr t2))"
      unfolding r' by (rule ingest_both [OF raop_heard [OF assms(1,3,2)] m(1) [OF assms(3)] mac
            airplay_heard [OF assms(1,4,2)] m(2) [OF assms(4)] assms(5)])
    then show ?thesis
      by (rule that) (rule usable, simp)
  next
    assume r': "reg' = ingest t2 (ingest t1 reg service_airplay (Some ea)) service_raop (Some er)"
    have "devices reg' = (devices reg)(mr_mac r \<mapsto> both_stored t1 t2 reg (airplay_observation r addr t1) (raop_observation r addr t2))"
      unfolding r' by (rule ingest_both [OF airplay_heard [OF assms(1,4,2)] m(2) [OF assms(4)] mac
            raop_heard [OF assms(1,3,2)] m(1) [OF assms(3)] assms(5)])
    then show ?thesis
      by (rule that) (rule usable, simp)
  qed
qed

lemma registry_get_exact: "devices reg k = Some d \<Longrightarrow> k \<noteq> [] \<Longrightarrow> registry_get ord reg k = Some d"
  by (simp add: registry_get_def)


definition mock_homepod :: receiver where
  "mock_homepod = new_receiver ''Mock-HomePod'' ''aa-bb-cc-dd-ee-ff'' 7000 44100 False 0"

lemma mock_homepod_fields: "mr_mac mock_homepod = ''AA:BB:CC:DD:EE:FF''" "mr_name mock_homepod = ''Mock-HomePod''"
    "mr_port mock_homepod = 7000"
  by (simp_all add: mock_homepod_def new_receiver_def to_upper_def upper_char_def is_lower_def)

lemma mock_homepod_named: "well_named mock_homepod"
proof -
  have "trim_space ''Mock-HomePod'' = ''Mock-HomePod''"
    by (rule trim_space_id) (simp_all add: plain_not_edge)
  moreover have "canonical_mac ''AA:BB:CC:DD:EE:FF''"
    unfolding canonical_mac_def
    by (rule exI [of _ "''AABBCCDDEEFF''"]) (simp add: is_hex_digit_def to_upper_def upper_char_def is_lower_def less_eq_char_simp)
  ultimately show ?thesis
    by (simp add: well_named_def mock_homepod_fields)
qed

definition mock_raop_entry :: service_entry where
  "mock_raop_entry =
     \<lparr>se_instance = ''AABBCCDDEEFF'' @ [CHR 0x5C] @ ''@Mock-HomePod'', se_host_name = ''m.local.'', se_port = 7000,
      se_text = raop_records mock_homepod, se_ipv4 = [Some ''10.0.0.9''], se_ipv6 = []\<rparr>"

definition mock_airplay_entry :: service_entry where
  "mock_airplay_entry =
     \<lparr>se_instance = ''Mock-HomePod'', se_host_name = ''m.local.'', se_port = 7000,
      se_text = airplay_records mock_homepod, se_ipv4 = [Some ''10.0.0.9''], se_ipv6 = []\<rparr>"

lemma mock_entries_heard:
  "heard_as ''10.0.0.9'' (raop_service mock_homepod) mock_raop_entry"
  "heard_as ''10.0.0.9'' (airplay_service mock_homepod) mock_airplay_entry"
  by (simp_all add: heard_as_def raop_service_def airplay_service_def raop_instance_def mock_homepod_fields first_ipv4_def
      unescape_dns_label_def trim_suffix_def suffix_def is_digit_def mock_raop_entry_def mock_airplay_entry_def)


end
