(* ===== verification/Play.thy ===== *)
theory Play
  imports Calls Announce Manager
begin

text \<open>
  A play request from end to end: discovery, the session manager, the native kernel, the RTSP exchange
  with the mock receiver, the stream and the capture.  What one side sends is what the other side reads;
  the replies that Start meets are those the receiver serves.
\<close>

subsection \<open>The connection of a fresh sender\<close>

definition plain_host :: "string \<Rightarrow> bool" where
  "plain_host a \<longleftrightarrow> a \<noteq> [] \<and> length a \<le> 255 \<and> list_all (\<lambda>c. 33 \<le> (of_char c :: nat) \<and> (of_char c :: nat) < 127) a"

lemma plain_host_text:
  assumes "plain_host a"
  shows "clean_text a" "CHR 0x0D \<notin> set a" "trim_space a = a" "a \<noteq> []"
proof -
  have c: "33 \<le> (of_char c :: nat) \<and> (of_char c :: nat) < 127" if "c \<in> set a" for c
    using assms that by (auto simp: plain_host_def list_all_iff)
  show ne: "a \<noteq> []"
    using assms by (simp add: plain_host_def)
  show "clean_text a" "CHR 0x0D \<notin> set a"
    using c [of "CHR '' ''"] c [of "CHR 0x0D"] c [of lf] by (auto simp: clean_text_def lf_def)
  show "trim_space a = a"
    using c [OF hd_in_set [OF ne]] c [OF last_in_set [OF ne]] by (intro trim_space_id ne plain_not_edge) auto
qed

lemma nat_str_bound: "n < 10 ^ k \<Longrightarrow> 0 < k \<Longrightarrow> length (nat_str n) \<le> k"
proof (induction k arbitrary: n)
  case (Suc k)
  show ?case
  proof (cases "n < 10")
    case True
    then show ?thesis
      by (subst nat_str.simps) simp
  next
    case False
    then have "0 < k"
      using Suc.prems by (cases k) auto
    moreover have "n div 10 < 10 ^ k"
      using Suc.prems(1) by (simp add: less_mult_imp_div_less mult.commute)
    ultimately have "length (nat_str (n div 10)) \<le> k"
      using Suc.IH by blast
    with False show ?thesis
      by (subst nat_str.simps) simp
  qed
qed simp

lemma itoa_bound: "- (2 ^ 63) \<le> i \<Longrightarrow> i < 2 ^ 63 \<Longrightarrow> length (itoa i) \<le> 21"
proof -
  assume i: "- (2 ^ 63) \<le> i" "i < 2 ^ 63"
  have "length (nat_str (nat j)) \<le> 20" if "j \<le> 2 ^ 63" for j :: int
    using that by (intro nat_str_bound) (simp_all add: nat_less_iff)
  from this [of i] this [of "- i"] i show ?thesis
    by (simp add: itoa_def)
qed

lemma hex_digit_hex: "b < 16 \<Longrightarrow> is_hex_digit (hex_digit b)"
proof -
  assume "b < 16"
  then have "unat b < 16"
    by (simp add: word_less_nat_alt)
  then have "hex_digit b \<in> set ''0123456789abcdef''"
    unfolding hex_digit_def by (intro nth_mem) simp
  moreover have "list_all is_hex_digit ''0123456789abcdef''"
    by (simp add: is_hex_digit_def less_eq_char_simp)
  ultimately show ?thesis
    by (simp only: list_all_iff)
qed

lemma random_hex_digits: "random_hex rnd = Inr s \<Longrightarrow> list_all is_hex_digit s"
proof (cases rnd)
  case (Some buf)
  assume "random_hex rnd = Inr s"
  then have s: "s = concat (map (\<lambda>b. [hex_digit (drop_bit 4 b), hex_digit (b AND 0x0F)]) buf)"
    using Some by (simp add: random_hex_def)
  have "drop_bit 4 b < 16" "b AND 0x0F < 16" for b :: byte
  proof -
    have "unat b < 256"
      using unsigned_less [of b, where 'a = nat] by simp
    then show "drop_bit 4 b < 16"
      by (simp only: word_less_nat_alt unsigned_drop_bit_eq) (simp add: drop_bit_eq_div take_bit_eq_mod less_mult_imp_div_less)
    have "b AND 0x0F \<le> 0x0F"
      by (rule word_and_le1)
    then show "b AND 0x0F < 16"
      by (rule order.strict_trans1) simp
  qed
  then have "is_hex_digit (hex_digit (drop_bit 4 b))" "is_hex_digit (hex_digit (b AND 0x0F))" for b :: byte
    by (simp_all add: hex_digit_hex)
  then show ?thesis
    by (simp add: s list_all_iff)
qed (simp add: random_hex_def)

lemma dialled_conn:
  assumes "new_rtsp_conn r1 r2 r3 loc addr = Inr c" "plain_host loc" "plain_host addr" "validate f = None" "in_int64 (sample_rate f)"
  shows "speakable c f" "remote_ip c = addr" "local_ip c = loc" "cseq c = 0" "unread c = []"
proof -
  from assms(1) obtain s where s: "random_hex r3 = Inr s" and c: "dacp_id c = to_upper s" "cseq c = 0" "local_ip c = loc"
      "remote_ip c = addr" "unread c = []"
    by (auto simp: new_rtsp_conn_def split: sum.splits)
  show "remote_ip c = addr" "local_ip c = loc" "cseq c = 0" "unread c = []"
    using c by simp_all
  have hex: "is_hex_digit x" if "x \<in> set (to_upper s)" for x
    using random_hex_digits [OF s] that by (auto simp: to_upper_def list_all_iff)
  have "\<not> is_hex_digit lf" "\<not> is_hex_digit (CHR 0x0D)"
    by (simp_all add: is_hex_digit_def lf_def less_eq_char_simp)
  then have "lf \<notin> set (to_upper s)" "CHR 0x0D \<notin> set (to_upper s)"
    using hex by auto
  moreover have "trim_space (to_upper s) = to_upper s"
  proof (cases "to_upper s = []")
    case False
    then show ?thesis
      using hex [OF hd_in_set [OF False]] hex [OF last_in_set [OF False]] by (intro trim_space_id) auto
  qed simp
  moreover have "trim_space ''DACP-ID'' = ''DACP-ID''"
    by (rule trim_space_id) (simp_all add: plain_not_edge)
  ultimately have "header_ok (''DACP-ID'', dacp_id c)"
    by (simp add: header_ok_def c(1)) (simp add: lf_def)
  then have clean: "conn_clean c"
    using plain_host_text(1) [OF assms(2)] by (simp add: conn_clean_def c(3))
  have f: "channels f \<in> {1, 2}" "bit_depth f = 16" "in_int64 (channels f)"
    using assms(4) by (auto simp: validate_None in_int64_def)
  have "length (itoa (uint (session_id c))) \<le> 21" "length (itoa (sample_rate f)) \<le> 21" "length (itoa (channels f)) \<le> 21"
      "length (itoa 16) \<le> 21" "length (itoa 96) \<le> 21" "length (itoa 352) \<le> 21"
    using uint_bounded [of "session_id c"] order.trans [OF _ uint_nonnegative [of "session_id c"], of "- (2 ^ 63)"] assms(5) f(3)
    by (auto intro!: itoa_bound simp: in_int64_def)
  then have "length (announce_body c f) \<le> 2000"
    using assms(2,3) by (simp add: announce_body_def build_sdp_def c plain_host_def rtpmap_def fmtp_def payload_type_def
      frames_per_packet_def crlf_def f(2))
  then show "speakable c f"
    using clean plain_host_text(2-4) [OF assms(3)] assms(5) f(3)
    by (simp add: speakable_def c max_alloc_def) (simp add: in_int64_def)
qed

subsection \<open>What a start says to the receiver\<close>

definition play_text :: "rtsp_conn \<Rightarrow> audio_format \<Rightarrow> int \<Rightarrow> int \<Rightarrow> int \<Rightarrow> string" where
  "play_text c f cp tp v =
     (let c1 = shaken_conn c f cp tp; c2 = next_conn c1 (volume_text c1 v)
      in handshake_text c f cp tp @ (if v > 0 then volume_text c1 v @ record_text c2 else record_text c1))"

text \<open>The receiver's side: its writes succeed, SETUP finds three ports.\<close>

definition play_io :: "(nat \<Rightarrow> conn_io) \<Rightarrow> int \<Rightarrow> int \<Rightarrow> int \<Rightarrow> int \<Rightarrow> bool" where
  "play_io io a c t v \<longleftrightarrow>
     handshake_io io a c t \<and> io_write_ok (io 3)
     \<and> (if v > 0 then set (io_order (io 3)) = {''CSeq'', ''Server''} \<and> io_write_ok (io 4)
                      \<and> set (io_order (io 4)) = {''CSeq'', ''Server'', ''Audio-Latency''}
        else set (io_order (io 3)) = {''CSeq'', ''Server'', ''Audio-Latency''})"

text \<open>
  The sender's side: it connects, draws its identifiers, opens its sockets (\<open>dials\<close>) and hears the
  replies (\<open>hears\<close>).
\<close>

definition dials :: "native_env \<Rightarrow> config \<Rightarrow> string \<Rightarrow> time \<times> time \<Rightarrow> rtsp_conn \<Rightarrow> int \<Rightarrow> int \<Rightarrow> bool" where
  "dials env cfg loc clock c cp tp \<longleftrightarrow>
     (let d = nv_dial env
      in \<not> de_cancelled d \<and> de_clock d = clock
         \<and> (case (de_tcp_local d, de_random d) of
               (Some l, (r1, r2, r3)) \<Rightarrow>
                 loc = (if cf_local_ip cfg = [] then (case l of None \<Rightarrow> [] | Some a \<Rightarrow> a) else cf_local_ip cfg)
                 \<and> new_rtsp_conn r1 r2 r3 loc (cf_address cfg) = Inr c
             | (None, _) \<Rightarrow> False)
         \<and> de_control d = Some cp \<and> de_timing d = Some tp \<and> de_audio d)"

fun hears :: "native_env \<Rightarrow> int \<Rightarrow> string list \<Rightarrow> bool" where
  "hears env v (r0 # r1 # r2 # rs) \<longleftrightarrow>
     snd (de_options (nv_dial env)) = (True, r0) \<and> snd (de_announce (nv_dial env)) = (True, r1)
     \<and> snd (de_setup (nv_dial env)) = (True, r2)
     \<and> (if v > 0 then (\<exists>a b. rs = [a, b] \<and> snd (nv_volume_io env) = (True, a) \<and> snd (nv_record_io env) = (True, b))
        else (\<exists>b. rs = [b] \<and> snd (nv_record_io env) = (True, b)))"
| "hears env v _ \<longleftrightarrow> False"

text \<open>The sender that such a start leaves.\<close>

definition played :: "int \<Rightarrow> int \<Rightarrow> int \<Rightarrow> int \<Rightarrow> int \<Rightarrow> int \<Rightarrow> sender \<Rightarrow> sender" where
  "played a c t cp tp v s0 =
     (let s1 = shaken a c t cp tp s0;
          s2 = (if v > 0 then s1\<lparr>sd_conn := next_conn (sd_conn s1) (volume_text (sd_conn s1) v), sd_volume := clamp_percent v\<rparr> else s1)
      in s2\<lparr>sd_conn := next_conn (sd_conn s2) (record_text (sd_conn s2))\<rparr>)"

definition heard_play :: "rtsp_conn \<Rightarrow> audio_format \<Rightarrow> int \<Rightarrow> int \<Rightarrow> int \<Rightarrow> int \<Rightarrow> int \<Rightarrow> int \<Rightarrow> receiver_session \<Rightarrow> receiver_session" where
  "heard_play conn f a c t cp tp v x =
     (let y = shaken_session conn f a c t cp tp x
      in (if v > 0 then y\<lparr>cs_volume := format_float6 (percent_to_dbfs (clamp_percent v))\<rparr> else y)\<lparr>cs_recording := True\<rparr>)"

lemma shaken_conn_speakable: "speakable c f \<Longrightarrow> speakable (shaken_conn c f cp tp) f"
  by (simp add: shaken_conn_def Let_def next_conn_speakable(1))

lemma speakable_conn: "speakable c f \<Longrightarrow> conn_clean c \<and> unread c = [] \<and> in_int64 (cseq c)"
  by (simp add: speakable_def)

lemma serve_end: "serve_conn io n [] w = ([], w)"
  by (subst serve_conn.simps) (simp add: read_request_def request_line.simps read_line_def)

lemma play_served:
  assumes "speakable (sd_conn s) (sd_format s)" "play_io io a c t v"
    and "0 < a" "in_int64 a" "in_int64 c" "in_int64 t" "in_int64 cp" "in_int64 tp"
  obtains rs w' where
    "serve_conn io 0 (play_text (sd_conn s) (sd_format s) cp tp v) w = (rs, w')"
    "\<forall>env. hears env v rs \<longrightarrow>
       handshake False (de_options (nv_dial env)) (de_announce (nv_dial env)) (Some cp) (Some tp) True (de_setup (nv_dial env)) s
         = (None, shaken a c t cp tp s)
       \<and> record_request (nv_record_io env)
           (if v > 0 then snd (set_volume (nv_volume_io env) v (shaken a c t cp tp s)) else shaken a c t cp tp s)
         = (None, played a c t cp tp v s)"
    "rx_session w' = heard_play (sd_conn s) (sd_format s) a c t cp tp v (rx_session w)"
    "mr_pcm (rx_receiver w') = mr_pcm (rx_receiver w)" "length rs = (if v > 0 then 5 else 4)"
proof -
  let ?s1 = "shaken a c t cp tp s"
  have hio: "handshake_io io a c t" and ok3: "io_write_ok (io 3)"
    using assms(2) by (simp_all add: play_io_def)
  obtain r0 r1 r2 w1 where h: "\<forall>rest. serve_conn io 0 (handshake_text (sd_conn s) (sd_format s) cp tp @ rest) w
       = (case serve_conn io 3 rest w1 of (as, w'') \<Rightarrow> (r0 # r1 # r2 # as, w''))"
    "\<forall>rev0 rev1 rev2. handshake False (rev0, True, r0) (rev1, True, r1) (Some cp) (Some tp) True (rev2, True, r2) s = (None, ?s1)"
    "rx_session w1 = shaken_session (sd_conn s) (sd_format s) a c t cp tp (rx_session w)"
    "rx_open w1 = t # c # a # rx_open w" "rx_out w1 = rx_out w" "mr_pcm (rx_receiver w1) = mr_pcm (rx_receiver w)"
    by (rule handshake_served [OF assms(1) hio assms(3-8)])
  have c1: "sd_conn ?s1 = shaken_conn (sd_conn s) (sd_format s) cp tp"
    by (simp add: shaken_def)
  have clean1: "conn_clean (sd_conn ?s1)" "unread (sd_conn ?s1) = []" "in_int64 (cseq (sd_conn ?s1))"
    using speakable_conn [OF shaken_conn_speakable [OF assms(1)]] unfolding c1 by simp_all
  have hs: "handshake False (de_options d) (de_announce d) (Some cp) (Some tp) True (de_setup d) s = (None, ?s1)"
    if "snd (de_options d) = (True, r0)" "snd (de_announce d) = (True, r1)" "snd (de_setup d) = (True, r2)" for d
    using h(2) that by (metis prod.collapse)
  show ?thesis
  proof (cases "v > 0")
    case False
    then have io3: "set (io_order (io 3)) = {''CSeq'', ''Server'', ''Audio-Latency''}"
      using assms(2) by (simp add: play_io_def)
    obtain b where b: "\<forall>rest. serve_conn io 3 (record_text (sd_conn ?s1) @ rest) w1
       = (case serve_conn io (Suc 3) rest (recording w1) of (as, w'') \<Rightarrow> (b # as, w''))"
      "\<forall>rv. record_request (rv, True, b) ?s1 = (None, ?s1\<lparr>sd_conn := next_conn (sd_conn ?s1) (record_text (sd_conn ?s1))\<rparr>)"
      by (rule record_exchange [where io = io and n = 3, OF clean1 ok3 io3])
    have served: "serve_conn io 0 (play_text (sd_conn s) (sd_format s) cp tp v) w = ([r0, r1, r2, b], recording w1)"
      using h(1) b(1) [rule_format, of "[]"] False by (simp add: play_text_def Let_def c1 serve_end)
    have rec: "record_request io' ?s1 = (None, played a c t cp tp v s)" if "snd io' = (True, b)" for io'
      using b(2) that False by (cases io') (simp add: played_def Let_def)
    show ?thesis
      by (rule that [OF served]) (use hs rec h(3,5,6) False in \<open>auto simp: recording_def count_request_def heard_play_def\<close>)
  next
    case True
    then have io3: "set (io_order (io 3)) = {''CSeq'', ''Server''}" and ok4: "io_write_ok (io 4)"
      and io4: "set (io_order (io 4)) = {''CSeq'', ''Server'', ''Audio-Latency''}"
      using assms(2) by (simp_all add: play_io_def)
    let ?w2 = "on_session (parse_parameters (volume_body (clamp_percent v))) (count_request w1)"
      and ?s2 = "?s1\<lparr>sd_conn := next_conn (sd_conn ?s1) (volume_text (sd_conn ?s1) v), sd_volume := clamp_percent v\<rparr>"
    obtain d where d: "\<forall>rest. serve_conn io 3 (volume_text (sd_conn ?s1) v @ rest) w1
       = (case serve_conn io (Suc 3) rest ?w2 of (as, w'') \<Rightarrow> (d # as, w''))"
      "\<forall>rv. set_volume (rv, True, d) v ?s1 = (None, ?s2)"
      by (rule volume_exchange [where io = io and n = 3, OF clean1 ok3 io3])
    have "speakable (sd_conn ?s2) (sd_format s)"
      using next_conn_speakable(1) [OF shaken_conn_speakable [OF assms(1)]] by (simp add: shaken_def)
    then have clean2: "conn_clean (sd_conn ?s2)" "unread (sd_conn ?s2) = []" "in_int64 (cseq (sd_conn ?s2))"
      using speakable_conn by blast+
    obtain b where b: "\<forall>rest. serve_conn io 4 (record_text (sd_conn ?s2) @ rest) ?w2
       = (case serve_conn io (Suc 4) rest (recording ?w2) of (as, w'') \<Rightarrow> (b # as, w''))"
      "\<forall>rv. record_request (rv, True, b) ?s2 = (None, ?s2\<lparr>sd_conn := next_conn (sd_conn ?s2) (record_text (sd_conn ?s2))\<rparr>)"
      by (rule record_exchange [where io = io and n = 4, OF clean2 ok4 io4])
    have served: "serve_conn io 0 (play_text (sd_conn s) (sd_format s) cp tp v) w = ([r0, r1, r2, d, b], recording ?w2)"
      using h(1) d(1) b(1) [rule_format, of "[]"] True by (simp add: play_text_def Let_def c1 serve_end)
    have vol: "snd (set_volume io' v ?s1) = ?s2" if "snd io' = (True, d)" for io'
      using d(2) that by (cases io') simp
    have rec: "record_request io' ?s2 = (None, played a c t cp tp v s)" if "snd io' = (True, b)" for io'
      using b(2) that True by (cases io') (simp add: played_def Let_def)
    show ?thesis
      by (rule that [OF served])
        (use hs vol rec h(3,5,6) True in \<open>auto simp: recording_def count_request_def heard_play_def volume_body_parsed Let_def\<close>)
  qed
qed

subsection \<open>The start on the bridge\<close>

lemma played_fields:
  "fresh_sender (played a c t cp tp v s) = fresh_sender s" "rate_ok (played a c t cp tp v s) = rate_ok s"
  "server_port (played a c t cp tp v s) = a" "sd_state (played a c t cp tp v s) = sd_state s"
  "sd_format (played a c t cp tp v s) = sd_format s"
  by (simp_all add: played_def shaken_def Let_def fresh_sender_def rate_ok_def channel_inv_def backlog_holds_def)

definition play_format :: "native \<Rightarrow> audio_format" where
  "play_format n = \<lparr>sample_rate = nv_rate (nt_opts n), channels = nv_channels (nt_opts n), bit_depth = 16\<rparr>"

definition play_config :: "native \<Rightarrow> play_request \<Rightarrow> config" where
  "play_config n req = native_config n (req_volume (kept_request req))"

lemma native_play:
  assumes "nt_target n = tg" "accepts_pcm tg" "nt_sender n = None" "validate (play_format n) = None"
    and "start_decoder (nv_spawn env) (native_decoder_options n (start_ms req)) (stream_url req) = Some src"
    and "dials env (play_config n req) loc clock c cp tp"
    and "s0 = initial_sender (play_config n req) (play_format n) c (fst clock) (snd clock)" "v = req_volume (kept_request req)"
    and "handshake False (de_options (nv_dial env)) (de_announce (nv_dial env)) (Some cp) (Some tp) True (de_setup (nv_dial env)) s0
         = (None, s1)"
    and "record_request (nv_record_io env) (if v > 0 then snd (set_volume (nv_volume_io env) v s1) else s1) = (None, s2)"
  obtains k where "native_start env req n = (k, None)" "nt_sender k = Some s2" "sb_state (nt_base k) = Buffering"
    "nt_source k = Some (new_switchable src)"
proof -
  let ?p = "(native_prepared (kept_request req) n)\<lparr>nt_source := Some (new_switchable src)\<rparr>"
  have p: "native_config ?p v = play_config n req" "nt_target ?p = tg"
    using assms(1,8) by (simp_all add: native_config_def play_config_def native_prepared_def)
  have f: "cf_format (play_config n req) = play_format n" "dial_format (play_format n) = play_format n"
    using assms(4) by (auto simp: play_config_def native_config_def play_format_def dial_format_def validate_None)
  obtain l where l: "de_tcp_local (nv_dial env) = Some l"
    using assms(6) by (cases "de_tcp_local (nv_dial env)") (simp_all add: dials_def Let_def)
  obtain r1 r2 r3 where r: "de_random (nv_dial env) = (r1, r2, r3)"
    by (cases "de_random (nv_dial env)")
  have "loc = (if cf_local_ip (play_config n req) = [] then (case l of None \<Rightarrow> [] | Some a \<Rightarrow> a)
       else cf_local_ip (play_config n req))" "new_rtsp_conn r1 r2 r3 loc (cf_address (play_config n req)) = Inr c"
    using assms(6) unfolding dials_def Let_def l r option.case prod.case by blast+
  then have "dial (play_config n req) (nv_dial env) = Inr s1"
    using assms(4,6,7,9) f by (simp add: dial_def dials_def Let_def l r)
  then have "native_connect env (kept_request req) ?p
      = (on_base (\<lambda>b. begin_playback_clock (nv_now env) (set_state (nv_now env) Buffering b))
           (?p\<lparr>nt_sender := Some s2, nt_done := Some False\<rparr>), None)"
    using p(1) assms(8,10) by (cases "v > 0") (simp_all add: native_connect_def initial_volume_def)
  moreover have "native_decoder_options (native_prepared (kept_request req) n) (start_ms (kept_request req))
      = native_decoder_options n (start_ms req)" "stream_url (kept_request req) = stream_url req"
    by (simp_all add: native_decoder_options_def native_prepared_def kept_request_def)
  ultimately have "native_start env req n
      = (on_base (\<lambda>b. begin_playback_clock (nv_now env) (set_state (nv_now env) Buffering b))
           (?p\<lparr>nt_sender := Some s2, nt_done := Some False\<rparr>), None)"
    using assms(1,2,5) by (simp add: native_start_def Let_def)
  then show ?thesis
    by (rule that) (simp_all add: begin_playback_clock_def)
qed

lemma native_play_status:
  assumes "nt_sender k = Some s" "sd_state s = S_Idle" "sb_state (nt_base k) = Buffering"
  shows "st_state (native_status t k) = Buffering" "st_active (native_status t k)"
  using assms by (simp_all add: native_status_def Let_def)

lemma initial_idle: "sd_state (initial_sender cfg f c n n') = S_Idle" "sd_format (initial_sender cfg f c n n') = f"
    "sd_conn (initial_sender cfg f c n n') = c"
  by (simp_all add: initial_sender_def Let_def)

definition bridge_native :: "time \<Rightarrow> manager_config \<Rightarrow> target \<Rightarrow> play_request \<Rightarrow> native" where
  "bridge_native now cfg tg req =
     new_native now tg (req_volume (resolve_volume cfg req))
       \<lparr>nv_ffmpeg = mc_ffmpeg cfg, nv_rate = mc_rate cfg, nv_channels = mc_channels cfg, nv_iface = mc_iface cfg,
        nv_headers = mc_headers cfg\<rparr>"

lemma bridge_native_fields [simp]:
  "nt_target (bridge_native now cfg tg req) = tg" "nt_sender (bridge_native now cfg tg req) = None"
  by (simp_all add: bridge_native_def new_native_def Let_def)

lemma manager_play:
  assumes "resolve_target rord i m = Inr tg" "mg_sessions m (tg_id tg) = None" "fst (resolve_kind probe m) = ''native''"
    and "native_start (ke_native env) (resolve_volume (mg_config m) req) (bridge_native (ki_now kio) (mg_config m) tg req) = (k, None)"
  obtains m' where
    "manager_start kio env probe rord i req m = (Inr (kernel_status (ki_now kio) (Native_Kernel k)), m')"
    "mg_sessions m' = (mg_sessions m)(tg_id tg \<mapsto> \<lparr>ms_engine = Native_Kernel k, ms_target = tg, ms_started = ki_now kio\<rparr>)"
proof -
  obtain m1 where r: "resolve_kind probe m = (''native'', m1)"
    using assms(3) by (cases "resolve_kind probe m") simp
  note same = resolve_kind_other [OF r]
  have "start_kernel kio env (mg_config m) ''native'' tg req = Inr (Native_Kernel k)"
    using assms(4) by (simp add: start_kernel_def new_kernel_def bridge_native_def Let_def)
  then have "manager_start kio env probe rord i req m
      = (Inr (kernel_status (ki_now kio) (Native_Kernel k)), start_commit rord (ki_now kio) tg (Native_Kernel k) m1)"
    using assms(1,2) r same by (simp add: manager_start_def start_check_def Let_def)
  then show ?thesis
    by (rule that) (simp add: start_commit_def same)
qed

text \<open>What the receiver has captured is the source, as far as the stream has come.\<close>

definition captures :: "sender \<Rightarrow> event list \<Rightarrow> byte list \<Rightarrow> reception \<Rightarrow> bool" where
  "captures s es pcm v \<longleftrightarrow>
     (let w = fold world_step es (new_world s pcm); u = fold read_audio (audio_packets (w_out w)) v
      in \<exists>n. prefix (mr_pcm (rx_receiver u)) (mr_pcm (rx_receiver v) @ decode_l16_to_le (pcm @ replicate n 0))
           \<and> (loop_pc (w_loop w) = Returned None \<longrightarrow>
                mr_pcm (rx_receiver u) = mr_pcm (rx_receiver v) @ decode_l16_to_le (pcm @ replicate n 0)))"

lemma startable_captures:
  assumes "startable s" "\<forall>e \<in> set es. \<not> swaps e" "\<not> cs_have_seq (rx_session v)"
  shows "captures s es pcm v"
  unfolding captures_def Let_def
  using capture_of_run [OF assms(1) refl assms(3) refl, of es pcm] audio_pcm_run [OF assms(1,2) refl, of pcm]
    decode_prefix [OF capture_of_run(2) [OF assms(1) refl assms(3) refl, of es pcm]]
  by auto

lemma play_session:
  assumes "accepts_pcm tg" "n = bridge_native (ki_now kio) (mg_config m) tg req" "req1 = resolve_volume (mg_config m) req"
    and "resolve_target rord i m = Inr tg" "mg_sessions m (tg_id tg) = None" "fst (resolve_kind probe m) = ''native''"
    and "validate (play_format n) = None" "speakable c (play_format n)" "v = req_volume (kept_request req1)"
    and "play_io io a ct tt v" "0 < a" "in_int64 a" "in_int64 ct" "in_int64 tt" "in_int64 cp" "in_int64 tp"
    and "\<not> cs_have_seq (rx_session w)"
  shows "\<exists>rs w'. serve_conn io 0 (play_text c (play_format n) cp tp v) w = (rs, w')
      \<and> length rs = (if v > 0 then 5 else 4)
      \<and> rx_session w' = heard_play c (play_format n) a ct tt cp tp v (rx_session w)
      \<and> mr_pcm (rx_receiver w') = mr_pcm (rx_receiver w)
      \<and> (\<forall>env src. dials (ke_native env) (play_config n req1) loc clock c cp tp \<and> hears (ke_native env) v rs
            \<and> start_decoder (nv_spawn (ke_native env)) (native_decoder_options n (start_ms req1)) (stream_url req1) = Some src \<longrightarrow>
          (\<exists>k s m'. manager_start kio env probe rord i req m = (Inr (kernel_status (ki_now kio) (Native_Kernel k)), m')
             \<and> mg_sessions m' = (mg_sessions m)(tg_id tg \<mapsto> \<lparr>ms_engine = Native_Kernel k, ms_target = tg, ms_started = ki_now kio\<rparr>)
             \<and> st_state (native_status (ki_now kio) k) = Buffering \<and> nt_sender k = Some s \<and> server_port s = a
             \<and> (\<forall>es pcm. (\<forall>e \<in> set es. \<not> swaps e) \<longrightarrow> captures s es pcm w')))"
proof -
  define s0 where "s0 = initial_sender (play_config n req1) (play_format n) c (fst clock) (snd clock)"
  have s0: "sd_conn s0 = c" "sd_format s0 = play_format n" "sd_state s0 = S_Idle" "fresh_sender s0"
    by (simp_all add: s0_def initial_idle initial_fresh)
  have sp: "speakable (sd_conn s0) (sd_format s0)"
    using assms(8) by (simp add: s0)
  obtain rs w' where served: "serve_conn io 0 (play_text (sd_conn s0) (sd_format s0) cp tp v) w = (rs, w')"
    and heard: "\<forall>env. hears env v rs \<longrightarrow>
       handshake False (de_options (nv_dial env)) (de_announce (nv_dial env)) (Some cp) (Some tp) True (de_setup (nv_dial env)) s0
         = (None, shaken a ct tt cp tp s0)
       \<and> record_request (nv_record_io env)
           (if v > 0 then snd (set_volume (nv_volume_io env) v (shaken a ct tt cp tp s0)) else shaken a ct tt cp tp s0)
         = (None, played a ct tt cp tp v s0)"
    and w': "rx_session w' = heard_play (sd_conn s0) (sd_format s0) a ct tt cp tp v (rx_session w)"
      "mr_pcm (rx_receiver w') = mr_pcm (rx_receiver w)" "length rs = (if v > 0 then 5 else 4)"
    by (rule play_served [OF sp assms(10-16)])
  let ?s = "played a ct tt cp tp v s0"
  have "startable ?s"
    using s0(2,4) assms(7,8) by (simp add: startable_def played_fields) (simp add: rate_ok_def s0(2) speakable_def in_int64_def)
  moreover have "\<not> cs_have_seq (rx_session w')"
    using assms(17) by (simp add: w'(1) heard_play_def shaken_session_def Let_def)
  ultimately have cap: "\<forall>es pcm. (\<forall>e \<in> set es. \<not> swaps e) \<longrightarrow> captures ?s es pcm w'"
    using startable_captures by blast
  have started: "\<exists>k s m'. manager_start kio env probe rord i req m = (Inr (kernel_status (ki_now kio) (Native_Kernel k)), m')
      \<and> mg_sessions m' = (mg_sessions m)(tg_id tg \<mapsto> \<lparr>ms_engine = Native_Kernel k, ms_target = tg, ms_started = ki_now kio\<rparr>)
      \<and> st_state (native_status (ki_now kio) k) = Buffering \<and> nt_sender k = Some s \<and> server_port s = a
      \<and> (\<forall>es pcm. (\<forall>e \<in> set es. \<not> swaps e) \<longrightarrow> captures s es pcm w')"
    if env: "dials (ke_native env) (play_config n req1) loc clock c cp tp" "hears (ke_native env) v rs"
      "start_decoder (nv_spawn (ke_native env)) (native_decoder_options n (start_ms req1)) (stream_url req1) = Some src" for env src
  proof -
    note h = heard [rule_format, OF env(2)]
    have n: "nt_target n = tg" "nt_sender n = None"
      using assms(2) by simp_all
    obtain k where k: "native_start (ke_native env) req1 n = (k, None)" "nt_sender k = Some ?s" "sb_state (nt_base k) = Buffering"
      by (rule native_play [OF n(1) assms(1) n(2) assms(7) env(3,1) s0_def assms(9) conjunct1 [OF h] conjunct2 [OF h]])
    obtain m' where "manager_start kio env probe rord i req m = (Inr (kernel_status (ki_now kio) (Native_Kernel k)), m')"
      "mg_sessions m' = (mg_sessions m)(tg_id tg \<mapsto> \<lparr>ms_engine = Native_Kernel k, ms_target = tg, ms_started = ki_now kio\<rparr>)"
      by (rule manager_play [OF assms(4-6) k(1) [unfolded assms(2,3)]])
    moreover have "st_state (native_status (ki_now kio) k) = Buffering"
      using native_play_status(1) [OF k(2) _ k(3)] by (simp add: played_fields s0(3))
    ultimately show ?thesis
      using k(2) cap played_fields(3) [of a ct tt cp tp v s0] by blast
  qed
  show ?thesis
  proof (intro exI [of _ rs] exI [of _ w'] conjI allI impI)
    show "serve_conn io 0 (play_text c (play_format n) cp tp v) w = (rs, w')"
      "rx_session w' = heard_play c (play_format n) a ct tt cp tp v (rx_session w)"
      using served w'(1) by (simp_all add: s0(1,2))
  qed (use w'(2,3) started in blast)+
qed

subsection \<open>From the announcement to the capture\<close>

definition stream_format :: "manager_config \<Rightarrow> audio_format" where
  "stream_format cfg =
     \<lparr>sample_rate = (if mc_rate cfg \<le> 0 then 44100 else mc_rate cfg),
      channels = (if mc_channels cfg \<le> 0 then 2 else mc_channels cfg), bit_depth = 16\<rparr>"

definition dial_config :: "manager_config \<Rightarrow> string \<Rightarrow> int \<Rightarrow> int \<Rightarrow> config" where
  "dial_config cfg addr port v =
     \<lparr>cf_address = addr, cf_port = port, cf_format = stream_format cfg, cf_local_ip = mc_iface cfg, cf_volume = v\<rparr>"

definition stream_decoder :: "manager_config \<Rightarrow> int \<Rightarrow> decoder_options" where
  "stream_decoder cfg start =
     \<lparr>ffmpeg_path = mc_ffmpeg cfg,
      opt_format = \<lparr>pf_rate = sample_rate (stream_format cfg), pf_channels = channels (stream_format cfg), pf_depth = 16,
                    pf_big_endian = True\<rparr>,
      start_position_ms = start, opt_headers = mc_headers cfg\<rparr>"

lemma bridge_native_views:
  assumes "n = bridge_native now cfg tg req"
  shows "play_format n = stream_format cfg" "native_decoder_options n start = stream_decoder cfg start"
    "play_config n req1 = dial_config cfg (tg_address tg) (tg_port tg) (req_volume (kept_request req1))"
  by (simp_all add: assms play_format_def bridge_native_def new_native_def stream_format_def native_decoder_options_def
      stream_decoder_def play_config_def native_config_def dial_config_def Let_def)

text \<open>The target that a request by hardware address reaches once both services were heard.\<close>

lemma heard_target:
  assumes "well_named r" "addr \<noteq> []" "heard_as addr (raop_service r) er" "heard_as addr (airplay_service r) ea"
    and "devices reg (mr_mac r) = None"
    and "mg_registry m = Some (ingest t2 (ingest t1 reg service_raop (Some er)) service_airplay (Some ea))"
  obtains tg where "resolve_target rord (mr_mac r) m = Inr tg" "tg_id tg = mr_mac r @ ''@'' @ mr_name r" "tg_address tg = addr"
    "tg_port tg = mr_port r" "accepts_pcm tg"
proof -
  obtain d where d: "devices (ingest t2 (ingest t1 reg service_raop (Some er)) service_airplay (Some ea)) = (devices reg)(mr_mac r \<mapsto> d)"
    "usable_by r addr (target_from_device d)"
    by (rule heard_both [OF assms(1-5) disjI1 [OF refl]])
  have "mr_mac r \<noteq> []"
    using assms(1) mac_of_instance(4) by (simp add: well_named_def)
  then have "resolve_target rord (mr_mac r) m = Inr (target_from_device d)"
    using d(1) by (simp add: resolve_target_def assms(6) registry_get_exact)
  then show ?thesis
    using that d(2) by (simp add: usable_by_def)
qed

text \<open>
  C1: What is played is what the receiver captures, from the announcement to the file.  A mock receiver
  advertises itself, the bridge hears both services, and a play request names the receiver by its
  hardware address.  Then everything the bridge says on the RTSP connection is understood: the
  receiver answers each request, records, and knows the rate and channels of the stream and the
  volume; with these answers Start succeeds, the session is in the table, buffering, with a sender
  aimed at the receiver's audio port.  Whatever the stream then carries, over a network that loses
  nothing, and however it is paused, resumed, flushed or closed, the capture is the source, as far as
  the stream has come, and all of it once the stream has ended.
\<close>

lemma played_music_is_captured:
  assumes "r = new_receiver name mac port rate exit_on_end grace" "well_named r" "plain_host addr"
    and "heard_as addr (raop_service r) er" "heard_as addr (airplay_service r) ea" "devices reg (mr_mac r) = None"
    and "mg_registry m = Some (ingest t2 (ingest t1 reg service_raop (Some er)) service_airplay (Some ea))"
    and "session_key = mr_mac r @ ''@'' @ mr_name r" "mg_sessions m session_key = None" "fst (resolve_kind probe m) = ''native''"
    and "f = stream_format (mg_config m)" "validate f = None" "in_int64 (sample_rate f)"
    and "req1 = resolve_volume (mg_config m) req" "v = req_volume (kept_request req1)"
    and "new_rtsp_conn r1 r2 r3 loc addr = Inr c" "plain_host loc"
    and "play_io io a ct tt v" "0 < a" "in_int64 a" "in_int64 ct" "in_int64 tt" "in_int64 cp" "in_int64 tp"
  shows "\<exists>rs w. serve_conn io 0 (play_text c f cp tp v) (accept_conn ident peer r) = (rs, w)
      \<and> length rs = (if v > 0 then 5 else 4)
      \<and> cs_recording (rx_session w) \<and> cs_rate (rx_session w) = sample_rate f \<and> cs_channels (rx_session w) = channels f
      \<and> cs_volume (rx_session w) = (if v > 0 then format_float6 (percent_to_dbfs v) else [])
      \<and> (\<forall>env src. dials (ke_native env) (dial_config (mg_config m) addr (mr_port r) v) loc clock c cp tp
            \<and> hears (ke_native env) v rs
            \<and> start_decoder (nv_spawn (ke_native env)) (stream_decoder (mg_config m) (start_ms req1)) (stream_url req1) = Some src \<longrightarrow>
          (\<exists>st ms k s m'. manager_start kio env probe rord (mr_mac r) req m = (Inr st, m') \<and> st_state st = Buffering
             \<and> mg_sessions m' session_key = Some ms \<and> ms_engine ms = Native_Kernel k
             \<and> nt_sender k = Some s \<and> server_port s = a
             \<and> (\<forall>es pcm. (\<forall>e \<in> set es. \<not> swaps e) \<longrightarrow> captures s es pcm w)))"
proof -
  obtain tg where tg: "resolve_target rord (mr_mac r) m = Inr tg" "tg_id tg = session_key" "tg_address tg = addr"
      "tg_port tg = mr_port r" "accepts_pcm tg"
    unfolding assms(8) by (rule heard_target [OF assms(2) plain_host_text(4) [OF assms(3)] assms(4-7)])
  define n where "n = bridge_native (ki_now kio) (mg_config m) tg req"
  note view = bridge_native_views [OF n_def]
  have f: "play_format n = f" and cfg: "play_config n req1 = dial_config (mg_config m) addr (mr_port r) v"
    by (simp_all add: view assms(11,15) tg)
  have sp: "speakable c f"
    by (rule dialled_conn(1) [OF assms(16,17,3,12,13)])
  have free: "mg_sessions m (tg_id tg) = None"
    using assms(9) tg(2) by simp
  have fresh: "\<not> cs_have_seq (rx_session (accept_conn ident peer r))"
    by (simp add: accept_conn_def new_receiver_session_def)
  have vol: "clamp_percent v = v"
    by (simp add: assms(15) kept_request_def clamp_percent_def Let_def)
  obtain rs w where served: "serve_conn io 0 (play_text c f cp tp v) (accept_conn ident peer r) = (rs, w)" "length rs = (if v > 0 then 5 else 4)"
    and w: "rx_session w = heard_play c f a ct tt cp tp v (rx_session (accept_conn ident peer r))"
    and started: "\<forall>env src. dials (ke_native env) (dial_config (mg_config m) addr (mr_port r) v) loc clock c cp tp \<and> hears (ke_native env) v rs
            \<and> start_decoder (nv_spawn (ke_native env)) (stream_decoder (mg_config m) (start_ms req1)) (stream_url req1) = Some src \<longrightarrow>
          (\<exists>k s m'. manager_start kio env probe rord (mr_mac r) req m = (Inr (kernel_status (ki_now kio) (Native_Kernel k)), m')
             \<and> mg_sessions m' = (mg_sessions m)(tg_id tg \<mapsto> \<lparr>ms_engine = Native_Kernel k, ms_target = tg, ms_started = ki_now kio\<rparr>)
             \<and> st_state (native_status (ki_now kio) k) = Buffering \<and> nt_sender k = Some s \<and> server_port s = a
             \<and> (\<forall>es pcm. (\<forall>e \<in> set es. \<not> swaps e) \<longrightarrow> captures s es pcm w))"
    using play_session [OF tg(5) n_def assms(14) tg(1) free assms(10) _ _ assms(15,18-24) fresh, of c loc clock]
    unfolding f cfg view(2) using assms(12) sp by blast
  have ses: "cs_recording (rx_session w)" "cs_rate (rx_session w) = sample_rate f" "cs_channels (rx_session w) = channels f"
      "cs_volume (rx_session w) = (if v > 0 then format_float6 (percent_to_dbfs v) else [])"
    by (simp_all add: w heard_play_def shaken_session_def vol Let_def accept_conn_def new_receiver_session_def)
  show ?thesis
  proof (intro exI [of _ rs] exI [of _ w] conjI allI impI served ses)
    fix env :: kernel_env and src
    assume "dials (ke_native env) (dial_config (mg_config m) addr (mr_port r) v) loc clock c cp tp
            \<and> hears (ke_native env) v rs
            \<and> start_decoder (nv_spawn (ke_native env)) (stream_decoder (mg_config m) (start_ms req1)) (stream_url req1) = Some src"
    from started [rule_format, OF this] obtain k s m' where
      "manager_start kio env probe rord (mr_mac r) req m = (Inr (kernel_status (ki_now kio) (Native_Kernel k)), m')"
      "mg_sessions m' = (mg_sessions m)(tg_id tg \<mapsto> \<lparr>ms_engine = Native_Kernel k, ms_target = tg, ms_started = ki_now kio\<rparr>)"
      "st_state (native_status (ki_now kio) k) = Buffering" "nt_sender k = Some s" "server_port s = a"
      "\<forall>es pcm. (\<forall>e \<in> set es. \<not> swaps e) \<longrightarrow> captures s es pcm w"
      by blast
    then show "\<exists>st ms k s m'. manager_start kio env probe rord (mr_mac r) req m = (Inr st, m') \<and> st_state st = Buffering
             \<and> mg_sessions m' session_key = Some ms \<and> ms_engine ms = Native_Kernel k
             \<and> nt_sender k = Some s \<and> server_port s = a
             \<and> (\<forall>es pcm. (\<forall>e \<in> set es. \<not> swaps e) \<longrightarrow> captures s es pcm w)"
      by (intro exI conjI) (assumption | simp add: tg(2))+
  qed
qed

definition mock_manager :: manager where
  "mock_manager =
     new_manager (Some (ingest 2 (ingest 1 (new_registry 60) service_raop (Some mock_raop_entry)) service_airplay
       (Some mock_airplay_entry))) kitchen_config"

definition forty :: play_request where
  "forty = no_request\<lparr>stream_url := ''http://10.0.0.2/1'', req_volume := 40\<rparr>"

definition answering_env :: "string list \<Rightarrow> kernel_env" where
  "answering_env rs =
     \<lparr>ke_native =
        \<lparr>nv_now = 5, nv_spawn = (\<lambda>_. Some 0),
         nv_dial = \<lparr>de_cancelled = False, de_tcp_local = Some (Some ''10.0.0.2''),
           de_random = (Some [1, 2, 3, 4], Some [5, 6, 7, 8], Some [9, 9, 9, 9, 9, 9, 9, 9]), de_clock = (7, 8),
           de_options = (False, True, rs ! 0), de_announce = (False, True, rs ! 1), de_control = Some 5001,
           de_timing = Some 5002, de_audio = True, de_setup = (False, True, rs ! 2), de_teardown = (False, True, [])\<rparr>,
         nv_volume_io = (False, True, rs ! 3), nv_record_io = (False, True, rs ! 4), nv_teardown_io = (False, True, [])\<rparr>,
      ke_cli = cli_ready_env (False, False, False)\<rparr>"

definition mock_io :: "nat \<Rightarrow> conn_io" where
  "mock_io n =
     \<lparr>io_ports = (Some 6000, Some 6001, Some 6002),
      io_order = [''CSeq'', ''Server''] @
        (if n = 0 then [''Public''] else if n = 1 then [''Content-Type''] else if n = 2 then [''Session'', ''Transport'']
         else if n = 3 then [] else [''Audio-Latency'']),
      io_write_ok = True\<rparr>"

lemma answering_env_hears: "length rs = 5 \<Longrightarrow> hears (ke_native (answering_env rs)) 40 rs"
  by (auto simp: answering_env_def numeral_eq_Suc length_Suc_conv)

lemma played_music_is_captured_witness:
  "\<exists>rs w st m' ms k s. manager_start demo_io (answering_env rs) (\<lambda>_. True) [] ''AA:BB:CC:DD:EE:FF'' forty mock_manager = (Inr st, m')
     \<and> st_state st = Buffering \<and> mg_sessions m' ''AA:BB:CC:DD:EE:FF@Mock-HomePod'' = Some ms \<and> ms_engine ms = Native_Kernel k
     \<and> nt_sender k = Some s \<and> server_port s = 6000 \<and> cs_recording (rx_session w)
     \<and> captures s [Loop smooth, Loop smooth] [1, 2] w"
proof -
  let ?d = "nv_dial (ke_native (answering_env []))"
  obtain c where c: "new_rtsp_conn (Some [1, 2, 3, 4]) (Some [5, 6, 7, 8]) (Some [9, 9, 9, 9, 9, 9, 9, 9]) ''10.0.0.2'' ''10.0.0.9'' = Inr c"
    by (simp add: new_rtsp_conn_def random_uint32_def random_hex_def)
  have host: "plain_host ''10.0.0.9''" "plain_host ''10.0.0.2''"
    by (simp_all add: plain_host_def)
  have cfg: "mg_config mock_manager = kitchen_config" "mg_sessions mock_manager k = None" for k
    by (simp_all add: mock_manager_def new_manager_def)
  have req: "resolve_volume kitchen_config forty = forty" "kept_request forty = forty" "req_volume forty = 40"
    by (simp_all add: resolve_volume_def kept_request_def forty_def)
  have f: "stream_format kitchen_config = \<lparr>sample_rate = 44100, channels = 2, bit_depth = 16\<rparr>"
    by (simp add: stream_format_def kitchen_config_def)
  have io: "play_io mock_io 6000 6001 6002 40"
    by (simp add: play_io_def handshake_io_def mock_io_def insert_commute)
  have ports: "in_int64 6000" "in_int64 6001" "in_int64 6002" "in_int64 5001" "in_int64 5002" "in_int64 44100"
    by (simp_all add: in_int64_def)
  have kind: "fst (resolve_kind (\<lambda>_. True) mock_manager) = ''native''"
    by (simp add: resolve_kind_def mock_manager_def new_manager_def kitchen_config_def Let_def)
  have key: "''AA:BB:CC:DD:EE:FF@Mock-HomePod'' = mr_mac mock_homepod @ ''@'' @ mr_name mock_homepod"
    by (simp add: mock_homepod_fields)
  have dials: "dials (ke_native (answering_env rs)) (dial_config kitchen_config ''10.0.0.9'' 7000 40) ''10.0.0.2'' (7, 8) c 5001 5002" for rs
    using c by (simp add: dials_def answering_env_def dial_config_def kitchen_config_def Let_def)
  have dec: "start_decoder (nv_spawn (ke_native (answering_env rs))) opts (stream_url forty) = Some 0" for rs opts
    using demo_decoder by (simp add: answering_env_def forty_def)
  have v: "40 = req_volume (kept_request forty)" and fv: "validate (stream_format kitchen_config) = None"
      "in_int64 (sample_rate (stream_format kitchen_config))"
    using ports(6) by (simp_all add: req f validate_def)
  have reg: "devices (new_registry 60) (mr_mac mock_homepod) = None"
    "mg_registry mock_manager = Some (ingest 2 (ingest 1 (new_registry 60) service_raop (Some mock_raop_entry)) service_airplay
       (Some mock_airplay_entry))"
    by (simp_all add: new_registry_def mock_manager_def new_manager_def)
  have pos: "0 < (6000 :: int)"
    by simp
  note run = played_music_is_captured [where ident = 1 and peer = "''10.0.0.2''" and clock = "(7, 8)" and kio = demo_io and rord = "[]",
      OF mock_homepod_def mock_homepod_named host(1) mock_entries_heard reg key cfg(2) kind refl,
      unfolded cfg(1), OF fv req(1) [symmetric] v c host(2) io pos ports(1-5)]
  obtain rs w where len: "length rs = (if (40 :: int) > 0 then 5 else 4)" and "cs_recording (rx_session w)"
    and started: "\<forall>env src. dials (ke_native env) (dial_config kitchen_config ''10.0.0.9'' (mr_port mock_homepod) 40) ''10.0.0.2'' (7, 8) c 5001 5002
       \<and> hears (ke_native env) 40 rs \<and> start_decoder (nv_spawn (ke_native env)) (stream_decoder kitchen_config (start_ms forty)) (stream_url forty) = Some src
       \<longrightarrow> (\<exists>st ms k s m'. manager_start demo_io env (\<lambda>_. True) [] (mr_mac mock_homepod) forty mock_manager = (Inr st, m') \<and> st_state st = Buffering
             \<and> mg_sessions m' ''AA:BB:CC:DD:EE:FF@Mock-HomePod'' = Some ms \<and> ms_engine ms = Native_Kernel k
             \<and> nt_sender k = Some s \<and> server_port s = 6000 \<and> (\<forall>es pcm. (\<forall>e \<in> set es. \<not> swaps e) \<longrightarrow> captures s es pcm w))"
    using run by (elim exE conjE) iprover
  have dials': "dials (ke_native (answering_env rs)) (dial_config kitchen_config ''10.0.0.9'' (mr_port mock_homepod) 40) ''10.0.0.2'' (7, 8) c 5001 5002"
    using dials by (simp add: mock_homepod_fields)
  have "hears (ke_native (answering_env rs)) 40 rs"
    using len by (intro answering_env_hears) simp
  then obtain st ms k s m' where st:
      "manager_start demo_io (answering_env rs) (\<lambda>_. True) [] (mr_mac mock_homepod) forty mock_manager = (Inr st, m')"
      "st_state st = Buffering" "mg_sessions m' ''AA:BB:CC:DD:EE:FF@Mock-HomePod'' = Some ms" "ms_engine ms = Native_Kernel k"
      "nt_sender k = Some s" "server_port s = 6000"
    and cap: "\<forall>es pcm. (\<forall>e \<in> set es. \<not> swaps e) \<longrightarrow> captures s es pcm w"
    using started [rule_format, OF conjI [OF dials' conjI [OF _ dec]]] by iprover
  have "captures s [Loop smooth, Loop smooth] [1, 2] w"
    by (rule cap [rule_format]) simp
  then show ?thesis
    using st \<open>cs_recording (rx_session w)\<close> unfolding mock_homepod_fields by iprover
qed

end
