(* ===== verification/Leases.thy ===== *)
theory Leases
  imports Manager
begin

text \<open>
  The session manager against an abstract contract: who holds a device.  The contract is a step
  relation on the table of devices; every operation of theory Manager is simulated by steps of it.
\<close>

subsection \<open>The contract of the table\<close>

datatype phase = Live | Over

type_synonym leases = "string \<rightharpoonup> phase"

datatype lease_event = Grant string phase | Turn string phase | Retire string | Abandon string

text \<open>
  A device is granted to one session at a time.  \<open>Turn\<close> is a change of the session's own; \<open>Retire\<close>
  is the manager closing the kernel and dropping the session, \<open>Abandon\<close> dropping it unclosed, which
  may happen only to a session that is over.
\<close>

inductive lease_step :: "leases \<Rightarrow> lease_event \<Rightarrow> leases \<Rightarrow> bool" where
  grant: "L d = None \<Longrightarrow> lease_step L (Grant d p) (L(d \<mapsto> p))"
| turn: "L d \<noteq> None \<Longrightarrow> lease_step L (Turn d p) (L(d \<mapsto> p))"
| retire: "L d \<noteq> None \<Longrightarrow> lease_step L (Retire d) (L(d := None))"
| abandon: "L d = Some Over \<Longrightarrow> lease_step L (Abandon d) (L(d := None))"

inductive lease_run :: "leases \<Rightarrow> lease_event list \<Rightarrow> leases \<Rightarrow> bool" where
  rest: "lease_run L [] L"
| move: "lease_step L e L1 \<Longrightarrow> lease_run L1 es L2 \<Longrightarrow> lease_run L (e # es) L2"

inductive_cases lease_stepE: "lease_step L e L1"

inductive_simps lease_run_simps [simp]: "lease_run L [] L2" "lease_run L (e # es) L2"

lemma lease_run_append: "lease_run L es L1 \<Longrightarrow> lease_run L1 fs L2 \<Longrightarrow> lease_run L (es @ fs) L2"
  by (induction rule: lease_run.induct) auto

lemma lease_one: "lease_step L e L1 \<Longrightarrow> lease_run L [e] L1"
  by auto

fun grants :: "string \<Rightarrow> lease_event \<Rightarrow> bool" where
  "grants d (Grant x p) \<longleftrightarrow> x = d"
| "grants d _ \<longleftrightarrow> False"

fun ends :: "string \<Rightarrow> lease_event \<Rightarrow> bool" where
  "ends d (Retire x) \<longleftrightarrow> x = d"
| "ends d (Abandon x) \<longleftrightarrow> x = d"
| "ends d _ \<longleftrightarrow> False"

definition held_by :: "leases \<Rightarrow> string \<Rightarrow> nat" where
  "held_by L d = (if L d = None then 0 else 1)"

text \<open>The grants of a device and the ends of its sessions take turns.\<close>

lemma lease_balance:
  "lease_run L es L' \<Longrightarrow> length (filter (grants d) es) + held_by L d = length (filter (ends d) es) + held_by L' d"
proof (induction rule: lease_run.induct)
  case (move L e L1 es L2)
  have "(if grants d e then 1 else 0) + held_by L d = (if ends d e then 1 else 0) + held_by L1 d"
    using move.hyps(1) by (cases rule: lease_stepE) (auto simp: held_by_def)
  with move.IH show ?case
    by auto
qed simp

lemma lease_prefix: "lease_run L (es @ fs) L' \<Longrightarrow> \<exists>M. lease_run L es M \<and> lease_run M fs L'"
proof (induction es arbitrary: L)
  case (Cons e es)
  from Cons.prems obtain L1 where L1: "lease_step L e L1" "lease_run L1 (es @ fs) L'"
    by auto
  from Cons.IH [OF L1(2)] L1(1) show ?case
    by (blast intro: lease_run.move)
qed (auto intro: lease_run.rest)

subsection \<open>The manager keeps it\<close>

definition phase_of :: "kernel \<Rightarrow> phase" where
  "phase_of k = (if st_state (kernel_status 0 k) \<in> {Stopped, Failed} then Over else Live)"

definition leases_of :: "manager \<Rightarrow> leases" where
  "leases_of m = (\<lambda>d. map_option (\<lambda>s. phase_of (ms_engine s)) (mg_sessions m d))"

lemma state_timeless: "st_state (kernel_status t k) = st_state (kernel_status 0 k)"
  by (cases k) (auto simp: native_status_def cli_status_def Let_def split: option.split sender_state.split)

lemma leases_of_busy [simp]: "leases_of (mg_busy rord i b m) = leases_of m"
  by (simp add: leases_of_def)

lemma leases_of_upd:
  "mg_sessions m' = (mg_sessions m)(d := v) \<Longrightarrow> leases_of m' = (leases_of m)(d := map_option (\<lambda>s. phase_of (ms_engine s)) v)"
  by (auto simp: leases_of_def)

lemma update_engine_run: "mg_sessions m key \<noteq> None \<Longrightarrow> lease_run (leases_of m) [Turn key (phase_of k)] (leases_of (update_engine key k m))"
proof -
  assume "mg_sessions m key \<noteq> None"
  then obtain s where s: "mg_sessions m key = Some s"
    by auto
  then have "leases_of (update_engine key k m) = (leases_of m)(key \<mapsto> phase_of k)"
    by (subst leases_of_upd [where v = "Some (s\<lparr>ms_engine := k\<rparr>)"]) (simp_all add: update_engine_def)
  then show ?thesis
    using s by (intro lease_one) (auto intro!: lease_step.turn simp: leases_of_def)
qed

lemma forget_run: "\<exists>es. lease_run (leases_of m) es (leases_of (forget rord d m))"
proof (cases "mg_sessions m d")
  case (Some s)
  then have "leases_of (forget rord d m) = (leases_of m)(d := None)"
    by (subst leases_of_upd [where v = None]) (simp_all add: forget_def)
  moreover have "lease_step (leases_of m) (Retire d) ((leases_of m)(d := None))"
    using Some by (intro lease_step.retire) (simp add: leases_of_def)
  ultimately show ?thesis
    using lease_one by metis
qed (auto simp: forget_def intro: lease_run.rest)

lemma start_check_run:
  assumes "start_check now probe t m = (res, m1)"
  shows "(\<exists>es. lease_run (leases_of m) es (leases_of m1)) \<and> (\<forall>kind. res = Inr kind \<longrightarrow> leases_of m1 (tg_id t) = None)"
  using assms
proof (cases rule: start_check_cases)
  case (go kind')
  have l: "leases_of m1 = (leases_of m)(tg_id t := None)"
    by (rule trans [OF leases_of_upd [OF go(2)]]) simp
  have "\<exists>es. lease_run (leases_of m) es (leases_of m1)"
  proof (cases "mg_sessions m (tg_id t)")
    case None
    then have "leases_of m (tg_id t) = None"
      by (simp add: leases_of_def)
    then have "leases_of m1 = leases_of m"
      by (simp add: l fun_upd_idem)
    then show ?thesis
      by (auto intro: lease_run.rest)
  next
    case (Some s)
    then have "phase_of (ms_engine s) = Over"
      using go(5) by (simp add: phase_of_def state_timeless [of now])
    then have "lease_step (leases_of m) (Abandon (tg_id t)) (leases_of m1)"
      unfolding l using Some by (intro lease_step.abandon) (simp add: leases_of_def)
    then show ?thesis
      using lease_one by blast
  qed
  then show ?thesis
    by (simp add: l)
qed (auto intro: lease_run.rest)

lemma start_run: "\<exists>es. lease_run (leases_of m) es (leases_of (snd (manager_start io env probe rord i req m)))"
proof (cases "resolve_target rord i m")
  case (Inl e)
  then show ?thesis
    by (auto simp: manager_start_def intro: lease_run.rest)
next
  case (Inr t)
  obtain res m1 where c: "start_check (ki_now io) probe t m = (res, m1)"
    by fastforce
  obtain es where es: "lease_run (leases_of m) es (leases_of m1)"
    using start_check_run [OF c] by blast
  show ?thesis
  proof (cases res)
    case (Inl e)
    with es Inr c show ?thesis
      by (auto simp: manager_start_def)
  next
    case res: (Inr kind)
    show ?thesis
    proof (cases "start_kernel io env (mg_config m1) kind t req")
      case (Inl x)
      with es Inr c res show ?thesis
        by (cases x) (auto simp: manager_start_def)
    next
      case (Inr k)
      have "leases_of (start_commit rord (ki_now io) t k m1) = (leases_of m1)(tg_id t \<mapsto> phase_of k)"
        by (auto simp: start_commit_def leases_of_def)
      moreover have "lease_step (leases_of m1) (Grant (tg_id t) (phase_of k)) ((leases_of m1)(tg_id t \<mapsto> phase_of k))"
        using start_check_run [OF c] res by (intro lease_step.grant) blast
      ultimately have "lease_run (leases_of m) (es @ [Grant (tg_id t) (phase_of k)]) (leases_of (start_commit rord (ki_now io) t k m1))"
        using es lease_run_append lease_one by metis
      with Inr \<open>resolve_target rord i m = Inr t\<close> c res show ?thesis
        by (auto simp: manager_start_def)
    qed
  qed
qed

lemma control_run: "\<exists>es. lease_run (leases_of m) es (leases_of (snd (manager_control io rord ord i action pos m)))"
proof (cases "session_of ord i m")
  case (Inl e)
  then show ?thesis
    by (auto simp: manager_control_def intro: lease_run.rest)
next
  case (Inr x)
  obtain key s where x: "x = (key, s)"
    by fastforce
  obtain k err where k: "kernel_control io action pos (ms_engine s) = (k, err)"
    by fastforce
  have turn: "lease_run (leases_of m) [Turn key (phase_of k)] (leases_of (update_engine key k m))"
    using Inr x session_of_in [of ord i m key s] by (intro update_engine_run) simp
  show ?thesis
  proof (cases "err = None \<and> action = action_stop")
    case True
    obtain es where "lease_run (leases_of (update_engine key k m)) es (leases_of (forget rord (tg_id (ms_target s)) (update_engine key k m)))"
      using forget_run by blast
    from lease_run_append [OF turn this]
    have "\<exists>es. lease_run (leases_of m) es (leases_of (forget rord (tg_id (ms_target s)) (update_engine key k m)))"
      by blast
    moreover have "snd (manager_control io rord ord i action pos m) = forget rord (tg_id (ms_target s)) (update_engine key k m)"
      using True Inr x k by (simp add: manager_control_def)
    ultimately show ?thesis
      by simp
  next
    case False
    then have "snd (manager_control io rord ord i action pos m) = update_engine key k m"
      using Inr x k by (cases err) (simp_all add: manager_control_def)
    with turn show ?thesis
      by metis
  qed
qed

lemma volume_run: "\<exists>es. lease_run (leases_of m) es (leases_of (snd (manager_set_volume io ord i v m)))"
proof (cases "session_of ord i m")
  case (Inl e)
  then show ?thesis
    by (auto simp: manager_set_volume_def intro: lease_run.rest)
next
  case (Inr x)
  obtain key s where x: "x = (key, s)"
    by fastforce
  obtain k err where k: "kernel_set_volume io v (ms_engine s) = (k, err)"
    by fastforce
  have "lease_run (leases_of m) [Turn key (phase_of k)] (leases_of (update_engine key k m))"
    using Inr x session_of_in [of ord i m key s] by (intro update_engine_run) simp
  moreover have "snd (manager_set_volume io ord i v m) = update_engine key k m"
    using Inr x k by (cases err) (simp_all add: manager_set_volume_def)
  ultimately show ?thesis
    by metis
qed

lemma prune_one_run: "\<exists>es. lease_run (leases_of m) es (leases_of (prune_one now rord d m))"
proof (cases "leases_of (prune_one now rord d m) = leases_of m")
  case True
  then show ?thesis
    by (auto intro: lease_run.rest)
next
  case False
  then obtain s where s: "mg_sessions m d = Some s" "terminal now s"
    by (auto simp: prune_one_def split: option.splits if_splits)
  then have "leases_of (prune_one now rord d m) = (leases_of m)(d := None)"
    by (subst leases_of_upd [where v = None]) (simp_all add: prune_one_def)
  moreover have "lease_step (leases_of m) (Retire d) ((leases_of m)(d := None))"
    using s by (intro lease_step.retire) (simp add: leases_of_def)
  ultimately show ?thesis
    using lease_one by metis
qed

lemma prune_run: "\<exists>es. lease_run (leases_of m) es (leases_of (prune now rord ord m))"
proof (induction ord arbitrary: m)
  case Nil
  show ?case
    by (auto simp: prune_def intro: lease_run.rest)
next
  case (Cons d ord)
  obtain es fs where "lease_run (leases_of m) es (leases_of (prune_one now rord d m))"
    "lease_run (leases_of (prune_one now rord d m)) fs (leases_of (prune now rord ord (prune_one now rord d m)))"
    using prune_one_run [of m now rord d] Cons.IH [of "prune_one now rord d m"] by blast
  from lease_run_append [OF this] show ?case
    by (auto simp: prune_def)
qed

lemma retire_all: "finite A \<Longrightarrow> dom L = A \<Longrightarrow> \<exists>es. lease_run L es Map.empty"
proof (induction A arbitrary: L rule: finite_induct)
  case empty
  then have "L = Map.empty"
    by simp
  then show ?case
    by (auto intro: lease_run.rest)
next
  case (insert d A)
  have "dom (L(d := None)) = A"
    using insert.hyps insert.prems by auto
  from insert.IH [OF this] obtain es where "lease_run (L(d := None)) es Map.empty"
    by blast
  moreover have "lease_step L (Retire d) (L(d := None))"
    using insert.prems by (intro lease_step.retire) auto
  ultimately show ?case
    by (blast intro: lease_run.move)
qed

lemma manager_step_run:
  assumes "manager_inv m"
  shows "\<exists>es. lease_run (leases_of m) es (leases_of (manager_step a m))"
proof (cases a)
  case (M_Shutdown io rord ord)
  have "dom (leases_of m) = dom (mg_sessions m)" "leases_of (fst (shutdown io rord ord m)) = Map.empty"
    by (auto simp: leases_of_def)
  then show ?thesis
    using retire_all [of "dom (leases_of m)" "leases_of m"] assms M_Shutdown by (simp add: manager_inv_def)
next
  case (M_Kernel key e)
  show ?thesis
  proof (cases "mg_sessions m key")
    case None
    then show ?thesis
      using M_Kernel by (auto simp: session_event_def intro: lease_run.rest)
  next
    case (Some s)
    then have "lease_run (leases_of m) [Turn key (phase_of (on_kernel_event e (ms_engine s)))] (leases_of (manager_step a m))"
      using M_Kernel update_engine_run [of m key "on_kernel_event e (ms_engine s)"]
      by (simp add: session_event_def del: lease_run_simps)
    then show ?thesis
      by blast
  qed
next
  case (M_Registry a')
  then have "leases_of (manager_step a m) = leases_of m"
    by (simp add: leases_of_def)
  then show ?thesis
    by (auto intro: lease_run.rest)
qed (simp_all add: start_run control_run volume_run prune_run)

lemma manager_history_run:
  assumes "manager_inv m"
  shows "\<exists>es. lease_run (leases_of m) es (leases_of (fold manager_step ops m))"
  using assms
proof (induction ops arbitrary: m)
  case Nil
  show ?case
    by (auto intro: lease_run.rest)
next
  case (Cons a ops)
  obtain es fs where "lease_run (leases_of m) es (leases_of (manager_step a m))"
    "lease_run (leases_of (manager_step a m)) fs (leases_of (fold manager_step ops (manager_step a m)))"
    using manager_step_run [OF Cons.prems] Cons.IH [OF manager.step_inv [OF Cons.prems]] by blast
  from lease_run_append [OF this] show ?case
    by auto
qed


text \<open>
  What \<open>Abandon\<close> costs.  The external kernel does not release its pipe and its audio source when its
  process ends; the reaper closes such a session, but a start that comes first takes its place in the
  table, and then no prune, stop or shutdown reaches the old kernel.
\<close>

lemma restart_abandons_kernel:
  assumes "cl_pipe c = Some p" "cp_file p = Some True" "cl_context c \<noteq> Some True"
    and "mg_sessions m (tg_id t) = Some s" "ms_engine s = Cli_Kernel (cli_watch now0 err c)"
    and "start_check now probe t m = (res, m1)" "m2 = start_commit rord now' t k m1" "ord = [tg_id t]"
  shows "\<not> kernel_released (ms_engine s) \<and> (\<exists>kind. res = Inr kind)
       \<and> mg_sessions m2 (tg_id t) = Some \<lparr>ms_engine = k, ms_target = t, ms_started = now'\<rparr>
       \<and> snd (shutdown io rord' ord m2) = [kernel_close io k]"
proof -
  have "cl_pipe (cli_watch now0 err c) = cl_pipe c" "sb_state (cl_base (cli_watch now0 err c)) \<in> {Stopped, Failed}"
    using assms(3) by (auto simp: cli_watch_def on_cli_base_def mark_finished_def set_error_def split: option.split)
  then have k: "\<not> kernel_released (ms_engine s)" "st_state (kernel_status now (ms_engine s)) \<in> {Stopped, Failed}"
    using assms(1,2) by (auto simp: assms(5) cli_released_def cli_status_def)
  from assms(6) have res: "\<exists>kind. res = Inr kind"
  proof (cases rule: start_check_cases)
    case (refused s')
    with assms(4) k(2) show ?thesis
      by auto
  qed blast
  have "mg_sessions m2 (tg_id t) = Some \<lparr>ms_engine = k, ms_target = t, ms_started = now'\<rparr>"
    by (simp add: assms(7) start_commit_def)
  then show ?thesis
    using k(1) res by (simp add: shutdown_kernels assms(8) List.map_filter_simps)
qed

end
