(* ===== verification/Host.thy ===== *)
theory Host
  imports Announce
begin

text \<open>
  The mock receiver as a process (cmd/mockreceiver/main.go): the flags, the connections it serves beside
  each other, the map of their sessions, the exit after a session, and the shutdown.  Theory Receiver
  has what one request or datagram does; here \<open>host_step\<close> is one event of the process, on the
  connection it belongs to.  A handler is one step.
\<close>


subsection \<open>The process\<close>

record mock_flags =
  mf_name :: string
  mf_port :: int
  mf_duration :: duration
  mf_mdns :: bool
  mf_mac :: string
  mf_rate :: int
  mf_exit :: bool
  mf_grace :: duration

definition default_flags :: mock_flags where
  "default_flags =
     \<lparr>mf_name = ''Mock-HomePod'', mf_port = 7000, mf_duration = 0, mf_mdns = True, mf_mac = ''AA:BB:CC:DD:EE:FF'',
      mf_rate = 44100, mf_exit = False, mf_grace = 2 * second\<rparr>"

definition receiver_of :: "mock_flags \<Rightarrow> receiver" where
  "receiver_of opts = new_receiver (mf_name opts) (mf_mac opts) (mf_port opts) (mf_rate opts) (mf_exit opts) (mf_grace opts)"

text \<open>The deadline of the run, if any.\<close>

definition run_limit :: "mock_flags \<Rightarrow> duration option" where
  "run_limit opts = (if mf_duration opts > 0 then Some (mf_duration opts) else None)"

text \<open>
  A connection as its goroutine and the goroutines of its sockets see it; \<open>cn_done\<close> once \<open>serveConn\<close>
  has returned, \<open>cn_reading\<close> once a SETUP has started the goroutines of the sockets.  \<open>hs_table\<close> is the
  map of sessions by the text of their number, \<open>hs_timers\<close> the delays after which a stop was ordered.
\<close>

record connection =
  cn_session :: receiver_session
  cn_open :: "int list"
  cn_reading :: bool
  cn_done :: bool

record host =
  hs_receiver :: receiver
  hs_table :: "string \<rightharpoonup> nat"
  hs_conns :: "nat \<rightharpoonup> connection"
  hs_next :: nat
  hs_timers :: "duration list"

definition new_host :: "receiver \<Rightarrow> host" where
  "new_host r =
     \<lparr>hs_receiver = r, hs_table = Map.empty, hs_conns = Map.empty, hs_next = 0, hs_timers = []\<rparr>"

definition session_text :: "receiver_session \<Rightarrow> string" where
  "session_text s = itoa (uint (cs_id s))"

text \<open>\<open>serveConn\<close> up to its loop.\<close>

definition host_accept :: "u32 \<Rightarrow> string \<Rightarrow> host \<Rightarrow> host" where
  "host_accept ident peer h =
     (let s = rx_session (accept_conn ident peer (hs_receiver h))
      in h\<lparr>hs_table := (hs_table h)(session_text s \<mapsto> hs_next h),
           hs_conns := (hs_conns h)(hs_next h \<mapsto> \<lparr>cn_session = s, cn_open = [], cn_reading = False, cn_done = False\<rparr>),
           hs_next := hs_next h + 1\<rparr>)"

definition reception_of :: "connection \<Rightarrow> host \<Rightarrow> reception" where
  "reception_of c h = \<lparr>rx_session = cn_session c, rx_receiver = hs_receiver h, rx_out = [], rx_open = cn_open c\<rparr>"

definition put_connection :: "nat \<Rightarrow> connection \<Rightarrow> receiver \<Rightarrow> host \<Rightarrow> host" where
  "put_connection n c r h = h\<lparr>hs_receiver := r, hs_conns := (hs_conns h)(n \<mapsto> c)\<rparr>"

definition on_connection :: "nat \<Rightarrow> (reception \<Rightarrow> reception) \<Rightarrow> host \<Rightarrow> host" where
  "on_connection n f h =
     (case hs_conns h n of
        None \<Rightarrow> h
      | Some c \<Rightarrow>
          (let w = f (reception_of c h)
           in put_connection n (c\<lparr>cn_session := rx_session w, cn_open := rx_open w\<rparr>) (rx_receiver w) h))"

text \<open>The deferred end of \<open>serveConn\<close>: out of the map, closed, and perhaps the end of the run.\<close>

definition host_finish :: "nat \<Rightarrow> host \<Rightarrow> host" where
  "host_finish n h =
     (case hs_conns h n of
        None \<Rightarrow> h
      | Some c \<Rightarrow>
          if cn_done c then h
          else (let w = close_session (reception_of c h)
                in (case session_ended (rx_receiver w) of
                      (r, stop) \<Rightarrow>
                        (put_connection n (c\<lparr>cn_session := rx_session w, cn_open := rx_open w, cn_done := True\<rparr>) r h)
                          \<lparr>hs_table := (hs_table h)(session_text (cn_session c) := None),
                           hs_timers := hs_timers h @ (case stop of None \<Rightarrow> [] | Some d \<Rightarrow> [d])\<rparr>)))"

text \<open>The loop of \<open>serveConn\<close> with a request at hand.\<close>

definition sets_up :: "rtsp_request \<Rightarrow> rtsp_reply \<Rightarrow> bool" where
  "sets_up q a \<longleftrightarrow> nq_method q = ''SETUP'' \<and> rp_code a = 200"

definition host_request :: "nat \<Rightarrow> conn_io \<Rightarrow> rtsp_request \<Rightarrow> host \<Rightarrow> host" where
  "host_request n io q h =
     (case hs_conns h n of
        None \<Rightarrow> h
      | Some c \<Rightarrow>
          if cn_done c then h
          else (case serve_request io q (reception_of c h) of
                  (a, w) \<Rightarrow>
                    (let h1 = put_connection n
                                (c\<lparr>cn_session := rx_session w, cn_open := rx_open w,
                                   cn_reading := cn_reading c \<or> sets_up q a\<rparr>) (rx_receiver w) h
                     in if \<not> io_write_ok io \<or> rp_close a then host_finish n h1 else h1)))"

text \<open>
  A datagram on a socket of the session, or a turn of \<open>probeClock\<close>.  The goroutines run from the first
  SETUP that succeeds until the session is closed; each reads the socket its session holds at the time.
\<close>

definition host_read :: "nat \<Rightarrow> (receiver_session \<Rightarrow> bool) \<Rightarrow> (reception \<Rightarrow> reception) \<Rightarrow> host \<Rightarrow> host" where
  "host_read n ready f h =
     (case hs_conns h n of
        None \<Rightarrow> h
      | Some c \<Rightarrow>
          if cs_closed (cn_session c) \<or> \<not> cn_reading c \<or> \<not> ready (cn_session c) then h else on_connection n f h)"

datatype host_event =
    Accept u32 string
  | Rtsp nat conn_io rtsp_request
  | Hang_Up nat
  | Audio_In nat "byte list"
  | Control_In nat "byte list" sync_memory
  | Timing_In nat "byte list"
  | Probe nat time

fun host_step :: "host_event \<Rightarrow> host \<Rightarrow> host" where
  "host_step (Accept ident peer) h = host_accept ident peer h"
| "host_step (Rtsp n io q) h = host_request n io q h"
| "host_step (Hang_Up n) h = host_finish n h"
| "host_step (Audio_In n d) h = host_read n (\<lambda>s. cs_audio_sock s \<noteq> None) (read_audio d) h"
| "host_step (Control_In n d mem) h = host_read n (\<lambda>s. cs_control_sock s \<noteq> None) (\<lambda>w. snd (snd (read_control d mem w))) h"
| "host_step (Timing_In n d) h = host_read n (\<lambda>s. cs_timing_sock s \<noteq> None) (read_timing d) h"
| "host_step (Probe n t) h = host_read n (\<lambda>_. True) (probe_clock t) h"

text \<open>\<open>shutdown\<close>: every session of the map is closed; \<open>ord\<close> is the order of the map.\<close>

definition host_shutdown :: "string list \<Rightarrow> host \<Rightarrow> host" where
  "host_shutdown ord h = fold (\<lambda>n. on_connection n close_session) (List.map_filter (hs_table h) ord) h"

text \<open>
  \<open>main\<close>.  The arguments after the flags say what the system allows: the listener, the two mDNS
  registrations, the file; \<open>events\<close> is what happens until the context is cancelled.
\<close>

datatype mock_result =
    Listen_Failed
  | Capture_Failed
  | Capture_Written "byte list" "duration option"

definition mock_services :: "mock_flags \<Rightarrow> bool \<times> bool \<Rightarrow> service_record list" where
  "mock_services opts mdns_ok =
     (if mf_mdns opts
      then (case advertise (fst mdns_ok) (snd mdns_ok) (receiver_of opts) of (rs, None) \<Rightarrow> rs | (rs, Some _) \<Rightarrow> [])
      else [])"

definition mock_main ::
  "mock_flags \<Rightarrow> bool \<Rightarrow> bool \<times> bool \<Rightarrow> host_event list \<Rightarrow> string list \<Rightarrow> bool
     \<Rightarrow> service_record list \<times> mock_result \<times> host" where
  "mock_main opts listen_ok mdns_ok events ord file_ok =
     (if \<not> listen_ok then ([], Listen_Failed, new_host (receiver_of opts))
      else (let h = host_shutdown ord (fold host_step events (new_host (receiver_of opts)))
            in (mock_services opts mdns_ok,
                case wav_file (hs_receiver h) of
                  None \<Rightarrow> Capture_Failed
                | Some f \<Rightarrow> if file_ok then Capture_Written f (capture_duration (hs_receiver h)) else Capture_Failed,
                h)))"

text \<open>
  \<open>acceptLoop\<close> on the results of Accept, each with whether the context is cancelled by then: \<open>None\<close> is
  an accepted connection, else the text of the error.  The result is the number of connections served
  and whether the loop has returned.
\<close>

fun accept_loop :: "(bool \<times> string option) list \<Rightarrow> nat \<times> bool" where
  "accept_loop [] = (0, False)"
| "accept_loop ((cancelled, None) # rs) = map_prod Suc (\<lambda>b. b) (accept_loop rs)"
| "accept_loop ((cancelled, Some e) # rs) =
     (if cancelled then (0, True) else if sublist ''use of closed'' e then (0, True) else accept_loop rs)"

subsection \<open>What the handlers leave alone\<close>

definition wiring :: "receiver_session \<Rightarrow> u32 \<times> bool \<times> int option list" where
  "wiring s = (cs_id s, cs_closed s, [cs_audio_sock s, cs_control_sock s, cs_timing_sock s])"

definition exiting :: "receiver \<Rightarrow> bool \<times> duration \<times> int" where
  "exiting r = (mr_exit_on_end r, mr_grace r, mr_served r)"

definition same_wires :: "reception \<Rightarrow> reception \<Rightarrow> bool" where
  "same_wires w w' \<longleftrightarrow> wiring (rx_session w') = wiring (rx_session w) \<and> rx_open w' = rx_open w
     \<and> exiting (rx_receiver w') = exiting (rx_receiver w)"

lemma same_wires_refl [simp]: "same_wires w w"
  by (simp add: same_wires_def)

lemma same_wires_trans: "same_wires w w1 \<Longrightarrow> same_wires w1 w2 \<Longrightarrow> same_wires w w2"
  by (simp add: same_wires_def)

lemma same_wires_stats [simp]: "same_wires w (on_stats h w1) = same_wires w w1"
  by (simp add: same_wires_def on_stats_def on_receiver_def exiting_def)

lemma same_wires_session: "(\<And>s. wiring (f s) = wiring s) \<Longrightarrow> same_wires w (on_session f w1) = same_wires w w1"
  by (simp add: same_wires_def)

lemma same_wires_receiver: "(\<And>r. exiting (f r) = exiting r) \<Longrightarrow> same_wires w (on_receiver f w1) = same_wires w w1"
  by (simp add: same_wires_def)

lemma same_wires_out [simp]: "same_wires w (w1\<lparr>rx_out := xs\<rparr>) = same_wires w w1"
  by (simp add: same_wires_def)

lemma wiring_sdp [simp]: "wiring (parse_sdp body s) = wiring s"
proof -
  have "wiring (fold sdp_line ls s) = wiring s" for ls
    by (induction ls arbitrary: s)
      (auto simp: sdp_line_def wiring_def Let_def split: prod.split option.split)
  then show ?thesis
    by (auto simp: parse_sdp_def Let_def wiring_def)
qed

lemma wiring_parameters [simp]: "wiring (parse_parameters body s) = wiring s"
proof -
  have "wiring (fold parameter_line ls s) = wiring s" for ls
    by (induction ls arbitrary: s) (auto simp: parameter_line_def wiring_def split: prod.split)
  then show ?thesis
    by (simp add: parse_parameters_def)
qed

lemma same_wires_audio: "same_wires w (handle_audio_packet p w)"
proof -
  have store: "same_wires w (store_audio sq d w1) = same_wires w w1" for sq d w1
    by (simp add: store_audio_def same_wires_def wiring_def exiting_def append_pcm_def)
  have silence: "same_wires w (on_receiver (append_silence n) w1) = same_wires w w1" for n w1
    by (rule same_wires_receiver) (simp add: append_silence_def exiting_def)
  have asked: "same_wires w (request_retransmit a n w1) = same_wires w w1" for a n w1
    by (simp add: request_retransmit_def split: option.split)
  show ?thesis
    by (simp add: handle_audio_packet_def Let_def store silence asked same_wires_session wiring_def)
qed

lemma same_wires_reads:
  "same_wires w (read_audio d w)" "same_wires w (snd (snd (read_control d mem w)))" "same_wires w (read_timing d w)"
  "same_wires w (probe_clock t w)"
proof -
  have "same_wires w (handle_audio_packet p (on_stats h w))" for p h
    using same_wires_audio [of "on_stats h w" p] same_wires_trans [of w "on_stats h w"] by simp
  then show "same_wires w (read_audio d w)"
    by (simp add: read_audio_def Let_def)
  show "same_wires w (snd (snd (read_control d mem w)))"
    by (auto simp: read_control_def Let_def same_wires_audio split: prod.split)
  show "same_wires w (read_timing d w)"
    by (simp add: read_timing_def)
  show "same_wires w (probe_clock t w)"
    by (simp add: probe_clock_def Let_def)
qed

lemma same_wires_bodies [simp]:
  "same_wires w (on_session (parse_sdp b) w1) = same_wires w w1" "same_wires w (on_session (parse_parameters b) w1) = same_wires w w1"
  by (rule same_wires_session, simp)+

lemma same_wires_handle: "nq_method q \<noteq> ''SETUP'' \<Longrightarrow> same_wires w (snd (handle ports q w))"
  by (simp add: handle_def Let_def same_wires_session wiring_def)

lemma same_wires_request: "nq_method q \<noteq> ''SETUP'' \<Longrightarrow> same_wires w (snd (serve_request io q w))"
  unfolding serve_request_def
  by (rule same_wires_trans [OF _ same_wires_handle]) simp_all

definition held_sockets :: "receiver_session \<Rightarrow> int set" where
  "held_sockets s = {x. Some x \<in> {cs_audio_sock s, cs_control_sock s, cs_timing_sock s}}"

lemma setup_request:
  assumes "nq_method q = ''SETUP''" "serve_request io q w = (a, w')"
  shows "cs_id (rx_session w') = cs_id (rx_session w)" "cs_closed (rx_session w') = cs_closed (rx_session w)"
    "exiting (rx_receiver w') = exiting (rx_receiver w)"
    "set (rx_open w') \<subseteq> held_sockets (rx_session w') \<union> set (rx_open w)"
proof -
  obtain p1 p2 p3 where ports: "io_ports io = (p1, p2, p3)"
    by (cases "io_ports io")
  have w': "w' = snd (handle_setup (p1, p2, p3) (base_headers q) q (on_stats (\<lambda>x. x\<lparr>sx_requests := sx_requests x + 1\<rparr>) w))"
    using assms by (auto simp: serve_request_def handle_def ports)
  show "cs_id (rx_session w') = cs_id (rx_session w)" "cs_closed (rx_session w') = cs_closed (rx_session w)"
    "exiting (rx_receiver w') = exiting (rx_receiver w)"
    "set (rx_open w') \<subseteq> held_sockets (rx_session w') \<union> set (rx_open w)"
    unfolding w' by (auto simp: handle_setup_def Let_def on_stats_def exiting_def held_sockets_def on_receiver_def
        on_session_def split: option.split)
qed


subsection \<open>Nothing stays open\<close>

definition accepted :: "host_event list \<Rightarrow> u32 list" where
  "accepted events = List.map_filter (\<lambda>e. case e of Accept i p \<Rightarrow> Some i | _ \<Rightarrow> None) events"

definition setups :: "nat \<Rightarrow> host_event list \<Rightarrow> nat" where
  "setups n events = length (filter (\<lambda>e. case e of Rtsp m io q \<Rightarrow> m = n \<and> nq_method q = ''SETUP'' | _ \<Rightarrow> False) events)"

definition conn_ok :: "nat \<Rightarrow> connection \<Rightarrow> bool" where
  "conn_ok k c \<longleftrightarrow>
     (if cn_done c then cs_closed (cn_session c) \<and> (k \<le> 1 \<longrightarrow> cn_open c = [])
      else \<not> cs_closed (cn_session c) \<and> (k = 0 \<longrightarrow> cn_open c = [])
         \<and> (k \<le> 1 \<longrightarrow> set (cn_open c) \<subseteq> held_sockets (cn_session c)))"

definition host_inv :: "host_event list \<Rightarrow> host \<Rightarrow> bool" where
  "host_inv es h \<longleftrightarrow>
     (\<forall>n \<ge> hs_next h. hs_conns h n = None)
     \<and> (\<forall>n c. hs_conns h n = Some c \<longrightarrow> conn_ok (setups n es) c \<and> cs_id (cn_session c) \<in> set (accepted es)
                 \<and> (\<not> cn_done c \<longrightarrow> hs_table h (session_text (cn_session c)) = Some n))
     \<and> (\<forall>n n' c c'. hs_conns h n = Some c \<longrightarrow> hs_conns h n' = Some c' \<longrightarrow> cs_id (cn_session c) = cs_id (cn_session c') \<longrightarrow> n = n')"

lemma conn_ok_mono: "conn_ok k c \<Longrightarrow> k \<le> k' \<Longrightarrow> conn_ok k' c"
  by (auto simp: conn_ok_def split: if_splits)

lemma setups_snoc [simp]:
  "setups n (es @ [e]) = setups n es + (case e of Rtsp m io q \<Rightarrow> if m = n \<and> nq_method q = ''SETUP'' then 1 else 0 | _ \<Rightarrow> 0)"
  by (simp add: setups_def split: host_event.split)

lemma accepted_snoc [simp]: "accepted (es @ [e]) = accepted es @ (case e of Accept i p \<Rightarrow> [i] | _ \<Rightarrow> [])"
  by (simp add: accepted_def List.map_filter_def split: host_event.split)

lemma session_text_inj: "session_text s = session_text s' \<longleftrightarrow> cs_id s = cs_id s'"
proof -
  have "in_int64 (uint (a :: u32))" for a
    using uint_bounded [of a] order_trans [of "- 9223372036854775808" 0 "uint a"] by (simp add: in_int64_def)
  then show ?thesis
    unfolding session_text_def by (metis atoi_itoa option.inject word_uint_eq_iff)
qed

lemma host_inv_snoc:
  assumes "host_inv es h" "accepted [e] = []"
  shows "host_inv (es @ [e]) h"
proof -
  have "accepted (es @ [e]) = accepted es"
    using assms(2) by (simp add: accepted_def List.map_filter_def)
  then show ?thesis
    using assms(1) conn_ok_mono [OF _ le_add1] unfolding host_inv_def setups_snoc by simp
qed

lemma host_inv_put:
  assumes "host_inv es h" "hs_conns h n = Some c" "cs_id (cn_session c') = cs_id (cn_session c)" "cn_done c' = cn_done c"
    and "conn_ok (setups n es) c'"
  shows "host_inv es (put_connection n c' r h)"
proof -
  have key: "session_text (cn_session c') = session_text (cn_session c)"
    by (simp add: session_text_inj assms(3))
  show ?thesis
    using assms unfolding host_inv_def put_connection_def by (auto simp: key)
qed

lemma close_session_fields:
  "cs_closed (rx_session (close_session w))" "cs_id (rx_session (close_session w)) = cs_id (rx_session w)"
  "rx_receiver (close_session w) = rx_receiver w"
  by (simp_all add: close_session_def)

lemma set_fold_removeAll: "set (fold removeAll xs ys) = set ys - set xs"
  by (induction xs arbitrary: ys) auto

lemma close_session_open:
  "\<not> cs_closed (rx_session w) \<Longrightarrow> set (rx_open (close_session w)) = set (rx_open w) - held_sockets (rx_session w)"
  by (auto simp: close_session_def held_sockets_def List.map_filter_def set_fold_removeAll)

lemma closed_conn_ok:
  assumes "conn_ok k c" "\<not> cn_done c" "w = close_session (reception_of c h)"
  shows "cs_closed (rx_session w)" "k \<le> 1 \<Longrightarrow> rx_open w = []"
  using assms close_session_open [of "reception_of c h"] close_session_fields(1) [of "reception_of c h"]
  by (auto simp: conn_ok_def reception_of_def simp flip: set_empty)

lemma host_inv_finish:
  assumes "host_inv es h"
  shows "host_inv es (host_finish n h)"
proof (cases "hs_conns h n")
  case None
  with assms show ?thesis
    by (simp add: host_finish_def)
next
  case (Some c)
  show ?thesis
  proof (cases "cn_done c")
    case True
    with Some assms show ?thesis
      by (simp add: host_finish_def)
  next
    case False
    define w where "w = close_session (reception_of c h)"
    obtain r stop where ended: "session_ended (rx_receiver w) = (r, stop)"
      by fastforce
    let ?c = "c\<lparr>cn_session := rx_session w, cn_open := rx_open w, cn_done := True\<rparr>"
    have ident: "cs_id (rx_session w) = cs_id (cn_session c)"
      by (simp add: w_def close_session_fields reception_of_def)
    have ok: "conn_ok (setups n es) ?c"
      using closed_conn_ok [of "setups n es" c w h] False Some assms by (simp add: conn_ok_def w_def host_inv_def)
    have fin: "hs_conns (host_finish n h) = (hs_conns h)(n \<mapsto> ?c)" "hs_next (host_finish n h) = hs_next h"
      "hs_table (host_finish n h) = (hs_table h)(session_text (cn_session c) := None)"
      using Some False ended by (simp_all add: host_finish_def w_def Let_def put_connection_def)
    have apart: "session_text (cn_session c') \<noteq> session_text (cn_session c)" if "hs_conns h m = Some c'" "m \<noteq> n" for m c'
      using that Some assms unfolding session_text_inj host_inv_def by blast
    show ?thesis
      using assms Some ok apart ident unfolding host_inv_def fin by auto
  qed
qed

lemma host_inv_on:
  assumes "host_inv es h" "\<And>w. same_wires w (f w)"
  shows "host_inv es (on_connection n f h)"
proof (cases "hs_conns h n")
  case None
  with assms show ?thesis
    by (simp add: on_connection_def)
next
  case (Some c)
  let ?w = "f (reception_of c h)"
  have w: "wiring (rx_session ?w) = wiring (cn_session c)" "rx_open ?w = cn_open c"
    using assms(2) [of "reception_of c h"] by (simp_all add: same_wires_def reception_of_def)
  then have same: "cs_id (rx_session ?w) = cs_id (cn_session c)" "cs_closed (rx_session ?w) = cs_closed (cn_session c)"
    "held_sockets (rx_session ?w) = held_sockets (cn_session c)"
    by (simp_all add: wiring_def held_sockets_def)
  have "conn_ok (setups n es) c"
    using assms(1) Some by (simp add: host_inv_def)
  then have "conn_ok (setups n es) (c\<lparr>cn_session := rx_session ?w, cn_open := rx_open ?w\<rparr>)"
    by (simp add: conn_ok_def same w)
  with assms(1) Some same(1) show ?thesis
    by (simp add: on_connection_def Let_def host_inv_put)
qed

lemma host_inv_read:
  assumes "host_inv es h" "\<And>w. same_wires w (f w)"
  shows "host_inv es (host_read n ready f h)"
  using assms host_inv_on [OF assms] by (simp add: host_read_def split: option.split)

lemma request_keeps_ok:
  assumes "conn_ok k c" "\<not> cn_done c" "serve_request io q (reception_of c h) = (a, w)"
  shows "conn_ok (k + (if nq_method q = ''SETUP'' then 1 else 0)) (c\<lparr>cn_session := rx_session w, cn_open := rx_open w, cn_reading := b\<rparr>)"
    and "cs_id (rx_session w) = cs_id (cn_session c)"
    and "exiting (rx_receiver w) = exiting (hs_receiver h)"
proof -
  have "conn_ok (k + (if nq_method q = ''SETUP'' then 1 else 0)) (c\<lparr>cn_session := rx_session w, cn_open := rx_open w, cn_reading := b\<rparr>)
      \<and> cs_id (rx_session w) = cs_id (cn_session c) \<and> exiting (rx_receiver w) = exiting (hs_receiver h)"
  proof (cases "nq_method q = ''SETUP''")
    case True
    from setup_request [OF True assms(3)] show ?thesis
      using assms(1,2) by (auto simp: conn_ok_def reception_of_def True)
  next
    case False
    from same_wires_request [OF False, of "reception_of c h" io] show ?thesis
      using assms by (simp add: same_wires_def reception_of_def wiring_def conn_ok_def held_sockets_def False)
  qed
  then show "conn_ok (k + (if nq_method q = ''SETUP'' then 1 else 0)) (c\<lparr>cn_session := rx_session w, cn_open := rx_open w, cn_reading := b\<rparr>)"
    "cs_id (rx_session w) = cs_id (cn_session c)" "exiting (rx_receiver w) = exiting (hs_receiver h)"
    by blast+
qed

lemma host_inv_request:
  assumes "host_inv es h"
  shows "host_inv (es @ [Rtsp n io q]) (host_request n io q h)"
proof -
  have later: "host_inv (es @ [Rtsp n io q]) h"
    by (rule host_inv_snoc [OF assms]) (simp add: accepted_def List.map_filter_def)
  show ?thesis
  proof (cases "\<exists>c. hs_conns h n = Some c \<and> \<not> cn_done c")
    case False
    with later show ?thesis
      by (auto simp: host_request_def split: option.split)
  next
    case True
    then obtain c where c: "hs_conns h n = Some c" "\<not> cn_done c"
      by blast
    obtain a w where served: "serve_request io q (reception_of c h) = (a, w)"
      by fastforce
    have ok: "conn_ok (setups n es) c"
      using assms c(1) by (simp add: host_inv_def)
    let ?c = "c\<lparr>cn_session := rx_session w, cn_open := rx_open w, cn_reading := cn_reading c \<or> sets_up q a\<rparr>"
    have "host_inv (es @ [Rtsp n io q]) (put_connection n ?c (rx_receiver w) h)"
    proof (rule host_inv_put [OF later c(1)])
      show "conn_ok (setups n (es @ [Rtsp n io q])) ?c"
        using request_keeps_ok(1) [OF ok c(2) served] by simp
    qed (simp_all add: request_keeps_ok(2) [OF ok c(2) served])
    with host_inv_finish [OF this] c served show ?thesis
      by (simp add: host_request_def Let_def)
  qed
qed

lemma host_inv_accept:
  assumes "host_inv es h" "ident \<notin> set (accepted es)"
  shows "host_inv (es @ [Accept ident peer]) (host_accept ident peer h)"
proof -
  have fresh: "hs_conns h (hs_next h) = None"
    using assms(1) by (simp add: host_inv_def)
  have old: "hs_conns h n = Some c \<Longrightarrow> cs_id (cn_session c) \<noteq> ident" for n c
    using assms by (auto simp: host_inv_def)
  have new: "cs_id (new_receiver_session ident peer r) = ident" "\<not> cs_closed (new_receiver_session ident peer r)" for r
    by (simp_all add: new_receiver_session_def)
  show ?thesis
    using assms(1) fresh old
    by (auto simp: host_inv_def host_accept_def Let_def accept_conn_def new conn_ok_def session_text_inj split: if_splits)
qed

lemma host_inv_step:
  assumes "host_inv es h" "distinct (accepted (es @ [e]))"
  shows "host_inv (es @ [e]) (host_step e h)"
proof (cases e)
  case (Accept i p)
  with assms show ?thesis
    by (simp add: host_inv_accept)
next
  case (Rtsp n io q)
  with assms show ?thesis
    by (simp add: host_inv_request)
qed (insert host_inv_snoc [OF assms(1), of e],
    simp_all add: accepted_def List.map_filter_def host_inv_finish host_inv_read same_wires_reads)

lemma host_run_inv: "distinct (accepted events) \<Longrightarrow> host_inv events (fold host_step events (new_host r))"
proof (induction events rule: rev_induct)
  case Nil
  show ?case
    by (simp add: host_inv_def new_host_def)
next
  case (snoc e es)
  then have "host_inv es (fold host_step es (new_host r))"
    by simp
  from host_inv_step [OF this snoc.prems] show ?case
    by simp
qed

lemma shutdown_conns:
  assumes "hs_conns h n = Some c" "\<not> cn_done c \<Longrightarrow> n \<in> set ns" "conn_ok k c" "k \<le> 1"
  shows "\<exists>c'. hs_conns (fold (\<lambda>n. on_connection n close_session) ns h) n = Some c'
     \<and> cs_closed (cn_session c') \<and> cn_open c' = []"
proof -
  have closed: "\<exists>c'. hs_conns (fold (\<lambda>n. on_connection n close_session) ns h) n = Some c'
     \<and> cs_closed (cn_session c') \<and> cn_open c' = []"
    if "hs_conns h n = Some c" "cs_closed (cn_session c)" "cn_open c = []" for ns h c
    using that
  proof (induction ns arbitrary: h c)
    case (Cons m ns)
    have "hs_conns (on_connection m close_session h) n = Some c"
      using Cons.prems by (cases "m = n") (auto simp: on_connection_def put_connection_def close_session_def reception_of_def
          split: option.split)
    from Cons.IH [OF this Cons.prems(2,3)] show ?case
      by simp
  qed simp
  show ?thesis
  proof (cases "cn_done c")
    case True
    with closed assms show ?thesis
      by (simp add: conn_ok_def)
  next
    case False
    then have "n \<in> set ns"
      using assms(2) by blast
    with assms(1) show ?thesis
    proof (induction ns arbitrary: h)
      case (Cons m ns)
      show ?case
      proof (cases "m = n")
        case True
        note shut = closed_conn_ok [OF assms(3) False refl, of h]
        have "hs_conns (on_connection m close_session h) n
          = Some (c\<lparr>cn_session := rx_session (close_session (reception_of c h)), cn_open := rx_open (close_session (reception_of c h))\<rparr>)"
          using Cons.prems(1) True by (simp add: on_connection_def put_connection_def Let_def)
        from closed [OF this, of ns] shut assms(4) show ?thesis
          by simp
      next
        case other: False
        then have "hs_conns (on_connection m close_session h) n = Some c"
          using Cons.prems(1) by (simp add: on_connection_def put_connection_def Let_def split: option.split)
        with Cons.IH [OF this] Cons.prems(2) other show ?thesis
          by simp
      qed
    qed simp
  qed
qed

text \<open>
  C26: The mock receiver leaves nothing open.  After any history of connections, requests, datagrams and
  hang-ups, shutting down closes the session of every connection there was and every socket opened for
  it, provided the connections got different numbers from the clock and each sent at most one SETUP.
\<close>

lemma receiver_closes_everything:
  assumes "h = fold host_step events (new_host r)" "enumerates ord (hs_table h)"
    and "distinct (accepted events)" "setups n events \<le> 1" "hs_conns h n = Some c"
  shows "\<exists>c'. hs_conns (host_shutdown ord h) n = Some c' \<and> cs_closed (cn_session c') \<and> cn_open c' = []"
proof -
  have inv: "host_inv events h"
    using host_run_inv [OF assms(3)] by (simp add: assms(1))
  then have "conn_ok (setups n events) c" "\<not> cn_done c \<Longrightarrow> hs_table h (session_text (cn_session c)) = Some n"
    using assms(5) by (simp_all add: host_inv_def)
  moreover from this(2) have "\<not> cn_done c \<Longrightarrow> n \<in> set (List.map_filter (hs_table h) ord)"
    using assms(2) by (auto simp: in_map_filter enumerates_def)
  ultimately show ?thesis
    unfolding host_shutdown_def by (intro shutdown_conns [OF assms(5) _ _ assms(4)]) simp_all
qed


lemma receiver_closes_everything_witness:
  "\<exists>c'. hs_conns (host_shutdown [''7''] (fold host_step
        [Accept 7 ''10.0.0.2:4000'',
         Rtsp 0 \<lparr>io_ports = (Some 6001, Some 6002, Some 6003), io_order = [], io_write_ok = True\<rparr>
           \<lparr>nq_method = ''SETUP'', nq_uri = [], nq_proto = [], nq_headers = Map.empty, nq_body = []\<rparr>]
        (new_host (receiver_of default_flags)))) 0 = Some c' \<and> cs_closed (cn_session c') \<and> cn_open c' = []"
proof -
  let ?q = "\<lparr>nq_method = ''SETUP'', nq_uri = [], nq_proto = [], nq_headers = Map.empty, nq_body = []\<rparr>"
  let ?events = "[Accept 7 ''10.0.0.2:4000'', Rtsp 0 \<lparr>io_ports = (Some 6001, Some 6002, Some 6003), io_order = [], io_write_ok = True\<rparr> ?q]"
  define h where "h = fold host_step ?events (new_host (receiver_of default_flags))"
  have seven: "itoa 7 = ''7''"
    by code_simp
  have "hs_table h = [''7'' \<mapsto> 0]" "\<exists>c. hs_conns h 0 = Some c"
    by (simp_all add: h_def host_accept_def new_host_def accept_conn_def new_receiver_session_def session_text_def seven
        host_request_def serve_request_def handle_def handle_setup_def Let_def ok_reply_def plain_reply_def put_connection_def)
  moreover have "distinct (accepted ?events)" "setups 0 ?events \<le> 1"
    by (simp_all add: accepted_def List.map_filter_def setups_def)
  ultimately show ?thesis
    using receiver_closes_everything [OF h_def, of "[''7'']" 0] by (auto simp: enumerates_def h_def)
qed

text \<open>
  A second SETUP takes the place of the first: the sockets of the first are still open and no close
  reaches them.
\<close>

lemma second_setup_leaks:
  assumes "nq_method q = ''SETUP''" "io_ports io = (Some a, Some c, Some t)" "x \<in> set (rx_open w)" "x \<notin> {a, c, t}"
  shows "x \<in> set (rx_open (close_session (snd (serve_request io q w))))"
  using assms
  by (auto simp: serve_request_def handle_def handle_setup_def Let_def close_session_def ok_reply_def plain_reply_def
      List.map_filter_def set_fold_removeAll on_session_def)

subsection \<open>The end of the run\<close>

definition grace_of :: "receiver \<Rightarrow> duration" where
  "grace_of r = (if mr_grace r \<le> 0 then 2 * second else mr_grace r)"

definition someone_done :: "host \<Rightarrow> bool" where
  "someone_done h \<longleftrightarrow> (\<exists>n c. hs_conns h n = Some c \<and> cn_done c)"

definition exit_inv :: "receiver \<Rightarrow> host \<Rightarrow> bool" where
  "exit_inv r0 h \<longleftrightarrow>
     (\<forall>n \<ge> hs_next h. hs_conns h n = None)
     \<and> mr_exit_on_end (hs_receiver h) = mr_exit_on_end r0 \<and> mr_grace (hs_receiver h) = mr_grace r0
     \<and> 0 \<le> mr_served (hs_receiver h) \<and> (mr_exit_on_end r0 \<longrightarrow> (0 < mr_served (hs_receiver h) \<longleftrightarrow> someone_done h))
     \<and> hs_timers h = (if mr_exit_on_end r0 \<and> someone_done h then [grace_of r0] else [])"

lemma someone_done_same:
  assumes "\<And>n. (case hs_conns h' n of None \<Rightarrow> False | Some c \<Rightarrow> cn_done c) = (case hs_conns h n of None \<Rightarrow> False | Some c \<Rightarrow> cn_done c)"
  shows "someone_done h' = someone_done h"
proof -
  have "someone_done h = (\<exists>n. case hs_conns h n of None \<Rightarrow> False | Some c \<Rightarrow> cn_done c)" for h
    by (auto simp: someone_done_def split: option.split)
  with assms show ?thesis
    by simp
qed

lemma exit_inv_put:
  assumes "exit_inv r0 h" "hs_conns h n = Some c" "cn_done c' = cn_done c" "exiting r = exiting (hs_receiver h)"
  shows "exit_inv r0 (put_connection n c' r h)"
proof -
  have "someone_done (put_connection n c' r h) = someone_done h"
    using assms(2,3) by (intro someone_done_same) (simp add: put_connection_def)
  with assms show ?thesis
    by (auto simp: exit_inv_def put_connection_def exiting_def)
qed

lemma exit_inv_finish:
  assumes "exit_inv r0 h"
  shows "exit_inv r0 (host_finish n h)"
proof (cases "\<exists>c. hs_conns h n = Some c \<and> \<not> cn_done c")
  case False
  with assms show ?thesis
    by (auto simp: host_finish_def split: option.split)
next
  case True
  then obtain c where c: "hs_conns h n = Some c" "\<not> cn_done c"
    by blast
  obtain r stop where ended: "session_ended (hs_receiver h) = (r, stop)"
    by fastforce
  have fin: "hs_conns (host_finish n h) n \<noteq> None" "\<And>d. hs_conns (host_finish n h) n = Some d \<Longrightarrow> cn_done d"
    "\<And>m. m \<noteq> n \<Longrightarrow> hs_conns (host_finish n h) m = hs_conns h m" "hs_next (host_finish n h) = hs_next h"
    "hs_receiver (host_finish n h) = r"
    "hs_timers (host_finish n h) = hs_timers h @ (case stop of None \<Rightarrow> [] | Some d \<Rightarrow> [d])"
    using c ended
    by (auto simp: host_finish_def Let_def put_connection_def close_session_fields reception_of_def)
  have "someone_done (host_finish n h)"
    using fin(1,2) unfolding someone_done_def by blast
  moreover have "\<forall>m \<ge> hs_next h. hs_conns (host_finish n h) m = None"
    using assms c(1) fin(3) unfolding exit_inv_def by (metis option.distinct(1))
  ultimately show ?thesis
    using assms ended unfolding exit_inv_def fin(4,5,6)
    by (auto simp: session_ended_def Let_def grace_of_def split: if_splits)
qed

lemma exit_inv_read:
  assumes "exit_inv r0 h" "\<And>w. same_wires w (f w)"
  shows "exit_inv r0 (host_read n ready f h)"
proof (cases "hs_conns h n")
  case None
  with assms(1) show ?thesis
    by (simp add: host_read_def)
next
  case (Some c)
  have "exiting (rx_receiver (f (reception_of c h))) = exiting (hs_receiver h)"
    using assms(2) [of "reception_of c h"] by (simp add: same_wires_def reception_of_def)
  with assms(1) Some show ?thesis
    by (simp add: host_read_def on_connection_def Let_def exit_inv_put)
qed

lemma exit_inv_request:
  assumes "exit_inv r0 h"
  shows "exit_inv r0 (host_request n io q h)"
proof (cases "\<exists>c. hs_conns h n = Some c \<and> \<not> cn_done c")
  case False
  with assms show ?thesis
    by (auto simp: host_request_def split: option.split)
next
  case True
  then obtain c where c: "hs_conns h n = Some c" "\<not> cn_done c"
    by blast
  obtain a w where served: "serve_request io q (reception_of c h) = (a, w)"
    by fastforce
  have "exiting (rx_receiver w) = exiting (hs_receiver h)"
    using setup_request(3) [OF _ served] same_wires_request [of q "reception_of c h" io] served
    by (cases "nq_method q = ''SETUP''") (simp_all add: same_wires_def reception_of_def)
  then have "exit_inv r0 (put_connection n
      (c\<lparr>cn_session := rx_session w, cn_open := rx_open w, cn_reading := cn_reading c \<or> sets_up q a\<rparr>) (rx_receiver w) h)"
    by (intro exit_inv_put [OF assms c(1)]) simp_all
  with exit_inv_finish [OF this] c served show ?thesis
    by (simp add: host_request_def Let_def)
qed

interpretation exit_timer: machine host_step "exit_inv r0"
proof unfold_locales
  fix h e assume inv: "exit_inv r0 h"
  show "exit_inv r0 (host_step e h)"
  proof (cases e)
    case (Accept i p)
    have "someone_done (host_accept i p h) = someone_done h"
      using inv by (intro someone_done_same) (simp add: host_accept_def Let_def exit_inv_def)
    with inv Accept show ?thesis
      by (auto simp: exit_inv_def host_accept_def Let_def)
  qed (simp_all add: inv exit_inv_finish exit_inv_read same_wires_reads exit_inv_request)
qed

text \<open>
  The receiver stops itself once.  With \<open>-exit-after-session\<close> the first connection to end, however it
  ends, orders the stop after the grace period (two seconds when it is not positive), and no later end
  orders another; without the flag no end of a connection does.
\<close>

lemma exit_ordered_once:
  "hs_timers (fold host_step events (new_host (receiver_of opts)))
   = (if mf_exit opts \<and> someone_done (fold host_step events (new_host (receiver_of opts)))
      then [if mf_grace opts \<le> 0 then 2 * second else mf_grace opts] else [])"
proof -
  have "exit_inv (receiver_of opts) (new_host (receiver_of opts))"
    by (simp add: exit_inv_def new_host_def receiver_of_def new_receiver_def someone_done_def)
  from exit_timer.run_inv [OF this, of events] show ?thesis
    by (simp add: exit_inv_def grace_of_def receiver_of_def new_receiver_def)
qed


text \<open>An error of Accept that does not mean the listener is closed is retried at once, however often.\<close>

lemma accept_errors_retried:
  "\<not> sublist ''use of closed'' e \<Longrightarrow> accept_loop (replicate n (False, Some e) @ rs) = accept_loop rs"
  by (induction n) simp_all

end
