(* ===== verification/Ffmpeg.thy ===== *)
theory Ffmpeg
  imports Audio
begin

text \<open>
  The ffmpeg process behind a decoder (audio/decoder.go): its pipe, \<open>Read\<close>, \<open>Close\<close> and the goroutines of
  \<open>NewDecoder\<close>, as a step relation whose events are those of the process and those of the callers.
\<close>

subsection \<open>The process and its pipe\<close>

text \<open>
  \<open>ff_wrote\<close> is everything ffmpeg has written, \<open>ff_got\<close> what \<open>Read\<close> has returned, \<open>ff_pipe\<close> what is
  between them.  \<open>ff_waited\<close> is the channel that is closed when \<open>cmd.Wait\<close> has returned; \<open>ff_closing\<close>
  counts the callers of \<open>Close\<close> that wait for it.
\<close>

record ffmpeg =
  ff_wrote :: "byte list"
  ff_pipe :: "byte list"
  ff_got :: "byte list"
  ff_running :: bool
  ff_stdout :: bool
  ff_waited :: bool
  ff_decoder :: decoder
  ff_kills :: nat
  ff_closing :: nat

definition start_ffmpeg :: ffmpeg where
  "start_ffmpeg =
     \<lparr>ff_wrote = [], ff_pipe = [], ff_got = [], ff_running = True, ff_stdout = True, ff_waited = False,
      ff_decoder = \<lparr>dec_closed = False\<rparr>, ff_kills = 0, ff_closing = 0\<rparr>"

fun process_effect :: "process_effect \<Rightarrow> ffmpeg \<Rightarrow> ffmpeg" where
  "process_effect Close_Stdout s = s\<lparr>ff_stdout := False\<rparr>"
| "process_effect Kill_Process s = s\<lparr>ff_kills := ff_kills s + 1\<rparr>"
| "process_effect Wait_Exit s = s\<lparr>ff_closing := ff_closing s + 1\<rparr>"

text \<open>A call of \<open>Close\<close>: by the owner of the decoder, or by the goroutine that waits for the context.\<close>

definition call_close :: "ffmpeg \<Rightarrow> ffmpeg" where
  "call_close s = (case decoder_close (ff_decoder s) of (d, effects) \<Rightarrow> fold process_effect effects (s\<lparr>ff_decoder := d\<rparr>))"

text \<open>What \<open>stdout.Read\<close> gives: up to \<open>n\<close> bytes, an error, or \<open>None\<close> while it blocks.\<close>

definition stdout_read :: "nat \<Rightarrow> ffmpeg \<Rightarrow> (byte list \<times> read_error option) option" where
  "stdout_read n s =
     (if \<not> ff_stdout s then Some ([], Some File_Closed)
      else if ff_pipe s \<noteq> [] then Some (take n (ff_pipe s), None)
      else if ff_running s then None else Some ([], Some End_Of_File))"

definition decoder_read :: "nat \<Rightarrow> ffmpeg \<Rightarrow> ((byte list \<times> read_error option) \<times> ffmpeg) option" where
  "decoder_read n s =
     map_option (\<lambda>(d, err). ((d, normalize_read_error err),
                             s\<lparr>ff_got := ff_got s @ d, ff_pipe := drop (length d) (ff_pipe s)\<rparr>)) (stdout_read n s)"

datatype ffmpeg_event =
    Writes "byte list"
  | Exits
  | Wait_Returns
  | Read_Returns nat "byte list" "read_error option"
  | Close_Called
  | Close_Returns

text \<open>
  The pipe holds \<open>room\<close> bytes.  \<open>cmd.Wait\<close> returns when the process has exited and closes the read end of
  the pipe before it does.
\<close>

inductive ffmpeg_step :: "nat \<Rightarrow> ffmpeg \<Rightarrow> ffmpeg_event \<Rightarrow> ffmpeg \<Rightarrow> bool" for room where
  writes: "ff_running s \<Longrightarrow> ff_stdout s \<Longrightarrow> length (ff_pipe s) + length d \<le> room
     \<Longrightarrow> ffmpeg_step room s (Writes d) (s\<lparr>ff_wrote := ff_wrote s @ d, ff_pipe := ff_pipe s @ d\<rparr>)"
| exits: "ff_running s \<Longrightarrow> ffmpeg_step room s Exits (s\<lparr>ff_running := False\<rparr>)"
| waited: "\<not> ff_running s \<Longrightarrow> \<not> ff_waited s \<Longrightarrow> ffmpeg_step room s Wait_Returns (s\<lparr>ff_stdout := False, ff_waited := True\<rparr>)"
| reads: "decoder_read n s = Some ((d, err), s') \<Longrightarrow> ffmpeg_step room s (Read_Returns n d err) s'"
| close_called: "ffmpeg_step room s Close_Called (call_close s)"
| close_returns: "ff_waited s \<Longrightarrow> ff_closing s = Suc n \<Longrightarrow> ffmpeg_step room s Close_Returns (s\<lparr>ff_closing := n\<rparr>)"

inductive ffmpeg_run :: "nat \<Rightarrow> ffmpeg \<Rightarrow> ffmpeg_event list \<Rightarrow> ffmpeg \<Rightarrow> bool" for room where
  idle: "ffmpeg_run room s [] s"
| move: "ffmpeg_step room s e s1 \<Longrightarrow> ffmpeg_run room s1 es s2 \<Longrightarrow> ffmpeg_run room s (e # es) s2"

inductive_cases ffmpeg_stepE: "ffmpeg_step room s e s1"

inductive_simps ffmpeg_run_simps [simp]: "ffmpeg_run room s [] s2" "ffmpeg_run room s (e # es) s2"

inductive_simps ffmpeg_step_simps [simp]:
  "ffmpeg_step room s (Writes d) s1" "ffmpeg_step room s Exits s1" "ffmpeg_step room s Wait_Returns s1"
  "ffmpeg_step room s (Read_Returns n d err) s1" "ffmpeg_step room s Close_Called s1" "ffmpeg_step room s Close_Returns s1"

fun written :: "ffmpeg_event list \<Rightarrow> byte list" where
  "written [] = []"
| "written (Writes d # es) = d @ written es"
| "written (_ # es) = written es"

fun read_out :: "ffmpeg_event list \<Rightarrow> byte list" where
  "read_out [] = []"
| "read_out (Read_Returns n d err # es) = d @ read_out es"
| "read_out (_ # es) = read_out es"

definition ffmpeg_inv :: "nat \<Rightarrow> ffmpeg \<Rightarrow> bool" where
  "ffmpeg_inv room s \<longleftrightarrow>
     ff_wrote s = ff_got s @ ff_pipe s \<and> length (ff_pipe s) \<le> room
     \<and> (ff_waited s \<longrightarrow> \<not> ff_running s \<and> \<not> ff_stdout s)
     \<and> (if dec_closed (ff_decoder s) then \<not> ff_stdout s \<and> ff_kills s = 1 else ff_kills s = 0 \<and> ff_closing s = 0)"

lemma call_close_fields [simp]:
  "ff_wrote (call_close s) = ff_wrote s" "ff_pipe (call_close s) = ff_pipe s" "ff_got (call_close s) = ff_got s"
  "ff_running (call_close s) = ff_running s" "ff_waited (call_close s) = ff_waited s"
  "dec_closed (ff_decoder (call_close s))" "ff_closing (call_close s) = ff_closing s + 1"
  "ff_stdout (call_close s) \<longleftrightarrow> ff_stdout s \<and> dec_closed (ff_decoder s)"
  "ff_kills (call_close s) = ff_kills s + (if dec_closed (ff_decoder s) then 0 else 1)"
  by (simp_all add: call_close_def decoder_close_def)

lemma decoder_read_Some:
  assumes "decoder_read n s = Some ((d, err), s')"
  shows "s' = s\<lparr>ff_got := ff_got s @ d, ff_pipe := drop (length d) (ff_pipe s)\<rparr>"
    and "d @ drop (length d) (ff_pipe s) = ff_pipe s"
    and "err = None \<or> err = Some End_Of_File \<and> d = [] \<and> (\<not> ff_stdout s \<or> ff_pipe s = [] \<and> \<not> ff_running s)"
  using assms
  by (auto simp: decoder_read_def stdout_read_def normalize_read_error_def min_def split: if_splits)

lemma ffmpeg_step_inv: "ffmpeg_step room s e s1 \<Longrightarrow> ffmpeg_inv room s \<Longrightarrow> ffmpeg_inv room s1"
proof (cases rule: ffmpeg_step.cases)
  fix n d err
  assume "ffmpeg_inv room s" "decoder_read n s = Some ((d, err), s1)"
  then show ?thesis
    using decoder_read_Some [of n s d err s1] by (auto simp: ffmpeg_inv_def)
qed (auto simp: ffmpeg_inv_def split: if_splits)

lemma ffmpeg_run_inv: "ffmpeg_run room s es s1 \<Longrightarrow> ffmpeg_inv room s \<Longrightarrow> ffmpeg_inv room s1"
  by (induction rule: ffmpeg_run.induct) (auto dest: ffmpeg_step_inv)

lemma start_ffmpeg_inv: "ffmpeg_inv room start_ffmpeg"
  by (simp add: ffmpeg_inv_def start_ffmpeg_def)

lemma ffmpeg_run_log: "ffmpeg_run room s es s1 \<Longrightarrow> ff_wrote s1 = ff_wrote s @ written es \<and> ff_got s1 = ff_got s @ read_out es"
proof (induction rule: ffmpeg_run.induct)
  case (move s e s1 es s2)
  have "ff_wrote s1 = ff_wrote s @ written [e] \<and> ff_got s1 = ff_got s @ read_out [e]"
    using move.hyps(1) by (cases rule: ffmpeg_step.cases) (auto dest: decoder_read_Some)
  then show ?case
    using move.IH by (cases e) auto
qed simp

lemma ffmpeg_run_append: "ffmpeg_run room s es s1 \<Longrightarrow> ffmpeg_run room s1 fs s2 \<Longrightarrow> ffmpeg_run room s (es @ fs) s2"
  by (induction rule: ffmpeg_run.induct) auto

fun read_errors :: "ffmpeg_event list \<Rightarrow> read_error list" where
  "read_errors [] = []"
| "read_errors (Read_Returns n d err # es) = (case err of None \<Rightarrow> [] | Some x \<Rightarrow> [x]) @ read_errors es"
| "read_errors (_ # es) = read_errors es"

lemma read_errors_ends: "ffmpeg_run room s es s1 \<Longrightarrow> set (read_errors es) \<subseteq> {End_Of_File}"
proof (induction rule: ffmpeg_run.induct)
  case (move s e s1 es s2)
  have "set (read_errors [e]) \<subseteq> {End_Of_File}"
    using move.hyps(1) by (cases rule: ffmpeg_step.cases) (auto dest: decoder_read_Some(3))
  moreover have "read_errors (e # es) = read_errors [e] @ read_errors es"
    by (cases e) auto
  ultimately show ?case
    using move.IH by simp
qed simp

subsection \<open>What the reader gets\<close>

text \<open>
  C27: The decoder hands out what ffmpeg wrote, in order, and nothing else: what was read is what was
  written up to what is left in the pipe, which is bounded.  A failed read is always the end of the
  stream, never another error, and when the end is found in the pipe itself nothing is missing.
  ffmpeg is killed at most once, however often the decoder is closed.
\<close>

lemma decoder_reads_in_order:
  assumes "ffmpeg_run room start_ffmpeg es s"
  shows "read_out es @ ff_pipe s = written es \<and> length (ff_pipe s) \<le> room
       \<and> set (read_errors es) \<subseteq> {End_Of_File} \<and> ff_kills s \<le> 1
       \<and> (\<forall>n err s'. decoder_read n s = Some (([], Some err), s') \<longrightarrow> ff_stdout s \<longrightarrow> read_out es = written es)"
proof (intro conjI allI impI)
  have inv: "ffmpeg_inv room s"
    using ffmpeg_run_inv [OF assms start_ffmpeg_inv] .
  show all: "read_out es @ ff_pipe s = written es"
    using inv ffmpeg_run_log [OF assms] by (simp add: ffmpeg_inv_def start_ffmpeg_def)
  show "length (ff_pipe s) \<le> room" "ff_kills s \<le> 1"
    using inv by (auto simp: ffmpeg_inv_def split: if_splits)
  show "set (read_errors es) \<subseteq> {End_Of_File}"
    by (rule read_errors_ends [OF assms])
  show "read_out es = written es" if "decoder_read n s = Some (([], Some err), s')" "ff_stdout s" for n err s'
    using decoder_read_Some(3) [OF that(1)] that(2) all by auto
qed

lemma decoder_reads_in_order_witness:
  "\<exists>s. ffmpeg_run 4 start_ffmpeg [Writes [1, 2, 3], Read_Returns 2 [1, 2] None, Exits] s
     \<and> read_out [Writes [1, 2, 3], Read_Returns 2 [1, 2] None, Exits] @ ff_pipe s = [1, 2, 3]"
proof -
  have "\<exists>s. ffmpeg_run 4 start_ffmpeg [Writes [1, 2, 3], Read_Returns 2 [1, 2] None, Exits] s"
    by (simp add: start_ffmpeg_def decoder_read_def stdout_read_def normalize_read_error_def)
  then obtain s where s: "ffmpeg_run 4 start_ffmpeg [Writes [1, 2, 3], Read_Returns 2 [1, 2] None, Exits] s"
    by blast
  from decoder_reads_in_order [OF this] s show ?thesis
    by (auto simp del: ffmpeg_run_simps)
qed

text \<open>
  What is left in the pipe can be lost.  \<open>NewDecoder\<close> calls \<open>cmd.Wait\<close> while the pipe is still being read:
  when ffmpeg has written its last bytes and exits, Wait closes the pipe, and the next read is the end
  of the stream, whatever the pipe held, though nobody closed the decoder.
\<close>

lemma decoder_tail_lost:
  assumes "length d \<le> room"
  shows "\<exists>s. ffmpeg_run room start_ffmpeg [Writes d, Exits, Wait_Returns, Read_Returns n [] (Some End_Of_File)] s
       \<and> ff_got s = [] \<and> \<not> dec_closed (ff_decoder s)"
  using assms by (simp add: start_ffmpeg_def decoder_read_def stdout_read_def normalize_read_error_def)

lemma closers_return:
  "ff_waited s \<Longrightarrow> ffmpeg_run room s (replicate (ff_closing s) Close_Returns) (s\<lparr>ff_closing := 0\<rparr>)"
proof (induction "ff_closing s" arbitrary: s)
  case (Suc n)
  have "ffmpeg_run room (s\<lparr>ff_closing := n\<rparr>) (replicate n Close_Returns) (s\<lparr>ff_closing := 0\<rparr>)"
    using Suc.hyps(1) [of "s\<lparr>ff_closing := n\<rparr>"] Suc.prems by simp
  then show ?case
    using Suc.hyps(2) [symmetric] Suc.prems by auto
qed simp

text \<open>
  Closing does not hang.  Once a killed ffmpeg exits, every caller of \<open>Close\<close>, the first and the
  others, returns, without anybody reading the pipe; and none returns before the process is gone.
\<close>

lemma close_returns_after_exit:
  assumes "ffmpeg_run room start_ffmpeg es s"
  shows "(\<exists>fs s'. ffmpeg_run room s fs s' \<and> set fs \<subseteq> {Exits, Wait_Returns, Close_Returns} \<and> length fs \<le> ff_closing s + 2
            \<and> ff_closing s' = 0)
       \<and> (\<forall>s'. ffmpeg_step room s Close_Returns s' \<longrightarrow> \<not> ff_running s)"
proof
  have inv: "ffmpeg_inv room s"
    using ffmpeg_run_inv [OF assms start_ffmpeg_inv] .
  then show "\<forall>s'. ffmpeg_step room s Close_Returns s' \<longrightarrow> \<not> ff_running s"
    by (auto simp: ffmpeg_inv_def)
  have "\<exists>es s1. ffmpeg_run room s es s1 \<and> set es \<subseteq> {Exits, Wait_Returns, Close_Returns} \<and> length es \<le> 2 \<and> ff_waited s1
      \<and> ff_closing s1 = ff_closing s"
  proof (cases "ff_waited s")
    case True
    then show ?thesis
      by (intro exI [of _ "[]"] exI [of _ s]) simp
  next
    case False
    let ?s = "s\<lparr>ff_running := False, ff_stdout := False, ff_waited := True\<rparr>"
    have "ffmpeg_run room s (if ff_running s then [Exits, Wait_Returns] else [Wait_Returns]) ?s"
      using False by simp
    then show ?thesis
      by (intro exI conjI, assumption) auto
  qed
  then obtain es s1 where s1: "ffmpeg_run room s es s1" "set es \<subseteq> {Exits, Wait_Returns, Close_Returns}" "length es \<le> 2"
    "ff_waited s1" "ff_closing s1 = ff_closing s"
    by blast
  note run = ffmpeg_run_append [OF s1(1) closers_return [OF s1(4)]]
  show "\<exists>fs s'. ffmpeg_run room s fs s' \<and> set fs \<subseteq> {Exits, Wait_Returns, Close_Returns} \<and> length fs \<le> ff_closing s + 2
      \<and> ff_closing s' = 0"
    by (intro exI conjI, rule run) (use s1(2,3,5) in \<open>auto simp: set_replicate_conv_if\<close>)
qed

end
