(* ===== verification/Logging.thy ===== *)
theory Logging
  imports Api
begin

text \<open>
  The logging package (logging/logging.go): the level of the logger, and the record of a request that the
  middleware of api/router.go leaves in it.
\<close>

subsection \<open>Levels\<close>

datatype log_level = Debug_Level | Info_Level | Warn_Level | Error_Level

text \<open>The numbers of log/slog.\<close>

fun level_number :: "log_level \<Rightarrow> int" where
  "level_number Debug_Level = -4"
| "level_number Info_Level = 0"
| "level_number Warn_Level = 4"
| "level_number Error_Level = 8"

lemma level_number_inj: "level_number a = level_number b \<longleftrightarrow> a = b"
  by (cases a; cases b) simp_all

instantiation log_level :: linorder
begin

definition less_eq_log_level :: "log_level \<Rightarrow> log_level \<Rightarrow> bool" where
  "a \<le> b \<longleftrightarrow> level_number a \<le> level_number b"

definition less_log_level :: "log_level \<Rightarrow> log_level \<Rightarrow> bool" where
  "a < b \<longleftrightarrow> level_number a < level_number b"

instance
  by standard (auto simp: less_eq_log_level_def less_log_level_def level_number_inj)

end

text \<open>\<open>New\<close>: the threshold of the logger.\<close>

definition new_logger :: "string \<Rightarrow> log_level" where
  "new_logger level =
     (let l = to_lower (trim_space level)
      in if l = ''debug'' then Debug_Level
         else if l \<in> {''warn'', ''warning''} then Warn_Level
         else if l = ''error'' then Error_Level
         else Info_Level)"

definition emitted :: "log_level \<Rightarrow> (log_level \<times> 'a) list \<Rightarrow> 'a list" where
  "emitted threshold records = map snd (filter (\<lambda>(l, _). threshold \<le> l) records)"

lemma emitted_refines: "a \<le> b \<Longrightarrow> emitted b records = emitted b (filter (\<lambda>(l, _). a \<le> l) records)"
  by (induction records) (auto simp: emitted_def)

lemma errors_always_emitted: "(Error_Level, x) \<in> set records \<Longrightarrow> x \<in> set (emitted (new_logger level) records)"
  by (auto simp: emitted_def less_eq_log_level_def image_iff Bex_def) (cases "new_logger level"; force)

subsection \<open>The record of a request\<close>

text \<open>
  \<open>withLogging\<close> stands inside \<open>withCORS\<close>, so a preflight request is not recorded; \<open>statusRecorder\<close> keeps
  the status the handler writes.
\<close>

record access_record =
  ac_method :: string
  ac_path :: string
  ac_status :: int

definition with_logging :: "request_io \<Rightarrow> http_request \<Rightarrow> server \<Rightarrow> (log_level \<times> access_record) list \<times> (int \<times> response_body) \<times> server" where
  "with_logging rio q sv =
     (case serve rio q sv of
        (reply, sv') \<Rightarrow>
          (if hq_method q = ''OPTIONS'' then []
           else [(Debug_Level, \<lparr>ac_method = hq_method q, ac_path = hq_path q, ac_status = fst reply\<rparr>)], reply, sv'))"

lemma logging_transparent: "snd (with_logging rio q sv) = serve rio q sv"
  by (simp add: with_logging_def split: prod.split)

end
