(* ===== verification/Loops.thy ===== *)
theory Loops
  imports Browse
begin

text \<open>
  The loops that run beside the bridge: the sweep of cmd/bridge/main.go and \<open>Reap\<close> of engine/manager.go as
  loops over what their select gives, against the ticks of \<open>bridge_step\<close>; and the choice of interfaces of
  discovery/mdns.go.
\<close>

subsection \<open>The expiry sweep\<close>

text \<open>
  Each turn of a loop selects between the end of the context, \<open>None\<close>, and a tick: the time and the
  order in which the maps are ranged over.  The results are what the loop did and whether it returned.
\<close>

fun sweep_loop :: "(time \<times> string list) option list \<Rightarrow> registry \<Rightarrow> (device list \<times> bool) \<times> registry" where
  "sweep_loop [] r = (([], False), r)"
| "sweep_loop (None # turns) r = (([], True), r)"
| "sweep_loop (Some (now, ord) # turns) r =
     (case sweep now ord r of (r', gone) \<Rightarrow>
        (case sweep_loop turns r' of ((later, returned), r'') \<Rightarrow> ((gone @ later, returned), r'')))"

fun reap_loop :: "(time \<times> (string \<Rightarrow> string list) \<times> string list) option list \<Rightarrow> manager \<Rightarrow> bool \<times> manager" where
  "reap_loop [] m = (False, m)"
| "reap_loop (None # turns) m = (True, m)"
| "reap_loop (Some (now, rord, ord) # turns) m = reap_loop turns (prune now rord ord m)"

lemma sweep_loop_stops:
  "sweep_loop (map Some ts @ None # turns) r = ((fst (fst (sweep_loop (map Some ts) r)), True), snd (sweep_loop (map Some ts) r))"
  by (induction ts arbitrary: r) (auto split: prod.split)

lemma reap_loop_stops: "reap_loop (map Some ts @ None # turns) m = (True, snd (reap_loop (map Some ts) m))"
  by (induction ts arbitrary: m) auto

lemma with_registry_again: "with_registry g (with_registry f b) = with_registry (\<lambda>r. g (f r)) b"
  by (simp add: with_registry_def with_manager_def server_registry_def set_registry_def split: option.split)

lemma with_registry_same: "mg_registry (br_manager b) \<noteq> None \<Longrightarrow> with_registry (\<lambda>r. r) b = b"
  by (auto simp: with_registry_def with_manager_def server_registry_def set_registry_def br_manager_def)

lemma with_registry_view [simp]:
  "discovering (with_registry f b) = discovering b" "mg_registry (br_manager (with_registry f b)) \<noteq> None"
  by (simp_all add: with_registry_def with_manager_def set_registry_def br_manager_def discovering_def)

lemma snd_sweep_loop: "snd (sweep_loop (Some (now, ord) # turns) r) = snd (sweep_loop turns (fst (sweep now ord r)))"
  by (simp split: prod.split)

text \<open>
  The two loops do to the bridge what the ticks of its step machine do, and stop doing it when the
  context ends.
\<close>

lemma sweep_loop_is_ticks:
  assumes "discovering b" "mg_registry (br_manager b) \<noteq> None"
  shows "fold bridge_step (map (\<lambda>(now, ord). Sweep_Tick now ord) ts) b
       = with_registry (\<lambda>r. snd (sweep_loop (map Some ts @ None # turns) r)) b"
  using assms
proof (induction ts arbitrary: b)
  case Nil
  then show ?case
    by (simp add: with_registry_same)
next
  case (Cons t ts)
  obtain now ord where t: "t = (now, ord)"
    by fastforce
  let ?b = "with_registry (\<lambda>r. fst (sweep now ord r)) b"
  have "fold bridge_step (map (\<lambda>(now, ord). Sweep_Tick now ord) (t # ts)) b
      = fold bridge_step (map (\<lambda>(now, ord). Sweep_Tick now ord) ts) ?b"
    using Cons.prems(1) by (simp add: t)
  also have "\<dots> = with_registry (\<lambda>r. snd (sweep_loop (map Some ts @ None # turns) r)) ?b"
    using Cons.IH [of ?b] Cons.prems(1) by simp
  finally show ?case
    by (simp add: with_registry_again t snd_sweep_loop del: sweep_loop.simps)
qed

lemma reap_loop_is_ticks:
  assumes "br_phase b = Running"
  shows "fold bridge_step (map (\<lambda>(now, rord, ord). Reap_Tick now rord ord) ts) b
       = with_manager (\<lambda>m. snd (reap_loop (map Some ts @ None # turns) m)) b"
  using assms
proof (induction ts arbitrary: b)
  case (Cons t ts)
  obtain now rord ord where t: "t = (now, rord, ord)"
    using prod_cases3 by blast
  let ?b = "with_manager (prune now rord ord) b"
  have "br_phase ?b = Running"
    using Cons.prems by (simp add: with_manager_def)
  from Cons.IH [OF this] show ?case
    using Cons.prems by (simp add: t with_manager_def)
qed (simp add: with_manager_def)


subsection \<open>The interfaces of the resolver\<close>

text \<open>
  \<open>resolverOptions\<close>: the interfaces that have the configured address, \<open>None\<close> for the default of the
  resolver, which is all of them.  \<open>parse_ip\<close> is \<open>net.ParseIP\<close>; an interface is a name and its addresses,
  \<open>None\<close> where they cannot be read.
\<close>

definition resolver_options ::
  "(string \<Rightarrow> 'ip option) \<Rightarrow> (string \<times> 'ip list option) list option \<Rightarrow> string \<Rightarrow> string list option" where
  "resolver_options parse_ip interfaces iface_ip =
     (if iface_ip = [] then None
      else (case parse_ip iface_ip of
              None \<Rightarrow> None
            | Some target \<Rightarrow>
                (case interfaces of
                   None \<Rightarrow> None
                 | Some ifaces \<Rightarrow>
                     (let selected = map fst (filter (\<lambda>(_, addrs). case addrs of None \<Rightarrow> False | Some xs \<Rightarrow> target \<in> set xs) ifaces)
                      in if selected = [] then None else Some selected))))"

text \<open>
  A selection is never empty and names only interfaces with the address; an address no interface has
  selects all of them.
\<close>

lemma resolver_selects:
  "resolver_options parse_ip interfaces iface_ip = Some names
   \<Longrightarrow> names \<noteq> [] \<and> (\<exists>target ifaces. parse_ip iface_ip = Some target \<and> interfaces = Some ifaces
         \<and> set names = {n. \<exists>xs. (n, Some xs) \<in> set ifaces \<and> target \<in> set xs})"
  by (auto simp: resolver_options_def Let_def image_iff split: if_splits option.splits) force+

lemma resolver_default:
  "parse_ip iface_ip = Some target \<Longrightarrow> \<forall>n xs. (n, Some xs) \<in> set ifaces \<longrightarrow> target \<notin> set xs
   \<Longrightarrow> resolver_options parse_ip (Some ifaces) iface_ip = None"
  by (auto simp: resolver_options_def Let_def filter_empty_conv split: option.splits)

end
