(* ===== verification/Pipes.thy ===== *)
theory Pipes
  imports Cli
begin

text \<open>
  The command pipe of the external kernel on the two platforms (engine/cmdpipe_unix.go, whose Write,
  Attach and Close are in theory Cli, and engine/cmdpipe_windows.go).
\<close>

subsection \<open>Opening the command pipe\<close>

text \<open>What \<open>os.Remove\<close> of a stale pipe gives.\<close>

datatype remove_result = Removed | Not_There | Remove_Failed

definition unix_open_pipe :: "remove_result \<Rightarrow> bool \<Rightarrow> cmd_pipe option" where
  "unix_open_pipe removed fifo_ok =
     (if removed = Remove_Failed then None
      else if \<not> fifo_ok then None
      else Some \<lparr>cp_file = None, cp_text = [], cp_removed = False\<rparr>)"

text \<open>There are no such pipes on Windows: every operation but Close is an error.\<close>

definition windows_open_pipe :: "string \<Rightarrow> cmd_pipe option" where
  "windows_open_pipe path = None"

definition windows_attach :: "cmd_pipe \<Rightarrow> engine_error option" where
  "windows_attach p = Some Pipe_Unavailable"

definition windows_write :: "string \<Rightarrow> cmd_pipe \<Rightarrow> engine_error option" where
  "windows_write command p = Some Pipe_Unavailable"

definition windows_close :: "cmd_pipe \<Rightarrow> engine_error option" where
  "windows_close p = None"

text \<open>
  The pipe with which \<open>cli_start\<close> of theory Cli goes on is the one the Unix version opens: created and
  not attached, so a command written before the process attaches is an error.
\<close>

lemma unix_pipe_not_attached:
  "unix_open_pipe removed fifo_ok = Some p \<Longrightarrow> p = \<lparr>cp_file = None, cp_text = [], cp_removed = False\<rparr>
     \<and> pipe_write ok txt p = (p, Some Pipe_Not_Attached)"
  by (auto simp: unix_open_pipe_def pipe_write_def split: if_splits)

text \<open>
  On Windows the external kernel starts nothing: when the executable is there the start fails on the
  pipe, the session has failed, and there is no decoder, no process and no pipe.
\<close>

lemma external_kernel_needs_unix:
  assumes "ce_pipe env = (windows_open_pipe path \<noteq> None)" "cl_source c0 = None" "cl_pipe c0 = None" "\<not> cl_cmd c0"
    and "cli_start env req c0 = (c, err)"
  shows "err = Some (if ce_available env then Pipe_Unavailable else Binary_Not_Found (co_binary (cl_opts c0)))
       \<and> cl_source c = None \<and> cl_pipe c = None \<and> \<not> cl_cmd c"
  using assms by (auto simp: cli_start_def windows_open_pipe_def Let_def on_cli_base_def split: if_splits)

end
