(* ===== verification/Capture.thy ===== *)
theory Capture
  imports Host Play
begin

text \<open>
  The test rig of the repository as a whole: the sender of src/internal/raop playing to the process of
  src/cmd/mockreceiver until it writes its capture file.
\<close>

subsection \<open>A connection of the process is a connection of theory Receiver\<close>

definition alike :: "reception \<Rightarrow> reception \<Rightarrow> bool" where
  "alike w v \<longleftrightarrow> rx_session w = rx_session v \<and> rx_receiver w = rx_receiver v \<and> rx_open w = rx_open v"

lemma alike_out: "alike w v \<Longrightarrow> v = w\<lparr>rx_out := rx_out v\<rparr>"
  by (simp add: alike_def)

lemma alike_refl [simp]: "alike w w" "alike w (w\<lparr>rx_out := xs\<rparr>)"
  by (simp_all add: alike_def)

lemma alike_setup:
  "fst (handle_setup ports base q (w\<lparr>rx_out := xs\<rparr>)) = fst (handle_setup ports base q w)"
  "alike (snd (handle_setup ports base q w)) (snd (handle_setup ports base q (w\<lparr>rx_out := xs\<rparr>)))"
proof -
  obtain p1 p2 p3 where ports: "ports = (p1, p2, p3)"
    by (cases ports)
  show "fst (handle_setup ports base q (w\<lparr>rx_out := xs\<rparr>)) = fst (handle_setup ports base q w)"
    unfolding ports handle_setup_def Let_def by (cases p1; cases p2; cases p3) simp_all
  show "alike (snd (handle_setup ports base q w)) (snd (handle_setup ports base q (w\<lparr>rx_out := xs\<rparr>)))"
    unfolding ports handle_setup_def Let_def by (cases p1; cases p2; cases p3) (simp_all add: alike_def on_session_def)
qed

lemma alike_session: "alike (on_session f w) (on_session f (w\<lparr>rx_out := xs\<rparr>))"
  by (simp add: alike_def on_session_def)

lemma alike_handle:
  "fst (handle ports q (w\<lparr>rx_out := xs\<rparr>)) = fst (handle ports q w)"
  "alike (snd (handle ports q w)) (snd (handle ports q (w\<lparr>rx_out := xs\<rparr>)))"
  unfolding handle_def Let_def by (simp_all add: alike_setup alike_session)

lemma alike_serve:
  assumes "alike w v"
  shows "fst (serve_request io q v) = fst (serve_request io q w)" "alike (snd (serve_request io q w)) (snd (serve_request io q v))"
proof -
  obtain xs where v: "v = w\<lparr>rx_out := xs\<rparr>"
    using alike_out [OF assms] by blast
  have stats: "on_stats f v = (on_stats f w)\<lparr>rx_out := xs\<rparr>" for f
    by (simp add: v on_stats_def on_receiver_def)
  show "fst (serve_request io q v) = fst (serve_request io q w)" "alike (snd (serve_request io q w)) (snd (serve_request io q v))"
    unfolding serve_request_def stats by (rule alike_handle)+
qed

lemma alike_if: "(c \<Longrightarrow> alike a a') \<Longrightarrow> (\<not> c \<Longrightarrow> alike b b') \<Longrightarrow> alike (if c then a else b) (if c then a' else b')"
  by simp

lemma alike_audio:
  assumes "alike w v"
  shows "alike (read_audio d w) (read_audio d v)"
proof -
  obtain xs where v: "v = w\<lparr>rx_out := xs\<rparr>"
    using alike_out [OF assms] by blast
  have stats: "on_stats f (w\<lparr>rx_out := xs\<rparr>) = (on_stats f w)\<lparr>rx_out := xs\<rparr>" for f w
    by (simp add: on_stats_def on_receiver_def)
  have main: "alike (handle_audio_packet p w) (handle_audio_packet p (w\<lparr>rx_out := xs\<rparr>))" for p w
    by (auto simp: handle_audio_packet_def Let_def store_audio_def request_retransmit_def alike_def on_session_def
        on_receiver_def on_stats_def split: option.split)
  show ?thesis
    unfolding v read_audio_def Let_def stats by (intro alike_if main alike_refl)
qed

lemma closing_reply: "rp_close (fst (handle ports q w)) \<Longrightarrow> \<not> cs_recording (rx_session (snd (handle ports q w)))"
  by (cases ports) (auto simp: handle_def handle_setup_def Let_def Receiver.ok_reply_def Receiver.plain_reply_def split: if_splits option.splits)

lemma timing_socket:
  assumes "serve_request io q w = (a, w')" "cs_timing_sock (rx_session w') \<noteq> None"
  shows "cs_timing_sock (rx_session w) \<noteq> None \<or> sets_up q a"
proof (cases "nq_method q = ''SETUP''")
  case True
  obtain p1 p2 p3 where "io_ports io = (p1, p2, p3)"
    by (cases "io_ports io")
  with assms True show ?thesis
    by (auto simp: serve_request_def handle_def handle_setup_def Let_def sets_up_def Receiver.ok_reply_def Receiver.plain_reply_def
        split: option.splits)
next
  case False
  from same_wires_request [OF this, of w io] assms show ?thesis
    by (simp add: same_wires_def wiring_def)
qed

lemma rate_kept:
  "mr_rate (rx_receiver (snd (serve_request io q w))) = mr_rate (rx_receiver w)"
  "mr_rate (rx_receiver (read_audio d w)) = mr_rate (rx_receiver w)"
proof -
  have stats: "mr_rate (rx_receiver (on_stats f w)) = mr_rate (rx_receiver w)" for f w
    by (simp add: on_stats_def)
  show "mr_rate (rx_receiver (snd (serve_request io q w))) = mr_rate (rx_receiver w)"
    by (cases "io_ports io") (simp add: serve_request_def handle_def handle_setup_def Let_def stats split: option.split)
  have "mr_rate (rx_receiver (handle_audio_packet p w)) = mr_rate (rx_receiver w)" for p w
    by (simp add: handle_audio_packet_def Let_def store_audio_def request_retransmit_def stats append_pcm_def
        append_silence_def split: option.split)
  then show "mr_rate (rx_receiver (read_audio d w)) = mr_rate (rx_receiver w)"
    by (simp add: read_audio_def Let_def stats)
qed


text \<open>The requests in the bytes of a connection, as events of the process.\<close>

function requests_in :: "nat \<Rightarrow> (nat \<Rightarrow> conn_io) \<Rightarrow> nat \<Rightarrow> string \<Rightarrow> host_event list" where
  "requests_in m io n s =
     (case read_request s of
        Inl _ \<Rightarrow> []
      | Inr (q, rest) \<Rightarrow> Rtsp m (io n) q # requests_in m io (Suc n) rest)"
  by pat_completeness auto
termination
  by (relation "measure (\<lambda>(m, io, n, s). length s)") (auto dest: read_request_length)

declare requests_in.simps [simp del]

definition serving :: "nat \<Rightarrow> reception \<Rightarrow> host \<Rightarrow> bool" where
  "serving m w h \<longleftrightarrow>
     (\<exists>c. hs_conns h m = Some c \<and> \<not> cn_done c \<and> alike (reception_of c h) w
          \<and> (cs_timing_sock (cn_session c) \<noteq> None \<longrightarrow> cn_reading c))"

lemma serving_request:
  assumes "serving m w h" "serve_request io q w = (a, w')" "io_write_ok io" "\<not> rp_close a"
  shows "serving m w' (host_request m io q h)"
proof -
  obtain c where c: "hs_conns h m = Some c" "\<not> cn_done c" "alike (reception_of c h) w"
    "cs_timing_sock (cn_session c) \<noteq> None \<longrightarrow> cn_reading c"
    using assms(1) by (auto simp: serving_def)
  obtain u where u: "serve_request io q (reception_of c h) = (a, u)" "alike u w'"
    using alike_serve [OF c(3), of io q] assms(2) by (cases "serve_request io q (reception_of c h)") simp
  let ?c = "c\<lparr>cn_session := rx_session u, cn_open := rx_open u, cn_reading := cn_reading c \<or> sets_up q a\<rparr>"
  have "host_request m io q h = put_connection m ?c (rx_receiver u) h"
    using c(1,2) u(1) assms(3,4) by (simp add: host_request_def Let_def)
  moreover have "cs_timing_sock (rx_session u) \<noteq> None \<longrightarrow> cn_reading c \<or> sets_up q a"
    using timing_socket [OF u(1)] c(4) by (auto simp: reception_of_def)
  ultimately show ?thesis
    using c(2) u(2) by (simp add: serving_def put_connection_def reception_of_def alike_def)
qed

lemma serving_requests:
  assumes "serving m w h" "\<forall>i. io_write_ok (io i)" "serve_conn io n s w = (rs, w')" "cs_recording (rx_session w')"
  shows "serving m w' (fold host_step (requests_in m io n s) h)"
  using assms
proof (induction io n s w arbitrary: h rs rule: serve_conn.induct)
  case (1 io n s w)
  show ?case
  proof (cases "read_request s")
    case (Inl e)
    with 1(2,4) show ?thesis
      by (simp add: requests_in.simps [of m io n s] serve_conn.simps [of io n s])
  next
    case (Inr x)
    obtain q rest where x: "x = (q, rest)"
      by fastforce
    obtain a w1 where served: "serve_request (io n) q w = (a, w1)"
      by fastforce
    have rest_conn: "(if rp_close a then ([write_response (io_order (io n)) a], w1)
        else (case serve_conn io (Suc n) rest w1 of (as, w'') \<Rightarrow> (write_response (io_order (io n)) a # as, w''))) = (rs, w')"
      using 1(3,4) Inr x served by (simp add: serve_conn.simps [of io n s])
    have open_conn: "\<not> rp_close a"
    proof
      assume closing: "rp_close a"
      then have "\<not> cs_recording (rx_session w1)"
        using closing_reply served by (metis fst_conv serve_request_def snd_conv)
      with closing rest_conn 1(5) show False
        by simp
    qed
    obtain as where as: "serve_conn io (Suc n) rest w1 = (as, w')"
      using rest_conn open_conn by (auto split: prod.splits)
    have "serving m w1 (host_request m (io n) q h)"
      using serving_request [OF 1(2) served] 1(3) open_conn by blast
    moreover have "\<not> \<not> io_write_ok (io n)"
      using 1(3) by simp
    ultimately show ?thesis
      using 1(1) [OF Inr x [symmetric] served [symmetric] _ open_conn _ 1(3) as 1(5)]
      by (simp add: requests_in.simps [of m io n s] Inr x)
  qed
qed


lemma serving_audio:
  assumes "serving m w h" "\<not> cs_closed (rx_session w)" "cs_timing_sock (rx_session w) \<noteq> None" "cs_audio_sock (rx_session w) \<noteq> None"
  shows "serving m (fold read_audio ds w) (fold host_step (map (Audio_In m) ds) h)"
  using assms
proof (induction ds arbitrary: w h)
  case (Cons d ds)
  obtain c where c: "hs_conns h m = Some c" "\<not> cn_done c" "alike (reception_of c h) w"
    "cs_timing_sock (cn_session c) \<noteq> None \<longrightarrow> cn_reading c"
    using Cons.prems(1) by (auto simp: serving_def)
  have ses: "rx_session w = cn_session c"
    using c(3) by (simp add: alike_def reception_of_def)
  define u where "u = read_audio d (reception_of c h)"
  have u: "alike u (read_audio d w)"
    unfolding u_def by (rule alike_audio [OF c(3)])
  have wires: "wiring (rx_session u) = wiring (cn_session c)"
    using same_wires_reads(1) [of "reception_of c h" d] by (simp add: u_def same_wires_def reception_of_def)
  have "host_step (Audio_In m d) h = put_connection m (c\<lparr>cn_session := rx_session u, cn_open := rx_open u\<rparr>) (rx_receiver u) h"
    using c Cons.prems(2-4) by (simp add: host_read_def on_connection_def ses u_def Let_def)
  then have "serving m (read_audio d w) (host_step (Audio_In m d) h)"
    using c(2,4) u wires by (simp add: serving_def put_connection_def reception_of_def alike_def wiring_def)
  moreover have "wiring (rx_session (read_audio d w)) = wiring (rx_session w)"
    using u wires by (simp add: alike_def ses)
  ultimately have "serving m (fold read_audio ds (read_audio d w)) (fold host_step (map (Audio_In m) ds) (host_step (Audio_In m d) h))"
    using Cons.prems(2-4) by (intro Cons.IH) (simp_all add: wiring_def)
  then show ?case
    by simp
qed simp

lemma serving_receiver: "serving m w h \<Longrightarrow> hs_receiver h = rx_receiver w"
  by (auto simp: serving_def alike_def reception_of_def)

lemma finish_keeps_capture:
  "mr_pcm (hs_receiver (host_finish m h)) = mr_pcm (hs_receiver h)" "mr_rate (hs_receiver (host_finish m h)) = mr_rate (hs_receiver h)"
proof -
  have "mr_pcm (fst (session_ended r)) = mr_pcm r \<and> mr_rate (fst (session_ended r)) = mr_rate r" for r
    by (simp add: session_ended_def Let_def)
  then show "mr_pcm (hs_receiver (host_finish m h)) = mr_pcm (hs_receiver h)" "mr_rate (hs_receiver (host_finish m h)) = mr_rate (hs_receiver h)"
    by (auto simp: host_finish_def Let_def put_connection_def close_session_fields reception_of_def split: option.split prod.split)
      (metis fst_conv)+
qed

lemma shutdown_keeps_receiver: "hs_receiver (host_shutdown ord h) = hs_receiver h"
proof -
  have "hs_receiver (on_connection n close_session h) = hs_receiver h" for n h
    by (simp add: on_connection_def put_connection_def Let_def close_session_fields reception_of_def split: option.split)
  then have "hs_receiver (fold (\<lambda>n. on_connection n close_session) ns h) = hs_receiver h" for ns
    by (induction ns arbitrary: h) simp_all
  then show ?thesis
    by (simp add: host_shutdown_def)
qed

lemma rate_of_conn: "serve_conn io n s w = (rs, w') \<Longrightarrow> mr_rate (rx_receiver w') = mr_rate (rx_receiver w)"
proof (induction io n s w arbitrary: rs rule: serve_conn.induct)
  case (1 io n s w)
  show ?case
  proof (cases "read_request s")
    case (Inl e)
    with 1(2) show ?thesis
      by (simp add: serve_conn.simps [of io n s])
  next
    case (Inr x)
    obtain q rest where x: "x = (q, rest)"
      by fastforce
    obtain a w1 where served: "serve_request (io n) q w = (a, w1)"
      by fastforce
    have w1: "mr_rate (rx_receiver w1) = mr_rate (rx_receiver w)"
      using rate_kept(1) [of "io n" q w] by (simp add: served)
    show ?thesis
    proof (cases "\<not> io_write_ok (io n) \<or> rp_close a")
      case True
      with 1(2) Inr x served w1 show ?thesis
        by (auto simp: serve_conn.simps [of io n s] split: if_splits)
    next
      case False
      then obtain as where "serve_conn io (Suc n) rest w1 = (as, w')"
        using 1(2) Inr x served by (auto simp: serve_conn.simps [of io n s] split: prod.splits)
      with 1(1) [OF Inr x [symmetric] served [symmetric]] False w1 show ?thesis
        by simp
    qed
  qed
qed

text \<open>A connection, its requests, its audio and its end.\<close>

definition listening :: "u32 \<Rightarrow> string \<Rightarrow> (nat \<Rightarrow> conn_io) \<Rightarrow> string \<Rightarrow> byte list list \<Rightarrow> host_event list" where
  "listening ident peer io bytes datagrams =
     Accept ident peer # requests_in 0 io 0 bytes @ map (Audio_In 0) datagrams @ [Hang_Up 0]"

lemma listening_captures:
  assumes "serve_conn io 0 bytes (accept_conn ident peer (receiver_of opts)) = (rs, w)" "\<forall>i. io_write_ok (io i)"
    and "cs_recording (rx_session w)" "\<not> cs_closed (rx_session w)" "cs_timing_sock (rx_session w) \<noteq> None"
    and "cs_audio_sock (rx_session w) \<noteq> None" "u = fold read_audio ds w" "mr_pcm (rx_receiver u) \<noteq> []"
  shows "\<exists>d h. snd (mock_main opts True mdns_ok (listening ident peer io bytes ds) ord True)
       = (Capture_Written (wav_header (mf_rate opts) (length (mr_pcm (rx_receiver u))) @ mr_pcm (rx_receiver u)) d, h)"
proof -
  let ?r = "receiver_of opts"
  define h0 where "h0 = host_step (Accept ident peer) (new_host ?r)"
  define h1 where "h1 = fold host_step (requests_in 0 io 0 bytes) h0"
  define h2 where "h2 = fold host_step (map (Audio_In 0) ds) h1"
  have "serving 0 (accept_conn ident peer ?r) h0"
    by (simp add: serving_def h0_def host_accept_def new_host_def Let_def reception_of_def accept_conn_def alike_def
        new_receiver_session_def)
  then have "serving 0 w h1"
    unfolding h1_def using serving_requests assms(1-3) by blast
  then have "serving 0 u h2"
    unfolding h2_def assms(7) by (rule serving_audio) (use assms(4-6) in simp_all)
  then have r: "hs_receiver h2 = rx_receiver u"
    by (rule serving_receiver)
  have "mr_rate (rx_receiver (fold read_audio ds w)) = mr_rate (rx_receiver w)"
    by (induction ds arbitrary: w) (simp_all add: rate_kept(2))
  then have rate: "mr_rate (rx_receiver u) = mf_rate opts"
    using rate_of_conn [OF assms(1)] by (simp add: assms(7) accept_conn_def receiver_of_def new_receiver_def)
  have run: "fold host_step (listening ident peer io bytes ds) (new_host ?r) = host_finish 0 h2"
    by (simp add: listening_def h0_def h1_def h2_def)
  have written: "wav_file (hs_receiver (host_shutdown ord (host_finish 0 h2)))
      = Some (wav_header (mf_rate opts) (length (mr_pcm (rx_receiver u))) @ mr_pcm (rx_receiver u))"
    using assms(8) by (simp add: shutdown_keeps_receiver wav_file_def finish_keeps_capture r rate)
  show ?thesis
    by (simp add: mock_main_def Let_def run written)
qed


text \<open>
  C2: A song ends in the file.  A sender that has shaken hands with the mock receiver, set the volume and
  sent RECORD streams a source that nothing disturbs; the receiver's process gets the requests, the
  datagrams and the end of the connection, and is stopped.  Then the file it writes is a WAV header and
  the whole source, followed by zeros, and nothing else.
\<close>

lemma song_ends_in_file:
  assumes "speakable (sd_conn s0) (sd_format s0)" "validate (sd_format s0) = None" "fresh_sender s0" "sd_state s0 = S_Idle"
    and "play_io io a ct tt v" "\<forall>i. io_write_ok (io i)" "0 < a" "in_int64 a" "in_int64 ct" "in_int64 tt" "in_int64 cp" "in_int64 tp"
    and "s = played a ct tt cp tp v s0" "\<forall>i \<in> set ins. smooth_input i" "2 \<le> length pcm"
    and "8 * packets_left (packet_bytes s) (length pcm) + 571 \<le> length ins"
    and "datagrams = audio_packets (w_out (fold world_step (map Loop ins) (new_world s pcm)))"
  shows "\<exists>rs n data d h. length rs = (if v > 0 then 5 else 4)
       \<and> (\<forall>env. hears env v rs \<longrightarrow>
            handshake False (de_options (nv_dial env)) (de_announce (nv_dial env)) (Some cp) (Some tp) True (de_setup (nv_dial env)) s0
              = (None, shaken a ct tt cp tp s0)
            \<and> record_request (nv_record_io env)
                (if v > 0 then snd (set_volume (nv_volume_io env) v (shaken a ct tt cp tp s0)) else shaken a ct tt cp tp s0) = (None, s))
       \<and> data = decode_l16_to_le (pcm @ replicate n 0)
       \<and> snd (mock_main opts True mdns_ok
               (listening ident peer io (play_text (sd_conn s0) (sd_format s0) cp tp v) datagrams) ord True)
         = (Capture_Written (wav_header (mf_rate opts) (length data) @ data) d, h)"
proof -
  let ?w0 = "accept_conn ident peer (receiver_of opts)"
  obtain rs w where served: "serve_conn io 0 (play_text (sd_conn s0) (sd_format s0) cp tp v) ?w0 = (rs, w)"
    and heard: "\<forall>env. hears env v rs \<longrightarrow>
       handshake False (de_options (nv_dial env)) (de_announce (nv_dial env)) (Some cp) (Some tp) True (de_setup (nv_dial env)) s0
         = (None, shaken a ct tt cp tp s0)
       \<and> record_request (nv_record_io env)
           (if v > 0 then snd (set_volume (nv_volume_io env) v (shaken a ct tt cp tp s0)) else shaken a ct tt cp tp s0) = (None, s)"
    and w: "rx_session w = heard_play (sd_conn s0) (sd_format s0) a ct tt cp tp v (rx_session ?w0)"
      "mr_pcm (rx_receiver w) = mr_pcm (rx_receiver ?w0)" "length rs = (if v > 0 then 5 else 4)"
    unfolding assms(13) by (rule play_served [OF assms(1,5,7-12)])
  have ses: "cs_recording (rx_session w)" "\<not> cs_closed (rx_session w)" "cs_timing_sock (rx_session w) \<noteq> None"
      "cs_audio_sock (rx_session w) \<noteq> None" "\<not> cs_have_seq (rx_session w)"
    by (simp_all add: w(1) heard_play_def shaken_session_def Let_def accept_conn_def new_receiver_session_def)
  have startable: "startable s"
    using assms(1-4) by (simp add: startable_def played_fields assms(13)) (simp add: rate_ok_def speakable_def in_int64_def)
  have "running s"
    using startable by (simp add: startable_def running_def fresh_sender_def channel_inv_def)
      (simp add: assms(13) played_def shaken_def Let_def)
  then have "loop_pc (w_loop (fold world_step (map Loop ins) (new_world s pcm))) = Returned None"
    by (intro smooth_run) (use assms(14,16) in \<open>simp_all add: new_world_def initial_loop_def going_def\<close>)
  then obtain n where n: "audio_pcm (w_out (fold world_step (map Loop ins) (new_world s pcm))) = pcm @ replicate n 0"
    using audio_pcm_run [OF startable _ refl, of "map Loop ins" pcm] by auto
  define u where "u = fold read_audio datagrams w"
  define data where "data = decode_l16_to_le (pcm @ replicate n 0)"
  have data: "mr_pcm (rx_receiver u) = data"
    using capture_of_run(1) [OF startable refl ses(5) u_def [unfolded assms(17)]]
    by (simp add: n data_def w(2) accept_conn_def receiver_of_def new_receiver_def)
  moreover have "data \<noteq> []"
    using assms(15) length_decode [of "pcm @ replicate n 0"] by (auto simp: data_def)
  ultimately show ?thesis
    using listening_captures [OF served assms(6) ses(1-4) u_def, of mdns_ok ord] w(3) heard data_def by metis
qed


lemma song_ends_in_file_witness:
  "\<exists>c n data d h.
      new_rtsp_conn (Some [1, 2, 3, 4]) (Some [5, 6, 7, 8]) (Some [9, 9, 9, 9, 9, 9, 9, 9]) ''10.0.0.2'' ''10.0.0.9'' = Inr c
    \<and> data = decode_l16_to_le ([1, 2, 3, 4] @ replicate n 0)
    \<and> snd (mock_main default_flags True (True, True)
        (listening 7 ''10.0.0.2:4000'' mock_io (play_text c \<lparr>sample_rate = 44100, channels = 1, bit_depth = 16\<rparr> 5001 5002 40)
          (audio_packets (w_out (fold world_step (map Loop (replicate 600 smooth))
            (new_world (played 6000 6001 6002 5001 5002 40
               (initial_sender living_room \<lparr>sample_rate = 44100, channels = 1, bit_depth = 16\<rparr> c 7 8)) [1, 2, 3, 4]))))) [] True)
      = (Capture_Written (wav_header 44100 (length data) @ data) d, h)"
proof -
  let ?f = "\<lparr>sample_rate = 44100, channels = 1, bit_depth = 16\<rparr>"
  obtain c where c: "new_rtsp_conn (Some [1, 2, 3, 4]) (Some [5, 6, 7, 8]) (Some [9, 9, 9, 9, 9, 9, 9, 9]) ''10.0.0.2'' ''10.0.0.9'' = Inr c"
    by (simp add: new_rtsp_conn_def random_uint32_def random_hex_def)
  let ?s0 = "initial_sender living_room ?f c 7 8"
  have s0: "sd_conn ?s0 = c" "sd_format ?s0 = ?f" "sd_state ?s0 = S_Idle" "fresh_sender ?s0"
    by (simp_all add: initial_idle initial_fresh)
  have f: "validate ?f = None" "in_int64 (sample_rate ?f)"
    by (simp_all add: validate_def in_int64_def)
  have "speakable c ?f"
    by (rule dialled_conn(1) [OF c _ _ f]) (simp_all add: plain_host_def)
  then have sp: "speakable (sd_conn ?s0) (sd_format ?s0)" and fv: "validate (sd_format ?s0) = None"
    by (simp_all add: s0 f)
  have io: "play_io mock_io 6000 6001 6002 40" "\<forall>i. io_write_ok (mock_io i)" "0 < (6000 :: int)"
    by (simp_all add: play_io_def handshake_io_def mock_io_def insert_commute)
  have ports: "in_int64 6000" "in_int64 6001" "in_int64 6002" "in_int64 5001" "in_int64 5002"
    by (simp_all add: in_int64_def)
  have sf: "\<forall>i \<in> set (replicate 600 smooth). smooth_input i" "2 \<le> length [1, 2, 3, 4 :: byte]"
    by (simp_all add: smooth_input_def smooth_def)
  have "packet_bytes (played 6000 6001 6002 5001 5002 40 ?s0) = 704"
    by (rule demo_packet_bytes) (simp add: played_fields s0)
  then have enough: "8 * packets_left (packet_bytes (played 6000 6001 6002 5001 5002 40 ?s0)) (length [1, 2, 3, 4 :: byte]) + 571
      \<le> length (replicate 600 smooth)"
    by (simp add: packets_left_def)
  have rate: "mf_rate default_flags = 44100"
    by (simp add: default_flags_def)
  from song_ends_in_file [OF sp fv s0(4,3) io ports refl sf enough refl, of default_flags "(True, True)" 7 "''10.0.0.2:4000''" "[]"]
  show ?thesis
    using c unfolding s0(1,2) rate by iprover
qed

end
