(* ===== verification/Remote.thy ===== *)
theory Remote
  imports Api
begin

text \<open>
  The REST interface and the session manager together: what a play, a status and a stop request
  (api/handlers.go) make of the sessions of engine/manager.go, one after the other.
\<close>

subsection \<open>Requests that reach the session manager\<close>

definition admitted :: "server \<Rightarrow> http_request \<Rightarrow> bool" where
  "admitted sv q \<longleftrightarrow> sv_token sv = [] \<or> authorized sv q"

definition asks_status :: "http_request \<Rightarrow> string \<Rightarrow> bool" where
  "asks_status q d \<longleftrightarrow> hq_method q = ''GET'' \<and> hq_path q = ''/api/player/status'' \<and> trim_space (hq_device_id q) = d"

definition asks_play :: "http_request \<Rightarrow> bool" where
  "asks_play q \<longleftrightarrow> hq_method q = ''POST'' \<and> hq_path q = ''/api/player/play''"

definition asks_stop :: "http_request \<Rightarrow> string \<Rightarrow> bool" where
  "asks_stop q d \<longleftrightarrow> hq_method q = ''POST'' \<and> hq_path q = ''/api/player/control''
     \<and> (\<exists>b. hq_body q = Some b \<and> jb_device_id b = d \<and> to_lower (trim_space (jb_action b)) = action_stop)"

text \<open>A play request whose body is complete.\<close>

definition playable :: "request_io \<Rightarrow> server \<Rightarrow> http_request \<Rightarrow> json_body \<Rightarrow> bool" where
  "playable rio sv q b \<longleftrightarrow> hq_body q = Some b \<and> flexible_int64 (jb_track b) \<noteq> None \<and> trim_space (jb_device_id b) \<noteq> []
     \<and> resolve_stream_url (rq_relative rio) sv (jb_stream_url b) \<noteq> []"

lemma served_by:
  assumes "admitted sv q"
  shows "asks_status q d \<Longrightarrow> serve rio q sv = player_status rio q sv"
    and "asks_play q \<Longrightarrow> serve rio q sv = play_handler rio q sv"
    and "asks_stop q d \<Longrightarrow> serve rio q sv = control_handler rio q sv"
  using assms
  by (auto simp: serve_def asks_status_def asks_play_def asks_stop_def route_def get_route_def post_route_def guard_def
      admitted_def)

lemma play_error_not_ok: "play_error_status txt e \<noteq> 200"
  by (simp add: play_error_status_def split: engine_error.split)

lemma start_sessions:
  assumes "manager_start io env probe rord i req m = (Inr st, m')"
  shows "\<exists>t k. resolve_target rord i m = Inr t \<and> st = kernel_status (ki_now io) k
       \<and> mg_sessions m' = (mg_sessions m)(tg_id t \<mapsto> \<lparr>ms_engine = k, ms_target = t, ms_started = ki_now io\<rparr>)"
proof -
  obtain t where t: "resolve_target rord i m = Inr t"
    using assms by (cases "resolve_target rord i m") (auto simp: manager_start_def)
  obtain res m1 where c: "start_check (ki_now io) probe t m = (res, m1)"
    by fastforce
  from c show ?thesis
  proof (cases rule: start_check_cases)
    case (refused s)
    with assms t c show ?thesis
      by (simp add: manager_start_def)
  next
    case (go kind)
    then obtain k where "st = kernel_status (ki_now io) k" "m' = start_commit rord (ki_now io) t k m1"
      using assms t c by (auto simp: manager_start_def split: sum.splits prod.splits)
    with go(2) t show ?thesis
      by (intro exI [of _ t] exI [of _ k]) (simp add: start_commit_def)
  qed
qed

lemma play_answered:
  assumes "play_handler rio q sv = ((200, body), sv')"
  obtains b t k where "playable rio sv q b" "resolve_target (rq_rord rio) (jb_device_id b) (sv_manager sv) = Inr t"
    "body = Play_Body (st_state (kernel_status (ki_now (rq_io rio)) k)) (st_device_id (kernel_status (ki_now (rq_io rio)) k))"
    "mg_sessions (sv_manager sv') = (mg_sessions (sv_manager sv))
       (tg_id t \<mapsto> \<lparr>ms_engine = k, ms_target = t, ms_started = ki_now (rq_io rio)\<rparr>)"
    "sv_token sv' = sv_token sv"
proof -
  from assms obtain b track where b: "hq_body q = Some b" "flexible_int64 (jb_track b) = Some track"
    "trim_space (jb_device_id b) \<noteq> []" "resolve_stream_url (rq_relative rio) sv (jb_stream_url b) \<noteq> []"
    by (auto simp: play_handler_def write_error_def split: option.splits if_splits bind_splits)
  obtain res m where run: "manager_start (rq_io rio) (rq_env rio) (rq_probe rio) (rq_rord rio) (jb_device_id b)
      (play_request_of b (resolve_stream_url (rq_relative rio) sv (jb_stream_url b)) track) (sv_manager sv) = (res, m)"
    by fastforce
  obtain st where st: "res = Inr st" "body = Play_Body (st_state st) (st_device_id st)" "sv' = on_manager m sv"
    using assms b run play_error_not_ok by (cases res) (auto simp: play_handler_def write_error_def)
  from start_sessions [OF run [unfolded st(1)]] show ?thesis
    using that [of b] b st by (auto simp: playable_def on_manager_def)
qed

lemma status_by_key:
  "d \<noteq> [] \<Longrightarrow> mg_sessions m d = Some s \<Longrightarrow> manager_status now ord d m = Some (kernel_status now (ms_engine s))"
  by (simp add: manager_status_def find_session_def)

lemma stop_by_key:
  assumes "manager_inv m" "d \<noteq> []" "mg_sessions m d = Some s" "manager_control io rord ord d action_stop pos m = (Inr st, m')"
  shows "mg_sessions m' = (mg_sessions m)(d := None)"
proof -
  have f: "find_session ord d m = Some d"
    using assms(2,3) by (simp add: find_session_def)
  have "tg_id (ms_target s) = d"
    using assms(1,3) by (auto simp: manager_inv_def)
  then show ?thesis
    using assms(3,4) f
    by (auto simp: manager_control_def session_of_def forget_def update_engine_def split: prod.splits option.splits)
qed

text \<open>
  C12: What the interface promises about a session.  When a play request is answered 200, a device was found
  and one session is stored for it; from then on the status of that device is the status of that
  session, whoever asks and as often as they like; another play request for the device, while its
  session streams or is paused, is answered 409 and changes nothing; and a stop request that is
  answered 200 removes that session and no other.
\<close>

lemma play_is_visible:
  assumes "admitted sv q" "asks_play q" "serve rio q sv = ((200, body), sv')"
  shows "\<exists>b t k s. playable rio sv q b \<and> resolve_target (rq_rord rio) (jb_device_id b) (sv_manager sv) = Inr t
       \<and> s = \<lparr>ms_engine = k, ms_target = t, ms_started = ki_now (rq_io rio)\<rparr>
       \<and> mg_sessions (sv_manager sv') = (mg_sessions (sv_manager sv))(tg_id t \<mapsto> s)
       \<and> body = Play_Body (st_state (kernel_status (ki_now (rq_io rio)) k)) (st_device_id (kernel_status (ki_now (rq_io rio)) k))
       \<and> (tg_id t \<noteq> [] \<longrightarrow>
            (\<forall>rio1 q1. admitted sv' q1 \<and> asks_status q1 (tg_id t) \<longrightarrow>
               serve rio1 q1 sv' = ((200, Status_Body (kernel_status (ki_now (rq_io rio1)) k)), sv'))
          \<and> (\<forall>rio1 q1 b1 t1. admitted sv' q1 \<and> asks_play q1 \<and> playable rio1 sv' q1 b1
                \<and> resolve_target (rq_rord rio1) (jb_device_id b1) (sv_manager sv') = Inr t1 \<and> tg_id t1 = tg_id t
                \<and> st_state (kernel_status (ki_now (rq_io rio1)) k) \<in> {Playing, Buffering, Paused} \<longrightarrow>
               serve rio1 q1 sv' = ((409, Error_Body (Engine_Failure (Already_Active (tg_name t1)))), sv'))
          \<and> (\<forall>rio1 q1 body1 sv1. admitted sv' q1 \<and> asks_stop q1 (tg_id t) \<and> manager_inv (sv_manager sv')
                \<and> serve rio1 q1 sv' = ((200, body1), sv1) \<longrightarrow>
               mg_sessions (sv_manager sv1) = (mg_sessions (sv_manager sv))(tg_id t := None)))"
proof -
  have "play_handler rio q sv = ((200, body), sv')"
    using served_by(2) [OF assms(1,2)] assms(3) by simp
  then obtain b t k where p: "playable rio sv q b" "resolve_target (rq_rord rio) (jb_device_id b) (sv_manager sv) = Inr t" "body = Play_Body (st_state (kernel_status (ki_now (rq_io rio)) k)) (st_device_id (kernel_status (ki_now (rq_io rio)) k))"
    "mg_sessions (sv_manager sv') = (mg_sessions (sv_manager sv))
       (tg_id t \<mapsto> \<lparr>ms_engine = k, ms_target = t, ms_started = ki_now (rq_io rio)\<rparr>)"
    by (rule play_answered)
  let ?s = "\<lparr>ms_engine = k, ms_target = t, ms_started = ki_now (rq_io rio)\<rparr>"
  have here: "mg_sessions (sv_manager sv') (tg_id t) = Some ?s"
    using p(4) by simp
  have status: "serve rio1 q1 sv' = ((200, Status_Body (kernel_status (ki_now (rq_io rio1)) k)), sv')"
    if "tg_id t \<noteq> []" "admitted sv' q1" "asks_status q1 (tg_id t)" for rio1 q1
    using that status_by_key [OF that(1) here] by (simp add: served_by(1) player_status_def asks_status_def)
  have again: "serve rio1 q1 sv' = ((409, Error_Body (Engine_Failure (Already_Active (tg_name t1)))), sv')"
    if "admitted sv' q1" "asks_play q1" "playable rio1 sv' q1 b1"
      "resolve_target (rq_rord rio1) (jb_device_id b1) (sv_manager sv') = Inr t1" "tg_id t1 = tg_id t"
      "st_state (kernel_status (ki_now (rq_io rio1)) k) \<in> {Playing, Buffering, Paused}" for rio1 q1 b1 t1
  proof -
    note again = that
    obtain track where "flexible_int64 (jb_track b1) = Some track"
      using again(3) by (auto simp: playable_def)
    moreover have "manager_start (rq_io rio1) (rq_env rio1) (rq_probe rio1) (rq_rord rio1) (jb_device_id b1) req (sv_manager sv')
        = (Inl (Already_Active (tg_name t1)), sv_manager sv')" for req
      using again(4-6) here by (simp add: manager_start_def start_check_def)
    ultimately show ?thesis
      using again(1-3)
      by (simp add: served_by(2) play_handler_def playable_def write_error_def play_error_status_def on_manager_def)
  qed
  have stop: "mg_sessions (sv_manager sv1) = (mg_sessions (sv_manager sv))(tg_id t := None)"
    if "tg_id t \<noteq> []" "admitted sv' q1" "asks_stop q1 (tg_id t)" "manager_inv (sv_manager sv')"
      "serve rio1 q1 sv' = ((200, body1), sv1)" for rio1 q1 body1 sv1
  proof -
    note stopped = that
    obtain b1 where b1: "hq_body q1 = Some b1" "jb_device_id b1 = tg_id t" "to_lower (trim_space (jb_action b1)) = action_stop"
      using stopped(3) by (auto simp: asks_stop_def)
    have apart: "action_stop \<noteq> action_seek"
      by (simp add: action_stop_def action_seek_def)
    obtain res m1 where c: "manager_control (rq_io rio1) (rq_rord rio1) (rq_ord rio1) (tg_id t) action_stop (jb_position_ms b1)
        (sv_manager sv') = (res, m1)"
      by fastforce
    have "control_handler rio1 q1 sv' = ((200, body1), sv1)"
      using served_by(3) [OF stopped(2,3)] stopped(5) by simp
    then obtain st where "res = Inr st" "sv1 = on_manager m1 sv'"
      using b1 c apart
      by (cases res) (auto simp: control_handler_def write_error_def session_error_status_def split: engine_error.splits)
    with stop_by_key [OF stopped(4,1) here] c p(4) show ?thesis
      by (simp add: on_manager_def)
  qed
  show ?thesis
    by (intro exI [of _ b] exI [of _ t] exI [of _ k] exI [of _ ?s] conjI impI allI refl p) (elim conjE, (rule status again stop; assumption))+
qed

definition speaker_manager :: manager where
  "speaker_manager = kitchen_manager\<lparr>mg_config := kitchen_config\<lparr>mc_engine := ''cliairplay''\<rparr>\<rparr>"

definition play_body :: json_body where
  "play_body =
     \<lparr>jb_device_id = ''k'', jb_stream_url = ''http://10.0.0.2/1'', jb_track = ''1'', jb_title = [], jb_artist = [], jb_album = [],
      jb_duration_ms = 0, jb_start_ms = 0, jb_volume = None, jb_action = [], jb_position_ms = 0, jb_address = [], jb_port = 0\<rparr>"

lemma speaker_starts:
  assumes "stream_url req = ''http://10.0.0.2/1''"
  shows "\<exists>st m. manager_start demo_io demo_env probe [''k''] ''k'' req speaker_manager = (Inr st, m)"
proof -
  have res: "resolve_target [''k''] ''k'' speaker_manager = Inr kitchen_target"
    using kitchen_resolves(1) by (simp add: speaker_manager_def resolve_target_def)
  have url: "stream_url (resolve_volume cfg req) = ''http://10.0.0.2/1''" for cfg
    using assms by (simp add: resolve_volume_def Let_def)
  have "snd (kernel_start demo_env (resolve_volume cfg req) (new_kernel now cfg ''cliairplay'' t v)) = None" for cfg now t v
    by (simp add: new_kernel_def demo_env_def cli_start_success cli_ready_env_def url demo_decoder)
  then have "\<exists>k. start_kernel io demo_env cfg ''cliairplay'' t req = Inr k" for io cfg t
    by (auto simp: start_kernel_def Let_def split: prod.split option.split) (metis option.distinct(1) snd_conv)
  then obtain k where "start_kernel demo_io demo_env (kitchen_config\<lparr>mc_engine := ''cliairplay''\<rparr>) ''cliairplay'' kitchen_target req = Inr k"
    by blast
  then show ?thesis
    using res
    by (simp add: manager_start_def start_check_def resolve_kind_def speaker_manager_def kitchen_manager_def new_manager_def Let_def)
qed

lemma play_is_visible_witness:
  defines "sv \<equiv> new_server 1 speaker_manager [] [] False"
    and "q \<equiv> empty_request\<lparr>hq_path := ''/api/player/play'', hq_body := Some play_body\<rparr>"
    and "q1 \<equiv> empty_request\<lparr>hq_method := ''GET'', hq_path := ''/api/player/status'', hq_device_id := ''k''\<rparr>"
  shows "\<exists>body sv' k. serve demo_request_io q sv = ((200, body), sv')
     \<and> serve demo_request_io q1 sv' = ((200, Status_Body (kernel_status 9 k)), sv')"
proof -
  have sv: "sv_token sv = []" "sv_manager sv = speaker_manager" "sv_url sv = []"
    by (simp_all add: sv_def new_server_def trim_right_def)
  have q: "admitted sv q" "asks_play q"
    by (simp_all add: admitted_def sv asks_play_def q_def empty_request_def)
  have trims: "trim_space ''k'' = ''k''" "trim_space ''http://10.0.0.2/1'' = ''http://10.0.0.2/1''"
    by (simp_all add: trim_space_id edge_byte_def space_runes_def)
  have track: "flexible_int64 ''1'' = Some 1"
    by code_simp
  have b: "hq_body q = Some play_body"
    by (simp add: q_def)
  have named: "jb_device_id play_body = ''k''" "jb_track play_body = ''1''"
    and io: "rq_io demo_request_io = demo_io" "rq_env demo_request_io = demo_env" "rq_probe demo_request_io = (\<lambda>_. False)"
      "rq_rord demo_request_io = [''k'']"
    by (simp_all add: play_body_def demo_request_io_def)
  have url: "resolve_stream_url (rq_relative demo_request_io) sv (jb_stream_url play_body) = ''http://10.0.0.2/1''"
    by (simp add: resolve_stream_url_def play_body_def trims sv Let_def)
  have "stream_url (play_request_of play_body ''http://10.0.0.2/1'' 1) = ''http://10.0.0.2/1''"
    by (simp add: play_request_of_def)
  then obtain st m where run: "manager_start demo_io demo_env (\<lambda>_. False) [''k''] ''k'' (play_request_of play_body ''http://10.0.0.2/1'' 1) speaker_manager
      = (Inr st, m)"
    using speaker_starts by blast
  have "play_handler demo_request_io q sv = ((200, Play_Body (st_state st) (st_device_id st)), on_manager m sv)"
    using run trims(1) track by (simp add: play_handler_def b url named io sv)
  then have served: "serve demo_request_io q sv = ((200, Play_Body (st_state st) (st_device_id st)), on_manager m sv)"
    using served_by(2) [OF q] by simp
  have q1: "admitted (on_manager m sv) q1" "asks_status q1 ''k''"
    by (simp_all add: admitted_def on_manager_def sv asks_status_def q1_def empty_request_def trims)
  have target: "tg_id t = ''k''" if "resolve_target [''k''] ''k'' speaker_manager = Inr t" for t
    using that kitchen_resolves(1,3) by (simp add: speaker_manager_def resolve_target_def)
  obtain b t k where t: "playable demo_request_io sv q b"
      "resolve_target (rq_rord demo_request_io) (jb_device_id b) (sv_manager sv) = Inr t"
    and status: "tg_id t \<noteq> [] \<Longrightarrow> admitted (on_manager m sv) q1 \<Longrightarrow> asks_status q1 (tg_id t) \<Longrightarrow>
      serve demo_request_io q1 (on_manager m sv) = ((200, Status_Body (kernel_status (ki_now (rq_io demo_request_io)) k)), on_manager m sv)"
    using play_is_visible [OF q served] by blast
  have "tg_id t = ''k''"
    using t target by (auto simp: playable_def b named io sv)
  then have "serve demo_request_io q1 (on_manager m sv) = ((200, Status_Body (kernel_status 9 k)), on_manager m sv)"
    using status q1 by (simp add: demo_request_io_def demo_io_def)
  with served show ?thesis
    by blast
qed

end
